(* ===== verification/Prelude.thy ===== *)
theory Prelude
  imports Main "HOL-Library.Word" "HOL-Library.State_Monad" "HOL-Library.List_Lexorder"
    "HOL-Library.Char_ord"
begin

text \<open>
  Shared ground of the development: the type synonyms of the Go scalar types, the string
  functions of the Go standard library the controllers use (\<open>strings\<close>, \<open>fmt\<close>), Go's
  zero-value map indexing, and the two program logics all component proofs go through: a Hoare
  triple and a frame judgement for the state monad in which every effectful Go function is
  written.
\<close>

section \<open>Collections of rules\<close>

named_theorems const_defs \<open>definitions of the string constants of the source\<close>
named_theorems frame_rules \<open>composition rules of the frame judgement\<close>
named_theorems triple_rules \<open>composition rules of the Hoare triple\<close>

section \<open>Scalars\<close>

type_synonym int32 = "32 word"
type_synonym int64 = "64 word"

text \<open>An instant (Go's \<open>time.Time\<close>) in nanoseconds since the Unix epoch, and a
  \<open>time.Duration\<close> in nanoseconds.\<close>

type_synonym instant = int
type_synonym duration = int

abbreviation second :: duration where
  "second \<equiv> 1000000000"

section \<open>Maps with Go's zero value\<close>

type_synonym labels = "string \<rightharpoonup> string"

text \<open>Indexing a \<open>map[string]string\<close>: a missing key (or a nil map) reads as \<open>""\<close>.\<close>

definition sget :: "labels \<Rightarrow> string \<Rightarrow> string" where
  "sget m k = (case m k of None \<Rightarrow> [] | Some v \<Rightarrow> v)"

text \<open>Assigning every pair of a map literal, in some order.\<close>

definition put_all :: "labels \<Rightarrow> (string \<times> string) list \<Rightarrow> labels" where
  "put_all m kv = fold (\<lambda>(k, v) acc. acc(k \<mapsto> v)) kv m"

lemma sget_upd [simp]: "sget (m(k \<mapsto> v)) k' = (if k' = k then v else sget m k')"
  by (simp add: sget_def)

lemma sget_del [simp]: "sget (m(k := None)) k' = (if k' = k then [] else sget m k')"
  by (simp add: sget_def)

lemma sget_empty [simp]: "sget Map.empty k = []"
  by (simp add: sget_def)

lemma sget_nonempty: "sget m k \<noteq> [] \<Longrightarrow> m k = Some (sget m k)"
  by (simp add: sget_def split: option.splits)

lemma put_all_Nil [simp]: "put_all m [] = m"
  by (simp add: put_all_def)

lemma put_all_Cons [simp]: "put_all m ((k, v) # kv) = put_all (m(k \<mapsto> v)) kv"
  by (simp add: put_all_def)

lemma put_all_other: "k \<notin> fst ` set kv \<Longrightarrow> put_all m kv k = m k"
  by (induction kv arbitrary: m) auto

section \<open>Strings\<close>

text \<open>\<open>strings.HasPrefix\<close>.\<close>

fun has_prefix :: "string \<Rightarrow> string \<Rightarrow> bool" where
  "has_prefix s [] = True"
| "has_prefix [] (p # ps) = False"
| "has_prefix (c # s) (p # ps) = (c = p \<and> has_prefix s ps)"

lemma has_prefix_append [simp]: "has_prefix (p @ s) p"
  by (induction p) auto

lemma has_prefix_iff: "has_prefix s p \<longleftrightarrow> (\<exists>r. s = p @ r)"
  by (induction s p rule: has_prefix.induct) auto

text \<open>\<open>strings.Join\<close>.\<close>

fun join :: "string \<Rightarrow> string list \<Rightarrow> string" where
  "join sep [] = []"
| "join sep [x] = x"
| "join sep (x # y # xs) = x @ sep @ join sep (y # xs)"

text \<open>\<open>strings.Split\<close> at a one-byte separator: always at least one piece.\<close>

fun split_at :: "char \<Rightarrow> string \<Rightarrow> string list" where
  "split_at c [] = [[]]"
| "split_at c (x # xs) =
     (if x = c then [] # split_at c xs
      else (case split_at c xs of [] \<Rightarrow> [[x]] | w # ws \<Rightarrow> (x # w) # ws))"

text \<open>\<open>strings.TrimSpace\<close> over the ASCII white space.\<close>

definition is_space :: "char \<Rightarrow> bool" where
  "is_space c \<longleftrightarrow> c \<in> {CHR 0x09, CHR 0x0A, CHR 0x0B, CHR 0x0C, CHR 0x0D, CHR '' ''}"

definition trim_space :: "string \<Rightarrow> string" where
  "trim_space s = rev (dropWhile is_space (rev (dropWhile is_space s)))"

text \<open>\<open>strings.ToLower\<close> on ASCII (Kubernetes names are ASCII).\<close>

definition lower_char :: "char \<Rightarrow> char" where
  "lower_char c = (if 65 \<le> (of_char c :: nat) \<and> (of_char c :: nat) \<le> 90
     then char_of ((of_char c :: nat) + 32) else c)"

definition to_lower :: "string \<Rightarrow> string" where
  "to_lower s = map lower_char s"

lemma length_to_lower [simp]: "length (to_lower s) = length s"
  by (simp add: to_lower_def)

lemma to_lower_append: "to_lower (a @ b) = to_lower a @ to_lower b"
  by (simp add: to_lower_def)

text \<open>\<open>%d\<close> of \<open>fmt.Sprintf\<close>.\<close>

definition digit :: "nat \<Rightarrow> char" where
  "digit n = char_of (48 + n mod 10)"

fun show_nat :: "nat \<Rightarrow> string" where
  "show_nat n = (if n < 10 then [digit n] else show_nat (n div 10) @ [digit n])"

declare show_nat.simps [simp del]

definition show_int :: "int \<Rightarrow> string" where
  "show_int i = (if i < 0 then CHR ''-'' # show_nat (nat (- i)) else show_nat (nat i))"

lemma show_nat_nonempty [simp]: "show_nat n \<noteq> []"
  by (subst show_nat.simps) simp

section \<open>The first element with a property\<close>

lemma find_append: "find P (xs @ ys) = (case find P xs of None \<Rightarrow> find P ys | Some x \<Rightarrow> Some x)"
  by (induction xs) auto

lemma find_map: "find P (map f xs) = map_option f (find (P \<circ> f) xs)"
  by (induction xs) simp_all

section \<open>The state monad\<close>

text \<open>
  Every effectful function of the source is a \<open>('s, 'a) state\<close> of \<open>HOL-Library.State_Monad\<close>
  over the controller's state. A Go \<open>(T, error)\<close> result is a value \<open>err + 'a\<close>, and
  \<open>if err != nil\<close> is the case on it.
\<close>

type_synonym ('s, 'a) prog = "('s, 'a) state"

text \<open>The value and the final state of a run.\<close>

definition result_of :: "('s, 'a) prog \<Rightarrow> 's \<Rightarrow> 'a" where
  "result_of m s = fst (run_state m s)"

definition final_of :: "('s, 'a) prog \<Rightarrow> 's \<Rightarrow> 's" where
  "final_of m s = snd (run_state m s)"

lemma run_state_eq: "run_state m s = (result_of m s, final_of m s)"
  by (simp add: result_of_def final_of_def)

lemma result_of_return [simp]: "result_of (State_Monad.return a) s = a"
  by (simp add: result_of_def)

lemma final_of_return [simp]: "final_of (State_Monad.return a) s = s"
  by (simp add: final_of_def)

lemma result_of_bind [simp]:
  "result_of (State_Monad.bind m f) s = result_of (f (result_of m s)) (final_of m s)"
  by (simp add: result_of_def final_of_def split: prod.split)

lemma final_of_bind [simp]:
  "final_of (State_Monad.bind m f) s = final_of (f (result_of m s)) (final_of m s)"
  by (simp add: result_of_def final_of_def split: prod.split)

lemma result_of_get [simp]: "result_of State_Monad.get s = s"
  by (simp add: result_of_def)

lemma final_of_get [simp]: "final_of State_Monad.get s = s"
  by (simp add: final_of_def)

lemma result_of_set [simp]: "result_of (State_Monad.set t) s = ()"
  by (simp add: result_of_def)

lemma final_of_set [simp]: "final_of (State_Monad.set t) s = t"
  by (simp add: final_of_def)

text \<open>Running a list of programs for their effects only.\<close>

fun each :: "('a \<Rightarrow> ('s, unit) prog) \<Rightarrow> 'a list \<Rightarrow> ('s, unit) prog" where
  "each f [] = State_Monad.return ()"
| "each f (x # xs) = do { f x; each f xs }"

subsection \<open>Hoare triples\<close>

definition triple :: "('s \<Rightarrow> bool) \<Rightarrow> ('s, 'a) prog \<Rightarrow> ('a \<Rightarrow> 's \<Rightarrow> bool) \<Rightarrow> bool" where
  "triple P m Q \<longleftrightarrow> (\<forall>s. P s \<longrightarrow> Q (result_of m s) (final_of m s))"

lemma tripleI: "(\<And>s. P s \<Longrightarrow> Q (result_of m s) (final_of m s)) \<Longrightarrow> triple P m Q"
  by (simp add: triple_def)

lemma tripleD: "triple P m Q \<Longrightarrow> P s \<Longrightarrow> Q (result_of m s) (final_of m s)"
  by (simp add: triple_def)

lemma triple_return [triple_rules]: "(\<And>s. P s \<Longrightarrow> Q a s) \<Longrightarrow> triple P (State_Monad.return a) Q"
  by (simp add: triple_def)

lemma triple_bind:
  "triple P m R \<Longrightarrow> (\<And>a. triple (R a) (f a) Q) \<Longrightarrow> triple P (State_Monad.bind m f) Q"
  by (simp add: triple_def)

lemma triple_weaken:
  "triple P' m Q' \<Longrightarrow> (\<And>s. P s \<Longrightarrow> P' s) \<Longrightarrow> (\<And>a s. Q' a s \<Longrightarrow> Q a s) \<Longrightarrow> triple P m Q"
  by (simp add: triple_def)

subsection \<open>Frame judgement\<close>

text \<open>
  \<open>keeps R m\<close>: every run of \<open>m\<close> relates its initial and final state by \<open>R\<close>. With \<open>R\<close>
  reflexive and transitive the judgement composes along the program text.
\<close>

definition keeps :: "('s \<Rightarrow> 's \<Rightarrow> bool) \<Rightarrow> ('s, 'a) prog \<Rightarrow> bool" where
  "keeps R m \<longleftrightarrow> (\<forall>s. R s (final_of m s))"

lemma keepsD: "keeps R m \<Longrightarrow> R s (final_of m s)"
  by (simp add: keeps_def)

lemma keeps_mono: "keeps R m \<Longrightarrow> (\<And>s t. R s t \<Longrightarrow> R' s t) \<Longrightarrow> keeps R' m"
  by (simp add: keeps_def)

locale frame =
  fixes R :: "'s \<Rightarrow> 's \<Rightarrow> bool"
  assumes refl: "R s s"
    and trans: "R s t \<Longrightarrow> R t u \<Longrightarrow> R s u"
begin

lemma return: "keeps R (State_Monad.return a)"
  by (simp add: keeps_def refl)

lemma get: "keeps R State_Monad.get"
  by (simp add: keeps_def refl)

lemma bind: "keeps R m \<Longrightarrow> (\<And>a. keeps R (f a)) \<Longrightarrow> keeps R (State_Monad.bind m f)"
  by (auto simp: keeps_def intro: trans)

text \<open>The same with the value known to be a result of the first program.\<close>

lemma bind_result:
  "keeps R m \<Longrightarrow> (\<And>s. keeps R (f (result_of m s))) \<Longrightarrow> keeps R (State_Monad.bind m f)"
  unfolding keeps_def final_of_bind by (blast intro: trans)

lemma cond: "(b \<Longrightarrow> keeps R m) \<Longrightarrow> (\<not> b \<Longrightarrow> keeps R n) \<Longrightarrow> keeps R (if b then m else n)"
  by simp

lemma case_sum:
  "(\<And>e. x = Inl e \<Longrightarrow> keeps R (f e)) \<Longrightarrow> (\<And>a. x = Inr a \<Longrightarrow> keeps R (g a)) \<Longrightarrow>
   keeps R (case x of Inl e \<Rightarrow> f e | Inr a \<Rightarrow> g a)"
  by (cases x) auto

lemma case_option:
  "(x = None \<Longrightarrow> keeps R m) \<Longrightarrow> (\<And>a. x = Some a \<Longrightarrow> keeps R (g a)) \<Longrightarrow>
   keeps R (case x of None \<Rightarrow> m | Some a \<Rightarrow> g a)"
  by (cases x) auto

lemma case_prod:
  "(\<And>a b. x = (a, b) \<Longrightarrow> keeps R (f a b)) \<Longrightarrow> keeps R (case x of (a, b) \<Rightarrow> f a b)"
  by (cases x) auto

lemma each: "(\<And>x. x \<in> set xs \<Longrightarrow> keeps R (f x)) \<Longrightarrow> keeps R (each f xs)"
  by (induction xs) (auto intro!: return bind)

text \<open>The same for one run, from a state of which more is known.\<close>

lemma bind_at:
  "R s (final_of m s) \<Longrightarrow> R (final_of m s) (final_of (f (result_of m s)) (final_of m s)) \<Longrightarrow>
   R s (final_of (State_Monad.bind m f) s)"
  by (simp add: trans)

lemma case_sum_at:
  "(\<And>e. x = Inl e \<Longrightarrow> R s (final_of (f e) s)) \<Longrightarrow> (\<And>a. x = Inr a \<Longrightarrow> R s (final_of (g a) s)) \<Longrightarrow>
   R s (final_of (case x of Inl e \<Rightarrow> f e | Inr a \<Rightarrow> g a) s)"
  by (cases x) simp_all

lemma case_option_at:
  "(x = None \<Longrightarrow> R s (final_of m s)) \<Longrightarrow> (\<And>a. x = Some a \<Longrightarrow> R s (final_of (g a) s)) \<Longrightarrow>
   R s (final_of (case x of None \<Rightarrow> m | Some a \<Rightarrow> g a) s)"
  by (cases x) simp_all

lemma case_prod_at:
  "(\<And>a b. x = (a, b) \<Longrightarrow> R s (final_of (f a b) s)) \<Longrightarrow> R s (final_of (case x of (a, b) \<Rightarrow> f a b) s)"
  by (cases x) simp

lemmas rules = return get bind cond case_sum case_option case_prod each

end

end
