(* ===== verification/K8s.thy ===== *)
theory K8s
  imports Prelude
begin

text \<open>
  The Kubernetes API objects, cut down to the fields the controllers read or write. A nil map and
  an empty map are the same value here, because the code only reads maps with Go's indexing and
  allocates a nil map before it writes to one. Pointers to optional fields are options. An
  assoc list stands for a Go map that the code iterates over, in an order Go does not fix.
\<close>

section \<open>Errors of the API server\<close>

text \<open>The status reasons that \<open>k8s.io/apimachinery/pkg/api/errors\<close> tells apart in this program.\<close>

datatype err_kind = NotFound | AlreadyExists | Conflict | TooManyRequests | OtherErr

datatype err = Err (ekind: err_kind) (emsg: string)

text \<open>\<open>fmt.Errorf("...: %w", err)\<close>: the message gets a prefix, the wrapped status stays visible to
  \<open>apierrors.IsX\<close>.\<close>

definition wrap :: "string \<Rightarrow> err \<Rightarrow> err" where
  "wrap p e = Err (ekind e) (p @ '': '' @ emsg e)"

lemma ekind_wrap [simp]: "ekind (wrap p e) = ekind e"
  by (simp add: wrap_def)

section \<open>Selectors\<close>

datatype lsel_op = SelIn | SelNotIn | SelExists | SelDoesNotExist

text \<open>\<open>metav1.LabelSelectorRequirement\<close> and \<open>corev1.NodeSelectorRequirement\<close>. The operator of a
  label selector is a free string in Go; \<open>None\<close> stands for one that is none of the four.\<close>

record requirement =
  rq_key :: string
  rq_op :: "lsel_op option"
  rq_values :: "string list"

record label_selector =
  match_labels :: "(string \<times> string) list"
  match_exprs :: "requirement list"

definition empty_selector :: label_selector where
  "empty_selector = \<lparr>match_labels = [], match_exprs = []\<rparr>"

section \<open>Conditions\<close>

datatype cond_status = ConditionTrue | ConditionFalse | ConditionUnknown

text \<open>\<open>metav1.Condition\<close>.\<close>

record mcond =
  mc_type :: string
  mc_status :: cond_status
  mc_reason :: string
  mc_message :: string
  mc_gen :: int64
  mc_time :: instant

section \<open>Pods\<close>

record owner_ref =
  or_api :: string
  or_kind :: string
  or_name :: string
  or_uid :: string
  or_controller :: bool
  or_block :: bool

record env_var =
  ev_name :: string
  ev_value :: string
  ev_field :: "string option"

record vol_mount =
  vm_name :: string
  vm_path :: string
  vm_ro :: bool

record probe =
  pr_exec :: "string list"
  pr_initial_delay :: nat
  pr_period :: nat
  pr_failure :: nat
  pr_success :: nat
  pr_timeout :: nat

record container =
  ct_name :: string
  ct_image :: string
  ct_pull :: string
  ct_command :: "string list"
  ct_env :: "env_var list"
  ct_mounts :: "vol_mount list"
  ct_privileged :: bool
  ct_caps :: "string list"
  ct_readiness :: "probe option"

text \<open>A volume: its hostPath source (path, and the type when set), and whether it is an emptyDir.\<close>

record volume =
  vl_name :: string
  vl_hostpath :: "(string \<times> string option) option"
  vl_emptydir :: bool

record pod_spec =
  ps_restart :: string
  ps_hostnet :: bool
  ps_hostpid :: bool
  ps_node :: string
  ps_sa :: string
  ps_tolerations :: "string list"
  ps_affinity :: "requirement list list"
  ps_priority :: string
  ps_init :: "container list"
  ps_containers :: "container list"
  ps_volumes :: "volume list"

text \<open>Go's zero values, from which struct literals start.\<close>

definition zero_container :: container where
  "zero_container = \<lparr>ct_name = [], ct_image = [], ct_pull = [], ct_command = [], ct_env = [],
     ct_mounts = [], ct_privileged = False, ct_caps = [], ct_readiness = None\<rparr>"

definition zero_pod_spec :: pod_spec where
  "zero_pod_spec = \<lparr>ps_restart = [], ps_hostnet = False, ps_hostpid = False, ps_node = [],
     ps_sa = [], ps_tolerations = [], ps_affinity = [], ps_priority = [], ps_init = [],
     ps_containers = [], ps_volumes = []\<rparr>"

definition env_lit :: "string \<Rightarrow> string \<Rightarrow> env_var" where
  "env_lit n v = \<lparr>ev_name = n, ev_value = v, ev_field = None\<rparr>"

definition mount :: "string \<Rightarrow> string \<Rightarrow> bool \<Rightarrow> vol_mount" where
  "mount n p ro = \<lparr>vm_name = n, vm_path = p, vm_ro = ro\<rparr>"

definition host_volume :: "string \<Rightarrow> string \<Rightarrow> string option \<Rightarrow> volume" where
  "host_volume n p t = \<lparr>vl_name = n, vl_hostpath = Some (p, t), vl_emptydir = False\<rparr>"

definition empty_volume :: "string \<Rightarrow> volume" where
  "empty_volume n = \<lparr>vl_name = n, vl_hostpath = None, vl_emptydir = True\<rparr>"

datatype pod_phase = PodPending | PodRunning | PodSucceeded | PodFailed | PodUnknown

text \<open>One container status: the kubelet's \<open>State.Waiting.Reason\<close> when the container waits, and the
  restart count.\<close>

record container_status =
  cs_waiting :: "string option"
  cs_restarts :: int32

record pod =
  pd_name :: string
  pd_ns :: string
  pd_labels :: labels
  pd_owners :: "owner_ref list"
  pd_spec :: pod_spec
  pd_phase :: pod_phase
  pd_conds :: "(string \<times> cond_status) list"
  pd_cstat :: "container_status list"
  pd_istat :: "container_status list"

section \<open>Nodes\<close>

record node =
  nd_name :: string
  nd_labels :: labels
  nd_annos :: labels
  nd_unsched :: bool

section \<open>Jobs\<close>

datatype job_cond_type = JobComplete | JobSuccessCriteriaMet | JobFailed | JobCondOther string

record job_cond =
  jc_type :: job_cond_type
  jc_status :: cond_status
  jc_time :: instant

record job_status =
  js_conds :: "job_cond list"
  js_start :: "instant option"
  js_completion :: "instant option"

record job_spec =
  jsp_backoff :: "int32 option"
  jsp_deadline :: "int64 option"
  jsp_ttl :: "int32 option"
  jsp_labels :: labels
  jsp_pod :: pod_spec

record job =
  jb_name :: string
  jb_ns :: string
  jb_labels :: labels
  jb_owners :: "owner_ref list"
  jb_spec :: job_spec
  jb_status :: job_status

definition zero_job_status :: job_status where
  "zero_job_status = \<lparr>js_conds = [], js_start = None, js_completion = None\<rparr>"

section \<open>DaemonSets\<close>

record update_strategy =
  us_type :: string
  us_max_unavailable :: string

record ds_spec =
  dsp_strategy :: update_strategy
  dsp_selector :: labels
  dsp_labels :: labels
  dsp_pod :: pod_spec

record ds_status =
  dss_desired :: int32
  dss_ready :: int32
  dss_available :: int32

record daemonset =
  dm_name :: string
  dm_ns :: string
  dm_labels :: labels
  dm_annos :: labels
  dm_owners :: "owner_ref list"
  dm_spec :: ds_spec
  dm_status :: ds_status

end
