(* ===== verification/FirmwareApi.thy ===== *)
theory FirmwareApi
  imports K8s
begin

text \<open>
  \<open>api/firmware/v1alpha1/types.go\<close>: the \<open>TenstorrentFirmwarePolicy\<close> custom resource. An optional
  Go pointer is an option; \<open>NodeState\<close> is the enumeration its CRD validation allows.
\<close>

section \<open>Spec\<close>

record fw_drain =
  fd_enable :: "bool option"
  fd_force :: bool
  fd_delete_empty_dir :: "bool option"
  fd_timeout :: int32

record fw_upgrade =
  fu_auto :: "bool option"
  fu_max_parallel :: int32
  fu_flash_timeout :: int32
  fu_drain :: fw_drain
  fu_halt :: "bool option"

record flasher_override =
  fo_image :: string
  fo_pull :: string
  fo_force_write :: bool
  fo_continue :: bool
  fo_homogenize :: bool

record fw_spec =
  fs_version :: string
  fs_readback :: string
  fs_bundle_url :: string
  fs_affinity :: "label_selector option"
  fs_selector :: "label_selector option"
  fs_paused :: bool
  fs_upgrade :: fw_upgrade
  fs_flasher :: "flasher_override option"

section \<open>Status\<close>

datatype node_state = NodeStatePending | NodeStateCordoning | NodeStateDraining
  | NodeStateFlashing | NodeStateUncordoning | NodeStateDone | NodeStateFailed

fun node_state_str :: "node_state \<Rightarrow> string" where
  "node_state_str NodeStatePending = ''Pending''"
| "node_state_str NodeStateCordoning = ''Cordoning''"
| "node_state_str NodeStateDraining = ''Draining''"
| "node_state_str NodeStateFlashing = ''Flashing''"
| "node_state_str NodeStateUncordoning = ''Uncordoning''"
| "node_state_str NodeStateDone = ''Done''"
| "node_state_str NodeStateFailed = ''Failed''"

lemma node_state_str_inject [simp]: "node_state_str a = node_state_str b \<longleftrightarrow> a = b"
  by (cases a; cases b) simp_all

record node_status =
  ns_name :: string
  ns_state :: node_state
  ns_reason :: string
  ns_current :: string
  ns_job :: string
  ns_msg :: string
  ns_time :: instant

record fw_summary =
  sm_matched :: int32
  sm_uptodate :: int32
  sm_inprogress :: int32
  sm_failed :: int32
  sm_pending :: int32

record fw_status =
  ft_observed :: int64
  ft_desired :: string
  ft_conds :: "mcond list"
  ft_summary :: fw_summary
  ft_nodes :: "node_status list"

text \<open>The object: its metadata as far as the controller reads it, spec and status.\<close>

record fw_policy =
  fp_name :: string
  fp_uid :: string
  fp_generation :: int64
  fp_deleted :: "instant option"
  fp_spec :: fw_spec
  fp_status :: fw_status

section \<open>Selector\<close>

definition EffectiveNodeAffinity :: "fw_spec \<Rightarrow> label_selector" where
  "EffectiveNodeAffinity s =
     (case fs_affinity s of
        Some sel \<Rightarrow> sel
      | None \<Rightarrow> (case fs_selector s of Some sel \<Rightarrow> sel | None \<Rightarrow> empty_selector))"

end
