(* ===== verification/DriverApi.thy ===== *)
theory DriverApi
  imports K8s
begin

text \<open>
  \<open>api/driver/v1alpha1/types.go\<close>: the \<open>TenstorrentDriverPolicy\<close> custom resource.
\<close>

section \<open>Spec\<close>

record drv_drain =
  dd_enable :: "bool option"
  dd_full_node :: "bool option"
  dd_pod_selector :: string
  dd_force :: bool
  dd_delete_empty_dir :: "bool option"
  dd_timeout :: int32

record drv_upgrade =
  du_drain :: drv_drain
  du_force_unload :: bool

record installer_override =
  io_image :: string
  io_pull :: string

record drv_spec =
  dv_version :: string
  dv_affinity :: "label_selector option"
  dv_selector :: "label_selector option"
  dv_paused :: bool
  dv_upgrade :: drv_upgrade
  dv_installer :: "installer_override option"

section \<open>Status\<close>

datatype drv_state = DrvPending | DrvCordoning | DrvDraining | DrvUpgrading | DrvUncordoning
  | DrvDone | DrvFailed | DrvHostManaged

fun drv_state_str :: "drv_state \<Rightarrow> string" where
  "drv_state_str DrvPending = ''Pending''"
| "drv_state_str DrvCordoning = ''Cordoning''"
| "drv_state_str DrvDraining = ''Draining''"
| "drv_state_str DrvUpgrading = ''Upgrading''"
| "drv_state_str DrvUncordoning = ''Uncordoning''"
| "drv_state_str DrvDone = ''Done''"
| "drv_state_str DrvFailed = ''Failed''"
| "drv_state_str DrvHostManaged = ''HostManaged''"

lemma drv_state_str_inject [simp]: "drv_state_str a = drv_state_str b \<longleftrightarrow> a = b"
  by (cases a; cases b) simp_all

record drv_node_status =
  dn_name :: string
  dn_state :: drv_state
  dn_reason :: string
  dn_current :: string
  dn_msg :: string
  dn_time :: instant

record drv_summary =
  dsm_matched :: int32
  dsm_desired :: int32
  dsm_ready :: int32
  dsm_available :: int32
  dsm_failed :: int32
  dsm_uptodate :: int32
  dsm_inprogress :: int32

record drv_status =
  dst_observed :: int64
  dst_desired :: string
  dst_conds :: "mcond list"
  dst_summary :: drv_summary
  dst_daemonset :: string
  dst_nodes :: "drv_node_status list"

record drv_policy =
  dp_name :: string
  dp_uid :: string
  dp_generation :: int64
  dp_deleted :: "instant option"
  dp_spec :: drv_spec
  dp_status :: drv_status

section \<open>Selector\<close>

definition DriverEffectiveNodeAffinity :: "drv_spec \<Rightarrow> label_selector" where
  "DriverEffectiveNodeAffinity s =
     (case dv_affinity s of
        Some sel \<Rightarrow> sel
      | None \<Rightarrow> (case dv_selector s of Some sel \<Rightarrow> sel | None \<Rightarrow> empty_selector))"

end
