(* ===== verification/Runtime.thy ===== *)
theory Runtime
  imports FirmwareApi DriverApi
begin

text \<open>
  The boundary between the controllers and everything that is not in the repository. The API
  server, the clock, the process environment and the \<open>apimachinery\<close> helpers are one parameter, a
  \<open>platform\<close>; the model never says what it answers. Each answer is a function of the whole history
  of interactions so far, so any behaviour of a server that other clients change concurrently is
  some platform. What the controllers do is the history of their requests (with the outcome of
  every write), the metric operations and the events they emit.
\<close>

section \<open>Interactions\<close>

text \<open>One constructor per kind of interaction of the Go code with \<open>client.Client\<close>, and one for
  reading the clock. A write carries the error it came back with, if any.\<close>

datatype call =
    CNow
  | CGetFw string | CGetDrv string | CGetNode string | CGetJob string string
  | CGetDS string string
  | CListNodes | CListPods "string option" "(string \<times> string) list"
  | CListJobs string "(string \<times> string) list" | CListFw | CListDrv
  | CCreateJob job "err option"
  | CCreateDS daemonset "err option"
  | CUpdateDS daemonset "err option"
  | CPatchNode node node "err option"
  | CEvict string string "err option"
  | CUpdateFwStatus fw_policy "err option"
  | CUpdateDrvStatus drv_policy "err option"

text \<open>The metric vectors of \<open>internal/metrics/metrics.go\<close> and the operations the code applies to
  them: \<open>WithLabelValues(..).Set\<close>, \<open>.Inc\<close>, \<open>.Observe\<close> (a duration in nanoseconds),
  \<open>DeletePartialMatch\<close> on the label \<open>cr\<close>, and \<open>Reset\<close>.\<close>

datatype family =
    DriverNodesByKMDVersion | DriverPolicyNodes | DriverPolicyDesiredVersion
  | DriverDaemonSetOperations | DriverPodsEvictedTotal | DriverDrainBlockedTotal
  | DriverErrorsTotal | DriverLastReconcileTimestamp
  | FirmwareFlashDuration | FirmwareFlashJobsTotal | FirmwareFlashJobsCreatedTotal
  | FirmwareFlashJobsInFlight | FirmwareDrainBlockedTotal | FirmwarePodsEvictedTotal
  | FirmwareNodesByFWVersion | FirmwarePolicyNodes | FirmwarePolicyDesiredVersion
  | FirmwareErrorsTotal | FirmwareLastReconcileTimestamp

datatype mop =
    MSet family "string list" int
  | MInc family "string list"
  | MObserve family "string list" duration
  | MDelete family string
  | MReset family

text \<open>A Kubernetes event: the CR it is about, its type, reason and message.\<close>

datatype event_type = EventTypeNormal | EventTypeWarning

datatype event = Event (ev_cr: string) (ev_type: event_type) (ev_reason: string) (ev_body: string)

section \<open>The platform\<close>

text \<open>\<open>LabelSelectorAsSelector\<close>, \<open>labels.Parse\<close>, \<open>meta.SetStatusCondition\<close> and the JSON encoding
  of the two DaemonSet fields that are hashed.\<close>

record machinery =
  lib_selector :: "label_selector \<Rightarrow> err + (labels \<Rightarrow> bool)"
  lib_parse :: "string \<Rightarrow> err + (labels \<Rightarrow> bool)"
  lib_set_condition :: "mcond list \<Rightarrow> mcond \<Rightarrow> mcond list"
  lib_ds_json :: "pod_spec \<Rightarrow> update_strategy \<Rightarrow> string"

record reads =
  srv_get_fw :: "call list \<Rightarrow> string \<Rightarrow> err + fw_policy"
  srv_get_drv :: "call list \<Rightarrow> string \<Rightarrow> err + drv_policy"
  srv_get_node :: "call list \<Rightarrow> string \<Rightarrow> err + node"
  srv_get_job :: "call list \<Rightarrow> string \<Rightarrow> string \<Rightarrow> err + job"
  srv_get_ds :: "call list \<Rightarrow> string \<Rightarrow> string \<Rightarrow> err + daemonset"
  srv_list_nodes :: "call list \<Rightarrow> err + node list"
  srv_list_pods :: "call list \<Rightarrow> string option \<Rightarrow> (string \<times> string) list \<Rightarrow> err + pod list"
  srv_list_jobs :: "call list \<Rightarrow> string \<Rightarrow> (string \<times> string) list \<Rightarrow> err + job list"
  srv_list_fw :: "call list \<Rightarrow> err + fw_policy list"
  srv_list_drv :: "call list \<Rightarrow> err + drv_policy list"

record writes =
  srv_create_job :: "call list \<Rightarrow> job \<Rightarrow> err + job"
  srv_create_ds :: "call list \<Rightarrow> daemonset \<Rightarrow> err + daemonset"
  srv_update_ds :: "call list \<Rightarrow> daemonset \<Rightarrow> err + daemonset"
  srv_patch_node :: "call list \<Rightarrow> node \<Rightarrow> node \<Rightarrow> err + node"
  srv_evict :: "call list \<Rightarrow> string \<Rightarrow> string \<Rightarrow> err + unit"
  srv_update_fw :: "call list \<Rightarrow> fw_policy \<Rightarrow> err + fw_policy"
  srv_update_drv :: "call list \<Rightarrow> drv_policy \<Rightarrow> err + drv_policy"

record platform =
  pf_env :: "string \<Rightarrow> string option"
  pf_recorder :: bool
  pf_now :: "call list \<Rightarrow> instant"
  pf_lib :: machinery
  pf_reads :: reads
  pf_writes :: writes

section \<open>The controller's state\<close>

text \<open>\<open>seen\<close> is the only state the program keeps between reconciles (\<open>EventDedup\<close>); the other
  three are what it has done so far.\<close>

record sys =
  hist :: "call list"
  mops :: "mop list"
  evts :: "event list"
  seen :: "string \<rightharpoonup> string set"

definition init_sys :: sys where
  "init_sys = \<lparr>hist = [], mops = [], evts = [], seen = Map.empty\<rparr>"

type_synonym 'a io = "(sys, 'a) state"

text \<open>One interaction: the answer is computed from the history, then the history grows.\<close>

definition interact :: "(call list \<Rightarrow> 'a) \<Rightarrow> ('a \<Rightarrow> call) \<Rightarrow> 'a io" where
  "interact f mk = do {
     s \<leftarrow> State_Monad.get;
     let r = f (hist s);
     State_Monad.set (s\<lparr>hist := hist s @ [mk r]\<rparr>);
     State_Monad.return r
   }"

definition err_of :: "err + 'a \<Rightarrow> err option" where
  "err_of r = (case r of Inl e \<Rightarrow> Some e | Inr _ \<Rightarrow> None)"

lemma err_of_simps [simp]: "err_of (Inl e) = Some e" "err_of (Inr a) = None"
  by (simp_all add: err_of_def)

lemma result_interact [simp]: "result_of (interact f mk) s = f (hist s)"
  by (simp add: interact_def Let_def)

lemma final_interact [simp]:
  "final_of (interact f mk) s = s\<lparr>hist := hist s @ [mk (f (hist s))]\<rparr>"
  by (simp add: interact_def Let_def)

definition now :: "platform \<Rightarrow> instant io" where
  "now p = interact (pf_now p) (\<lambda>_. CNow)"

definition get_fw :: "platform \<Rightarrow> string \<Rightarrow> (err + fw_policy) io" where
  "get_fw p n = interact (\<lambda>h. srv_get_fw (pf_reads p) h n) (\<lambda>_. CGetFw n)"

definition get_drv :: "platform \<Rightarrow> string \<Rightarrow> (err + drv_policy) io" where
  "get_drv p n = interact (\<lambda>h. srv_get_drv (pf_reads p) h n) (\<lambda>_. CGetDrv n)"

definition get_node :: "platform \<Rightarrow> string \<Rightarrow> (err + node) io" where
  "get_node p n = interact (\<lambda>h. srv_get_node (pf_reads p) h n) (\<lambda>_. CGetNode n)"

definition get_job :: "platform \<Rightarrow> string \<Rightarrow> string \<Rightarrow> (err + job) io" where
  "get_job p ns n = interact (\<lambda>h. srv_get_job (pf_reads p) h ns n) (\<lambda>_. CGetJob ns n)"

definition get_ds :: "platform \<Rightarrow> string \<Rightarrow> string \<Rightarrow> (err + daemonset) io" where
  "get_ds p ns n = interact (\<lambda>h. srv_get_ds (pf_reads p) h ns n) (\<lambda>_. CGetDS ns n)"

definition list_nodes :: "platform \<Rightarrow> (err + node list) io" where
  "list_nodes p = interact (srv_list_nodes (pf_reads p)) (\<lambda>_. CListNodes)"

definition list_pods ::
  "platform \<Rightarrow> string option \<Rightarrow> (string \<times> string) list \<Rightarrow> (err + pod list) io" where
  "list_pods p ns sel =
     interact (\<lambda>h. srv_list_pods (pf_reads p) h ns sel) (\<lambda>_. CListPods ns sel)"

definition list_jobs ::
  "platform \<Rightarrow> string \<Rightarrow> (string \<times> string) list \<Rightarrow> (err + job list) io" where
  "list_jobs p ns sel =
     interact (\<lambda>h. srv_list_jobs (pf_reads p) h ns sel) (\<lambda>_. CListJobs ns sel)"

definition list_fw :: "platform \<Rightarrow> (err + fw_policy list) io" where
  "list_fw p = interact (srv_list_fw (pf_reads p)) (\<lambda>_. CListFw)"

definition list_drv :: "platform \<Rightarrow> (err + drv_policy list) io" where
  "list_drv p = interact (srv_list_drv (pf_reads p)) (\<lambda>_. CListDrv)"

definition create_job :: "platform \<Rightarrow> job \<Rightarrow> (err + job) io" where
  "create_job p j =
     interact (\<lambda>h. srv_create_job (pf_writes p) h j) (\<lambda>r. CCreateJob j (err_of r))"

definition create_ds :: "platform \<Rightarrow> daemonset \<Rightarrow> (err + daemonset) io" where
  "create_ds p d =
     interact (\<lambda>h. srv_create_ds (pf_writes p) h d) (\<lambda>r. CCreateDS d (err_of r))"

definition update_ds :: "platform \<Rightarrow> daemonset \<Rightarrow> (err + daemonset) io" where
  "update_ds p d =
     interact (\<lambda>h. srv_update_ds (pf_writes p) h d) (\<lambda>r. CUpdateDS d (err_of r))"

definition evict :: "platform \<Rightarrow> string \<Rightarrow> string \<Rightarrow> (err + unit) io" where
  "evict p ns n = interact (\<lambda>h. srv_evict (pf_writes p) h ns n) (\<lambda>r. CEvict ns n (err_of r))"

definition update_fw_status :: "platform \<Rightarrow> fw_policy \<Rightarrow> (err + fw_policy) io" where
  "update_fw_status p cr =
     interact (\<lambda>h. srv_update_fw (pf_writes p) h cr) (\<lambda>r. CUpdateFwStatus cr (err_of r))"

definition update_drv_status :: "platform \<Rightarrow> drv_policy \<Rightarrow> (err + drv_policy) io" where
  "update_drv_status p cr =
     interact (\<lambda>h. srv_update_drv (pf_writes p) h cr) (\<lambda>r. CUpdateDrvStatus cr (err_of r))"

text \<open>\<open>c.Patch(ctx, node, patch)\<close> updates the caller's object: with the server's answer when it
  succeeds, while on an error the caller keeps its locally modified object. The result is the
  error, if any, and the caller's object after the call.\<close>

definition patch_node :: "platform \<Rightarrow> node \<Rightarrow> node \<Rightarrow> (err option \<times> node) io" where
  "patch_node p base new = do {
     r \<leftarrow> interact (\<lambda>h. srv_patch_node (pf_writes p) h base new)
            (\<lambda>r. CPatchNode base new (err_of r));
     State_Monad.return (case r of Inl e \<Rightarrow> (Some e, new) | Inr n \<Rightarrow> (None, n))
   }"

definition metric :: "mop \<Rightarrow> unit io" where
  "metric m = do { s \<leftarrow> State_Monad.get; State_Monad.set (s\<lparr>mops := mops s @ [m]\<rparr>) }"

definition emit_event :: "event \<Rightarrow> unit io" where
  "emit_event e = do { s \<leftarrow> State_Monad.get; State_Monad.set (s\<lparr>evts := evts s @ [e]\<rparr>) }"

lemma final_metric [simp]: "final_of (metric m) s = s\<lparr>mops := mops s @ [m]\<rparr>"
  by (simp add: metric_def)

lemma final_emit_event [simp]: "final_of (emit_event e) s = s\<lparr>evts := evts s @ [e]\<rparr>"
  by (simp add: emit_event_def)

section \<open>The result of a reconcile\<close>

text \<open>\<open>ctrl.Result\<close>.\<close>

record rresult =
  rr_requeue :: bool
  rr_after :: duration

definition no_requeue :: rresult where
  "no_requeue = \<lparr>rr_requeue = False, rr_after = 0\<rparr>"

section \<open>Environment variables\<close>

definition os_getenv :: "platform \<Rightarrow> string \<Rightarrow> string" where
  "os_getenv p k = (case pf_env p k of None \<Rightarrow> [] | Some v \<Rightarrow> v)"

section \<open>What a program does to the outside\<close>

text \<open>\<open>issued P\<close>: between the two states the program made only calls that satisfy \<open>P\<close>.\<close>

definition issued :: "(call \<Rightarrow> bool) \<Rightarrow> sys \<Rightarrow> sys \<Rightarrow> bool" where
  "issued P s t \<longleftrightarrow> (\<exists>cs. hist t = hist s @ cs \<and> list_all P cs)"

lemma issued_refl: "issued P s s"
  by (simp add: issued_def)

lemma issued_trans: "issued P s t \<Longrightarrow> issued P t u \<Longrightarrow> issued P s u"
  unfolding issued_def by (metis append.assoc list_all_append)

interpretation issue: frame "issued P" for P
  by unfold_locales (auto intro: issued_refl issued_trans)

text \<open>\<open>issues P m\<close>: on every platform answer and from every state, \<open>m\<close> only makes calls in \<open>P\<close>.\<close>

abbreviation issues :: "(call \<Rightarrow> bool) \<Rightarrow> 'a io \<Rightarrow> bool" where
  "issues P m \<equiv> keeps (issued P) m"

lemma issuesD: "issues P m \<Longrightarrow> \<exists>cs. hist (final_of m s) = hist s @ cs \<and> list_all P cs"
  by (auto simp: keeps_def issued_def)

lemma issued_mono: "issued P s t \<Longrightarrow> (\<And>c. P c \<Longrightarrow> Q c) \<Longrightarrow> issued Q s t"
  unfolding issued_def by (metis list.pred_mono_strong)

lemma issues_mono: "issues P m \<Longrightarrow> (\<And>c. P c \<Longrightarrow> Q c) \<Longrightarrow> issues Q m"
  unfolding keeps_def by (blast intro: issued_mono)

lemma issues_interact: "(\<And>h. P (mk (f h))) \<Longrightarrow> issues P (interact f mk)"
  by (simp add: keeps_def issued_def)

lemma issues_metric [frame_rules]: "issues P (metric m)"
  by (simp add: keeps_def issued_def)

lemma issues_emit_event [frame_rules]: "issues P (emit_event e)"
  by (simp add: keeps_def issued_def)

text \<open>The calls each primitive can make.\<close>

lemma issues_now [frame_rules]: "P CNow \<Longrightarrow> issues P (now p)"
  by (simp add: now_def issues_interact)

lemma issues_reads [frame_rules]:
  "P (CGetFw n) \<Longrightarrow> issues P (get_fw p n)"
  "P (CGetDrv n) \<Longrightarrow> issues P (get_drv p n)"
  "P (CGetNode n) \<Longrightarrow> issues P (get_node p n)"
  "P (CGetJob ns n) \<Longrightarrow> issues P (get_job p ns n)"
  "P (CGetDS ns n) \<Longrightarrow> issues P (get_ds p ns n)"
  "P CListNodes \<Longrightarrow> issues P (list_nodes p)"
  "P (CListPods nso sel) \<Longrightarrow> issues P (list_pods p nso sel)"
  "P (CListJobs ns sel) \<Longrightarrow> issues P (list_jobs p ns sel)"
  "P CListFw \<Longrightarrow> issues P (list_fw p)"
  "P CListDrv \<Longrightarrow> issues P (list_drv p)"
  by (simp_all add: get_fw_def get_drv_def get_node_def get_job_def get_ds_def list_nodes_def
        list_pods_def list_jobs_def list_fw_def list_drv_def issues_interact)

lemma issues_writes [frame_rules]:
  "(\<And>e. P (CCreateJob j e)) \<Longrightarrow> issues P (create_job p j)"
  "(\<And>e. P (CCreateDS d e)) \<Longrightarrow> issues P (create_ds p d)"
  "(\<And>e. P (CUpdateDS d e)) \<Longrightarrow> issues P (update_ds p d)"
  "(\<And>e. P (CEvict ns n e)) \<Longrightarrow> issues P (evict p ns n)"
  "(\<And>e. P (CUpdateFwStatus fcr e)) \<Longrightarrow> issues P (update_fw_status p fcr)"
  "(\<And>e. P (CUpdateDrvStatus dcr e)) \<Longrightarrow> issues P (update_drv_status p dcr)"
  by (simp_all add: create_job_def create_ds_def update_ds_def evict_def update_fw_status_def
        update_drv_status_def issues_interact)

lemma issues_patch_node [frame_rules]:
  "(\<And>e. P (CPatchNode base new e)) \<Longrightarrow> issues P (patch_node p base new)"
  unfolding patch_node_def by (intro issue.rules issues_interact)

lemmas [frame_rules] = issue.rules

text \<open>The same with the history before each call: \<open>issued_at J s t\<close> holds when every call made between the
  two states satisfies \<open>J\<close> together with all that was called before it.\<close>

definition issued_at :: "(call list \<Rightarrow> call \<Rightarrow> bool) \<Rightarrow> sys \<Rightarrow> sys \<Rightarrow> bool" where
  "issued_at J s t \<longleftrightarrow> (\<exists>cs. hist t = hist s @ cs \<and> (\<forall>h1 x h2. cs = h1 @ x # h2 \<longrightarrow> J (hist s @ h1) x))"

lemma issued_at_trans:
  assumes "issued_at J s t" "issued_at J t u"
  shows "issued_at J s u"
proof -
  obtain cs ds where cs: "hist t = hist s @ cs" "\<And>h1 x h2. cs = h1 @ x # h2 \<Longrightarrow> J (hist s @ h1) x"
    and ds: "hist u = hist t @ ds" "\<And>h1 x h2. ds = h1 @ x # h2 \<Longrightarrow> J (hist t @ h1) x"
    using assms unfolding issued_at_def by blast
  have "J (hist s @ h1) x" if split: "cs @ ds = h1 @ x # h2" for h1 x h2
  proof -
    consider us where "cs = h1 @ us" "us @ ds = x # h2" | us where "h1 = cs @ us" "ds = us @ x # h2"
      using split by (auto simp: append_eq_append_conv2)
    then show ?thesis
    proof cases
      case 1
      then show ?thesis using cs ds(2) [of "[]" x h2] by (cases us) auto
    next
      case 2
      then show ?thesis using cs(1) ds(2) [of us x h2] by simp
    qed
  qed
  then show ?thesis unfolding issued_at_def using cs(1) ds(1) by (intro exI [of _ "cs @ ds"]) simp
qed

interpretation issue_at: frame "issued_at J" for J
proof
  show "issued_at J s s" for s by (simp add: issued_at_def)
qed (rule issued_at_trans)

lemma issued_at_of: "issued P s t \<Longrightarrow> (\<And>h x. P x \<Longrightarrow> J h x) \<Longrightarrow> issued_at J s t"
  unfolding issued_def issued_at_def by fastforce

lemma issues_at_of: "issues P m \<Longrightarrow> (\<And>h x. P x \<Longrightarrow> J h x) \<Longrightarrow> keeps (issued_at J) m"
  by (auto simp: keeps_def intro: issued_at_of)

lemma issued_atD: "issued_at J s t \<Longrightarrow> hist t = hist s @ h1 @ x # h2 \<Longrightarrow> J (hist s @ h1) x"
  by (auto simp: issued_at_def)

text \<open>The calls that change nothing on the server.\<close>

fun read_call :: "call \<Rightarrow> bool" where
  "read_call (CCreateJob j e) = False"
| "read_call (CCreateDS d e) = False"
| "read_call (CUpdateDS d e) = False"
| "read_call (CPatchNode b n e) = False"
| "read_call (CEvict ns n e) = False"
| "read_call (CUpdateFwStatus c e) = False"
| "read_call (CUpdateDrvStatus d e) = False"
| "read_call _ = True"

end
