(* ===== verification/Labels.thy ===== *)
theory Labels
  imports Runtime
begin

text \<open>
  \<open>internal/controller/labels.go\<close>: the label and annotation keys, the fixed messages and the reason
  codes; \<open>internal/controller/env.go\<close>: the settings read from environment variables.
\<close>

section \<open>Label and annotation keys, fixed messages\<close>

definition LabelTenstorrentPresent :: string where [const_defs]:
  "LabelTenstorrentPresent = ''feature.node.kubernetes.io/pci-1200_1e52.present''"

definition LabelKMDVersion :: string where [const_defs]:
  "LabelKMDVersion = ''driver.tenstorrent.com/kmd-version''"

definition LabelDriverSkip :: string where [const_defs]:
  "LabelDriverSkip = ''driver.tenstorrent.com/skip''"

definition AnnoDriverCordonedBy :: string where [const_defs]:
  "AnnoDriverCordonedBy = ''driver.tenstorrent.com/cordoned-by''"

definition AnnoDriverCordonedAt :: string where [const_defs]:
  "AnnoDriverCordonedAt = ''driver.tenstorrent.com/cordoned-at''"

definition LabelInstallMode :: string where [const_defs]:
  "LabelInstallMode = ''driver.tenstorrent.com/install-mode''"

definition LabelSMIVersion :: string where [const_defs]:
  "LabelSMIVersion = ''tt-smi.driver.tenstorrent.com/version''"

definition LabelUpgradeState :: string where [const_defs]:
  "LabelUpgradeState = ''firmware.tenstorrent.com/upgrade-state''"

definition LabelSkip :: string where [const_defs]:
  "LabelSkip = ''firmware.tenstorrent.com/skip''"

definition LabelOwnerCR :: string where [const_defs]:
  "LabelOwnerCR = ''firmware.tenstorrent.com/owned-by''"

definition LabelFWVersion :: string where [const_defs]:
  "LabelFWVersion = ''firmware.tenstorrent.com/fw-version''"

definition AnnoCurrentVersion :: string where [const_defs]:
  "AnnoCurrentVersion = ''firmware.tenstorrent.com/current-version''"

definition AnnoDesiredVersion :: string where [const_defs]:
  "AnnoDesiredVersion = ''firmware.tenstorrent.com/desired-version''"

definition AnnoLastFlashJob :: string where [const_defs]:
  "AnnoLastFlashJob = ''firmware.tenstorrent.com/last-flash-job''"

definition AnnoCordonedBy :: string where [const_defs]:
  "AnnoCordonedBy = ''firmware.tenstorrent.com/cordoned-by''"

definition AnnoCordonedAt :: string where [const_defs]:
  "AnnoCordonedAt = ''firmware.tenstorrent.com/cordoned-at''"

definition JobLabelCR :: string where [const_defs]:
  "JobLabelCR = ''firmware.tenstorrent.com/cr''"

definition JobLabelNode :: string where [const_defs]:
  "JobLabelNode = ''firmware.tenstorrent.com/node''"

definition JobLabelVersion :: string where [const_defs]:
  "JobLabelVersion = ''firmware.tenstorrent.com/version''"

definition MessageNodeConflict :: string where [const_defs]:
  "MessageNodeConflict = ''Conflict: node owned by a different TenstorrentFirmwarePolicy CR''"

definition MessageDrainTimeoutPrefix :: string where [const_defs]:
  "MessageDrainTimeoutPrefix = ''drain timeout after ''"

definition MessageExternalCordon :: string where [const_defs]:
  "MessageExternalCordon = ''node is cordoned but not by this operator''"

section \<open>Reason codes\<close>

definition ReasonHostManagedKMD :: string where [const_defs]:
  "ReasonHostManagedKMD = ''HostManagedKMD''"

definition ReasonBuilderImagePullFailed :: string where [const_defs]:
  "ReasonBuilderImagePullFailed = ''BuilderImagePullFailed''"

definition ReasonBuilderCrashLoop :: string where [const_defs]:
  "ReasonBuilderCrashLoop = ''BuilderCrashLoop''"

definition ReasonInstalling :: string where [const_defs]:
  "ReasonInstalling = ''Installing''"

definition ReasonReady :: string where [const_defs]:
  "ReasonReady = ''Ready''"

definition ReasonDraining :: string where [const_defs]:
  "ReasonDraining = ''Draining''"

definition ReasonCordoning :: string where [const_defs]:
  "ReasonCordoning = ''Cordoning''"

definition ReasonUncordoning :: string where [const_defs]:
  "ReasonUncordoning = ''Uncordoning''"

definition ReasonPaused :: string where [const_defs]:
  "ReasonPaused = ''Paused''"

definition ReasonFlashing :: string where [const_defs]:
  "ReasonFlashing = ''Flashing''"

definition ReasonFlasherImagePullFailed :: string where [const_defs]:
  "ReasonFlasherImagePullFailed = ''FlasherImagePullFailed''"

definition ReasonFlashJobFailed :: string where [const_defs]:
  "ReasonFlashJobFailed = ''FlashJobFailed''"

definition ReasonFlashSucceeded :: string where [const_defs]:
  "ReasonFlashSucceeded = ''FlashSucceeded''"

definition ReasonEvictionBlocked :: string where [const_defs]:
  "ReasonEvictionBlocked = ''EvictionBlocked''"

definition ReasonDrainTimeout :: string where [const_defs]:
  "ReasonDrainTimeout = ''DrainTimeout''"

definition ReasonNodeConflict :: string where [const_defs]:
  "ReasonNodeConflict = ''NodeConflict''"

definition ReasonExternalCordon :: string where [const_defs]:
  "ReasonExternalCordon = ''ExternalCordon''"

definition ReasonRolloutHalted :: string where [const_defs]:
  "ReasonRolloutHalted = ''RolloutHalted''"

definition ReasonAutoUpgradeDisabled :: string where [const_defs]:
  "ReasonAutoUpgradeDisabled = ''AutoUpgradeDisabled''"

definition ReasonTransientAPIError :: string where [const_defs]:
  "ReasonTransientAPIError = ''TransientAPIError''"

text \<open>The keys the two controllers write are pairwise different.\<close>

lemma cordon_keys_distinct:
  "distinct [AnnoCordonedBy, AnnoCordonedAt, AnnoDriverCordonedBy, AnnoDriverCordonedAt,
     AnnoCurrentVersion, AnnoDesiredVersion, AnnoLastFlashJob]"
  by (simp add: const_defs)

lemma label_keys_distinct:
  "distinct [LabelTenstorrentPresent, LabelKMDVersion, LabelDriverSkip, LabelInstallMode,
     LabelUpgradeState, LabelSkip, LabelOwnerCR, LabelFWVersion]"
  by (simp add: const_defs)

lemma fixed_messages [simp]:
  "MessageNodeConflict \<noteq> []" "MessageExternalCordon \<noteq> []"
  "MessageNodeConflict \<noteq> MessageExternalCordon"
  by (simp_all add: const_defs)

section \<open>Environment\<close>

definition operatorNamespace :: "platform \<Rightarrow> string" where
  "operatorNamespace p =
     (let ns = os_getenv p ''OPERATOR_NAMESPACE''
      in if ns \<noteq> [] then ns else ''tt-k8s-driver-manager-system'')"

definition requireTenstorrentLabel :: "platform \<Rightarrow> bool" where
  "requireTenstorrentLabel p \<longleftrightarrow> os_getenv p ''REQUIRE_TT_PCI_LABEL'' \<noteq> ''false''"

definition defaultFlasherImage :: string where
  "defaultFlasherImage = ''ghcr.io/tenstorrent/tt-k8s-driver-manager-flasher:dev''"

definition defaultFlasherImageFromEnv :: "platform \<Rightarrow> string" where
  "defaultFlasherImageFromEnv p =
     (let v = os_getenv p ''FLASHER_IMAGE'' in if v \<noteq> [] then v else defaultFlasherImage)"

definition envOrDefault :: "platform \<Rightarrow> string \<Rightarrow> string \<Rightarrow> string" where
  "envOrDefault p name def = (let v = os_getenv p name in if v \<noteq> [] then v else def)"

definition envSet :: "platform \<Rightarrow> string \<Rightarrow> string \<times> bool" where
  "envSet p name = (case pf_env p name of None \<Rightarrow> ([], False) | Some v \<Rightarrow> (v, True))"

lemma operatorNamespace_nonempty [simp]: "operatorNamespace p \<noteq> []"
  by (simp add: operatorNamespace_def Let_def)

end
