(* ===== verification/Rfc3339.thy ===== *)
theory Rfc3339
  imports Prelude
begin

text \<open>
  The two standard-library calls behind the cordon clock: \<open>t.UTC().Format(time.RFC3339)\<close> and
  \<open>time.Parse(time.RFC3339, s)\<close>, over the proleptic Gregorian calendar. Parsing follows Go's
  layout walk: fixed two-digit fields, but one digit is enough for the hour, an optional fraction
  after the seconds, and \<open>Z\<close> or a signed offset. The round trip at the end says that what the
  drain package writes it can read back, to the second.
\<close>

section \<open>Calendar\<close>

definition is_leap :: "int \<Rightarrow> bool" where
  "is_leap y \<longleftrightarrow> y mod 4 = 0 \<and> (y mod 100 \<noteq> 0 \<or> y mod 400 = 0)"

definition month_lengths :: "bool \<Rightarrow> int list" where
  "month_lengths leap = [31, if leap then 29 else 28, 31, 30, 31, 30, 31, 31, 30, 31, 30, 31]"

definition days_in :: "int \<Rightarrow> int \<Rightarrow> int" where
  "days_in y m = month_lengths (is_leap y) ! nat (m - 1)"

text \<open>Days from 1 January of year 1 to 1 January of year \<open>y\<close>.\<close>

definition days_before_year :: "int \<Rightarrow> int" where
  "days_before_year y = 365 * (y - 1) + (y - 1) div 4 - (y - 1) div 100 + (y - 1) div 400"

definition days_of_date :: "int \<Rightarrow> int \<Rightarrow> int \<Rightarrow> int" where
  "days_of_date y m d =
     days_before_year y + sum_list (take (nat (m - 1)) (month_lengths (is_leap y))) + (d - 1)"

text \<open>Go's \<open>absDate\<close>: peel off 400-, 100-, 4- and 1-year cycles.\<close>

definition year_of_days :: "int \<Rightarrow> int \<times> int" where
  "year_of_days d =
     (let n400 = d div 146097; d = d - 146097 * n400;
          n100 = d div 36524; n100 = n100 - n100 div 4; d = d - 36524 * n100;
          n4 = d div 1461; d = d - 1461 * n4;
          n1 = d div 365; n1 = n1 - n1 div 4; d = d - 365 * n1
      in (400 * n400 + 100 * n100 + 4 * n4 + n1 + 1, d))"

fun month_of_yday :: "int list \<Rightarrow> int \<Rightarrow> int \<Rightarrow> int \<times> int" where
  "month_of_yday [] d m = (m, d)"
| "month_of_yday (l # ls) d m = (if d < l then (m, d + 1) else month_of_yday ls (d - l) (m + 1))"

definition date_of_days :: "int \<Rightarrow> int \<times> int \<times> int" where
  "date_of_days d =
     (let (y, yd) = year_of_days d; (m, md) = month_of_yday (month_lengths (is_leap y)) yd 1
      in (y, m, md))"

text \<open>The day number of 1 January 1970.\<close>

definition unix_day :: int where
  "unix_day = 719162"

section \<open>Formatting\<close>

definition digits2 :: "int \<Rightarrow> string" where
  "digits2 n = [digit (nat (n div 10)), digit (nat n)]"

definition digits4 :: "int \<Rightarrow> string" where
  "digits4 n = digits2 (n div 100) @ digits2 (n mod 100)"

text \<open>The year: four digits, more when it does not fit, a sign when it is negative.\<close>

definition show_year :: "int \<Rightarrow> string" where
  "show_year y =
     (if y < 0 then CHR ''-'' # (if - y < 10000 then digits4 (- y) else show_nat (nat (- y)))
      else if y < 10000 then digits4 y else show_nat (nat y))"

definition format_rfc3339 :: "instant \<Rightarrow> string" where
  "format_rfc3339 t =
     (let secs = t div second; day = secs div 86400; tod = secs mod 86400;
          (y, m, d) = date_of_days (day + unix_day)
      in show_year y @ ''-'' @ digits2 m @ ''-'' @ digits2 d @ ''T'' @
         digits2 (tod div 3600) @ '':'' @ digits2 (tod div 60 mod 60) @ '':'' @
         digits2 (tod mod 60) @ ''Z'')"

section \<open>Parsing\<close>

definition digit_val :: "char \<Rightarrow> int option" where
  "digit_val c = (let n = (of_char c :: nat) in if 48 \<le> n \<and> n \<le> 57 then Some (int n - 48) else None)"

text \<open>\<open>getnum(value, true)\<close> and \<open>getnum(value, false)\<close>.\<close>

fun num2 :: "string \<Rightarrow> (int \<times> string) option" where
  "num2 (a # b # r) =
     (case (digit_val a, digit_val b) of
        (Some x, Some y) \<Rightarrow> Some (10 * x + y, r)
      | _ \<Rightarrow> None)"
| "num2 _ = None"

fun num1or2 :: "string \<Rightarrow> (int \<times> string) option" where
  "num1or2 [] = None"
| "num1or2 (a # r) =
     (case digit_val a of
        None \<Rightarrow> None
      | Some x \<Rightarrow> (case r of
          [] \<Rightarrow> Some (x, [])
        | b # r' \<Rightarrow> (case digit_val b of
            None \<Rightarrow> Some (x, r)
          | Some y \<Rightarrow> Some (10 * x + y, r'))))"

definition num4 :: "string \<Rightarrow> (int \<times> string) option" where
  "num4 s = do { (a, r) \<leftarrow> num2 s; (b, r) \<leftarrow> num2 r; Some (100 * a + b, r) }"

fun expect :: "char \<Rightarrow> string \<Rightarrow> string option" where
  "expect c [] = None"
| "expect c (x # xs) = (if x = c then Some xs else None)"

definition in_range :: "int \<Rightarrow> int \<Rightarrow> int \<Rightarrow> unit option" where
  "in_range lo hi n = (if lo \<le> n \<and> n \<le> hi then Some () else None)"

text \<open>The fraction after the seconds: at most nine digits count.\<close>

definition fraction :: "string \<Rightarrow> int \<times> string" where
  "fraction s =
     (case s of
        c # a # r \<Rightarrow>
          (if (c = CHR ''.'' \<or> c = CHR '','') \<and> digit_val a \<noteq> None then
             (let ds = takeWhile (\<lambda>x. digit_val x \<noteq> None) (a # r); used = take 9 ds
              in (fold (\<lambda>x acc. 10 * acc + the (digit_val x)) used 0 * 10 ^ (9 - length used),
                  dropWhile (\<lambda>x. digit_val x \<noteq> None) (a # r)))
           else (0, s))
      | _ \<Rightarrow> (0, s))"

text \<open>The zone: its offset in seconds.\<close>

definition zone :: "string \<Rightarrow> (int \<times> string) option" where
  "zone s =
     (case s of
        [] \<Rightarrow> None
      | c # r \<Rightarrow>
          if c = CHR ''Z'' then Some (0, r)
          else do {
            (h, r) \<leftarrow> num2 r;
            r \<leftarrow> expect (CHR '':'') r;
            (m, r) \<leftarrow> num2 r;
            in_range 0 24 h;
            in_range 0 60 m;
            (if c = CHR ''+'' then Some ((h * 60 + m) * 60, r)
             else if c = CHR ''-'' then Some (- ((h * 60 + m) * 60), r)
             else None)
          })"

definition parse_rfc3339 :: "string \<Rightarrow> instant option" where
  "parse_rfc3339 s = do {
     (y, s) \<leftarrow> num4 s;
     s \<leftarrow> expect (CHR ''-'') s;
     (mo, s) \<leftarrow> num2 s;
     in_range 1 12 mo;
     s \<leftarrow> expect (CHR ''-'') s;
     (d, s) \<leftarrow> num2 s;
     s \<leftarrow> expect (CHR ''T'') s;
     (h, s) \<leftarrow> num1or2 s;
     in_range 0 23 h;
     s \<leftarrow> expect (CHR '':'') s;
     (mi, s) \<leftarrow> num2 s;
     in_range 0 59 mi;
     s \<leftarrow> expect (CHR '':'') s;
     (sec, s) \<leftarrow> num2 s;
     in_range 0 59 sec;
     let (ns, s) = fraction s;
     (off, s) \<leftarrow> zone s;
     in_range 1 (days_in y mo) d;
     (if s = [] then
        Some (((days_of_date y mo d - unix_day) * 86400 + h * 3600 + mi * 60 + sec - off) * second
              + ns)
      else None)
   }"

section \<open>The calendar is right\<close>

lemma div_split: "(k::int) > 0 \<Longrightarrow> 0 \<le> r \<Longrightarrow> r < k \<Longrightarrow> (k * q + r) div k = q"
  by (simp add: div_pos_pos_trivial)

lemma days_before_cycles:
  assumes "0 \<le> b" "b \<le> 3" "0 \<le> c" "c \<le> 24" "0 \<le> e" "e \<le> (3::int)"
  shows "days_before_year (400 * a + 100 * b + 4 * c + e + 1)
           = 146097 * a + 36524 * b + 1461 * c + 365 * e"
proof -
  let ?q = "400 * a + 100 * b + 4 * c + e"
  have "?q div 4 = 100 * a + 25 * b + c"
    using div_split [of 4 e "100 * a + 25 * b + c"] assms by (simp add: algebra_simps)
  moreover have "?q div 100 = 4 * a + b"
    using div_split [of 100 "4 * c + e" "4 * a + b"] assms by (simp add: algebra_simps)
  moreover have "?q div 400 = a"
    using div_split [of 400 "100 * b + 4 * c + e" a] assms by (simp add: algebra_simps)
  ultimately show ?thesis by (simp add: days_before_year_def)
qed

lemma mod_zero_small: "0 < (x::int) \<Longrightarrow> x \<le> k \<Longrightarrow> x mod k = 0 \<longleftrightarrow> x = k"
  by (cases "x = k") auto

lemma leap_cycles:
  assumes "0 \<le> b" "b \<le> 3" "0 \<le> c" "c \<le> 24" "0 \<le> e" "e \<le> (3::int)"
  shows "is_leap (400 * a + 100 * b + 4 * c + e + 1) \<longleftrightarrow> e = 3 \<and> (c = 24 \<longrightarrow> b = 3)"
proof -
  let ?y = "400 * a + 100 * b + 4 * c + e + 1"
  have "?y mod 4 = (e + 1) mod 4"
    using mod_mult_self1 [of "e + 1" "100 * a + 25 * b + c" 4] by (simp add: algebra_simps)
  moreover have "(e + 1) mod 4 = 0 \<longleftrightarrow> e = 3"
    using mod_zero_small [of "e + 1" 4] assms(5,6) by simp
  moreover have "?y mod 100 = (4 * c + e + 1) mod 100"
    using mod_mult_self1 [of "4 * c + e + 1" "4 * a + b" 100] by (simp add: algebra_simps)
  moreover have "?y mod 400 = (100 * b + 4 * c + e + 1) mod 400"
    using mod_mult_self1 [of "100 * b + 4 * c + e + 1" a 400] by (simp add: algebra_simps)
  moreover have "(4 * c + e + 1) mod 100 = 0 \<longleftrightarrow> 4 * c + e + 1 = 100"
    by (rule mod_zero_small) (use assms in linarith)+
  moreover have "(100 * b + 4 * c + e + 1) mod 400 = 0 \<longleftrightarrow> 100 * b + 4 * c + e + 1 = 400"
    by (rule mod_zero_small) (use assms in linarith)+
  moreover have "4 * c + e + 1 = 100 \<longleftrightarrow> c = 24 \<and> e = 3" using assms by linarith
  moreover have "100 * b + 4 * c + e + 1 = 400 \<longleftrightarrow> b = 3 \<and> c = 24 \<and> e = 3" using assms by linarith
  ultimately show ?thesis unfolding is_leap_def by auto
qed

text \<open>Peeling off up to three of four cycles of length \<open>k\<close>, the last of which may be one longer.\<close>

lemma peel:
  assumes k: "(k::int) > 0" and x: "0 \<le> x" "x \<le> 4 * k"
    and n: "n = x div k - x div k div 4"
  shows "0 \<le> n" "n \<le> 3" "0 \<le> x - k * n" "x - k * n \<le> k" "n < 3 \<Longrightarrow> x - k * n < k"
    "x - k * n = k \<Longrightarrow> x = 4 * k"
proof -
  define q where "q = x div k"
  define m where "m = x mod k"
  have x_eq: "x = k * q + m" and m: "0 \<le> m" "m < k" using k by (simp_all add: q_def m_def)
  have "q \<le> 4 * k div k" unfolding q_def using x(2) k by (rule zdiv_mono1)
  then have "q \<le> 4" using k by simp
  moreover have "0 \<le> q" unfolding q_def using x k by (simp add: pos_imp_zdiv_nonneg_iff)
  ultimately have "q \<in> {0, 1, 2, 3, 4}" by auto
  then have "(0 \<le> n \<and> n \<le> 3 \<and> x - k * n = m) \<or> (n = 3 \<and> x - k * n = k \<and> x = 4 * k)"
    using x(2) x_eq m by (auto simp: n q_def [symmetric])
  then show "0 \<le> n" "n \<le> 3" "0 \<le> x - k * n" "x - k * n \<le> k" "n < 3 \<Longrightarrow> x - k * n < k"
    "x - k * n = k \<Longrightarrow> x = 4 * k"
    using m k by auto
qed

lemma year_of_days_correct:
  assumes "year_of_days d = (y, r)"
  shows "days_before_year y + r = d" "0 \<le> r" "r < (if is_leap y then 366 else 365)"
proof -
  define a where "a = d div 146097"
  define d1 where "d1 = d - 146097 * a"
  define b where "b = d1 div 36524 - d1 div 36524 div 4"
  define d2 where "d2 = d1 - 36524 * b"
  define c where "c = d2 div 1461"
  define d3 where "d3 = d2 - 1461 * c"
  define e where "e = d3 div 365 - d3 div 365 div 4"
  have y: "y = 400 * a + 100 * b + 4 * c + e + 1" and r: "r = d3 - 365 * e"
  proof -
    have "year_of_days d = (400 * a + 100 * b + 4 * c + e + 1, d3 - 365 * e)"
      unfolding year_of_days_def Let_def a_def [symmetric] d1_def [symmetric] b_def [symmetric]
        d2_def [symmetric] c_def [symmetric] d3_def [symmetric] e_def [symmetric] by (rule refl)
    then show "y = 400 * a + 100 * b + 4 * c + e + 1" "r = d3 - 365 * e" using assms by simp_all
  qed
  have "d1 = d mod 146097" unfolding d1_def a_def by (simp add: minus_mult_div_eq_mod)
  then have d1: "0 \<le> d1" "d1 \<le> 4 * 36524" by simp_all
  note b = peel [OF _ d1 b_def, folded d2_def, simplified]
  have "d3 = d2 mod 1461" unfolding d3_def c_def by (simp add: minus_mult_div_eq_mod)
  then have d3: "0 \<le> d3" "d3 \<le> 4 * 365" by simp_all
  have "c \<le> 36524 div 1461" unfolding c_def using b(4) by (rule zdiv_mono1) simp
  moreover have "0 \<le> c" unfolding c_def using b(3) by (simp add: pos_imp_zdiv_nonneg_iff)
  ultimately have c: "0 \<le> c" "c \<le> 24" by simp_all
  have c24: "d3 < 1460" if "c = 24" "b < 3" using b(5) [OF that(2)] that(1) d3_def by simp
  note e = peel [OF _ d3 e_def, folded r, simplified]
  show "days_before_year y + r = d"
    using days_before_cycles [OF b(1,2) c e(1,2), of a]
    by (simp add: y r d1_def d2_def d3_def)
  show "0 \<le> r" by (rule e(3))
  have "r < 365" if "\<not> (e = 3 \<and> (c = 24 \<longrightarrow> b = 3))"
    using e(2,4,5,6) c24 b(2) that by (cases "r = 365") auto
  moreover have "r < 366" using e(4) by simp
  ultimately show "r < (if is_leap y then 366 else 365)"
    using leap_cycles [OF b(1,2) c e(1,2), of a] by (auto simp: y)
qed
lemma month_of_yday_correct:
  assumes "month_of_yday ls d m = (m', md)" "0 \<le> d" "d < sum_list ls"
  shows "\<exists>k. k < length ls \<and> m' = m + int k \<and> 1 \<le> md \<and> md \<le> ls ! k \<and>
    d = sum_list (take k ls) + (md - 1)"
  using assms
proof (induction ls d m rule: month_of_yday.induct)
  case (1 d m)
  then show ?case by simp
next
  case (2 l ls d m)
  show ?case
  proof (cases "d < l")
    case True
    then show ?thesis using 2 by (intro exI [of _ 0]) auto
  next
    case False
    then obtain k where "k < length ls" "m' = m + 1 + int k" "1 \<le> md" "md \<le> ls ! k"
      "d - l = sum_list (take k ls) + (md - 1)"
      using 2 by auto
    then show ?thesis by (intro exI [of _ "Suc k"]) auto
  qed
qed

lemma sum_month_lengths: "sum_list (month_lengths leap) = (if leap then 366 else 365)"
  by (simp add: month_lengths_def)

lemma date_of_days_correct:
  assumes "date_of_days n = (y, m, d)"
  shows "days_of_date y m d = n" "1 \<le> m" "m \<le> 12" "1 \<le> d" "d \<le> days_in y m" "d \<le> 31"
proof -
  obtain r where yr: "year_of_days n = (y, r)"
    and mo: "month_of_yday (month_lengths (is_leap y)) r 1 = (m, d)"
    using assms by (auto simp: date_of_days_def split: prod.splits)
  note yc = year_of_days_correct [OF yr]
  obtain k where k: "k < length (month_lengths (is_leap y))" "m = 1 + int k" "1 \<le> d"
    "d \<le> month_lengths (is_leap y) ! k"
    "r = sum_list (take k (month_lengths (is_leap y))) + (d - 1)"
    using month_of_yday_correct [OF mo] yc by (auto simp: sum_month_lengths)
  from k(1) have k12: "k < 12" by (simp add: month_lengths_def)
  show "days_of_date y m d = n" using k yc(1) by (simp add: days_of_date_def)
  show "1 \<le> m" "m \<le> 12" "1 \<le> d" using k k12 by simp_all
  show "d \<le> days_in y m" using k by (simp add: days_in_def)
  have "month_lengths (is_leap y) ! k \<in> set (month_lengths (is_leap y))" using k(1) by simp
  then have "month_lengths (is_leap y) ! k \<le> 31" by (auto simp: month_lengths_def split: if_splits)
  then show "d \<le> 31" using k(4) by simp
qed

section \<open>Reading back what was written\<close>

lemma digit_val_digit [simp]: "digit_val (digit n) = Some (int (n mod 10))"
proof -
  have "(48 + n mod 10) mod 256 = 48 + n mod 10" by simp
  then show ?thesis by (simp add: digit_def digit_val_def Let_def)
qed

lemma num2_digits2 [simp]:
  assumes "0 \<le> n" "n < 100"
  shows "num2 (digits2 n @ r) = Some (n, r)"
proof -
  have "int (nat (n div 10) mod 10) = n div 10" "int (nat n mod 10) = n mod 10"
    using assms by (auto simp: zmod_int)
  then show ?thesis by (simp add: digits2_def)
qed

lemma num1or2_two: "digit_val a \<noteq> None \<Longrightarrow> digit_val b \<noteq> None \<Longrightarrow> num1or2 (a # b # r) = num2 (a # b # r)"
  by auto

lemma num1or2_digits2 [simp]:
  assumes "0 \<le> n" "n < 100"
  shows "num1or2 (digits2 n @ r) = Some (n, r)"
  using num2_digits2 [OF assms, of r] by (simp add: digits2_def num1or2_two del: num2.simps num1or2.simps)

lemma num4_digits4 [simp]:
  assumes "0 \<le> n" "n < 10000"
  shows "num4 (digits4 n @ r) = Some (n, r)"
proof -
  have "0 \<le> n div 100" "n div 100 < 100" "0 \<le> n mod 100" "n mod 100 < 100" using assms by auto
  then show ?thesis by (simp add: num4_def digits4_def)
qed

text \<open>The year a formatted instant falls in.\<close>

definition year_of :: "instant \<Rightarrow> int" where
  "year_of t = fst (date_of_days (t div second div 86400 + unix_day))"

lemma parse_fields:
  assumes "0 \<le> y" "y < 10000" "1 \<le> m" "m \<le> 12" "1 \<le> d" "d \<le> days_in y m" "d \<le> 31"
    "0 \<le> h" "h \<le> 23" "0 \<le> mi" "mi \<le> 59" "0 \<le> sec" "sec \<le> 59"
  shows "parse_rfc3339 (digits4 y @ CHR ''-'' # digits2 m @ CHR ''-'' # digits2 d @
      CHR ''T'' # digits2 h @ CHR '':'' # digits2 mi @ CHR '':'' # digits2 sec @ [CHR ''Z''])
    = Some (((days_of_date y m d - unix_day) * 86400 + h * 3600 + mi * 60 + sec) * second)"
  using assms by (simp add: parse_rfc3339_def in_range_def fraction_def zone_def)

theorem parse_format:
  assumes "0 \<le> year_of t" "year_of t < 10000"
  shows "parse_rfc3339 (format_rfc3339 t) = Some (t div second * second)"
proof -
  obtain y m d where ymd: "date_of_days (t div second div 86400 + unix_day) = (y, m, d)"
    by (metis prod_cases3)
  note dc = date_of_days_correct [OF ymd]
  have y: "0 \<le> y" "y < 10000" using assms ymd by (simp_all add: year_of_def)
  define tod where "tod = t div second mod 86400"
  have tod: "0 \<le> tod" "tod < 86400" by (simp_all add: tod_def)
  have hms: "0 \<le> tod div 3600" "tod div 3600 \<le> 23" "0 \<le> tod div 60 mod 60" "tod div 60 mod 60 \<le> 59"
    "0 \<le> tod mod 60" "tod mod 60 \<le> 59"
    using tod by (auto simp: pos_imp_zdiv_nonneg_iff)
  have sum: "tod div 3600 * 3600 + tod div 60 mod 60 * 60 + tod mod 60 = tod"
  proof -
    have "tod div 3600 = tod div 60 div 60" by (simp add: zdiv_zmult2_eq [symmetric])
    then show ?thesis
      using div_mult_mod_eq [of "tod div 60" 60] div_mult_mod_eq [of tod 60] by linarith
  qed
  have total: "(days_of_date y m d - unix_day) * 86400 + tod = t div second"
    using dc(1) div_mult_mod_eq [of "t div second" 86400] by (simp add: tod_def)
  have "format_rfc3339 t = digits4 y @ CHR ''-'' # digits2 m @ CHR ''-'' # digits2 d @
    CHR ''T'' # digits2 (tod div 3600) @ CHR '':'' # digits2 (tod div 60 mod 60) @
    CHR '':'' # digits2 (tod mod 60) @ [CHR ''Z'']"
    using ymd y by (simp add: format_rfc3339_def Let_def show_year_def tod_def)
  moreover have "(days_of_date y m d - unix_day) * 86400 + tod div 3600 * 3600 + tod div 60 mod 60 * 60 + tod mod 60
    = t div second"
    using sum total by linarith
  ultimately show ?thesis using parse_fields [OF y dc(2-6) hms] by simp
qed

end
