(* ===== verification/Drain.thy ===== *)
theory Drain
  imports Labels Rfc3339
begin

text \<open>
  \<open>internal/drain/drain.go\<close>: the cordon, pod selection and eviction primitives that both
  controllers call, each with its own annotation keys and owner. The locale at the end states
  what a controller may rely on for its pair of keys; it is interpreted for the firmware and the
  driver keys where these are defined.
\<close>

section \<open>Cordon ownership\<close>

record cordon_opts =
  co_by :: string
  co_at :: string
  co_owner :: string

definition CordonNode :: "platform \<Rightarrow> node \<Rightarrow> cordon_opts \<Rightarrow> (err option \<times> node) io" where
  "CordonNode p node opts =
     (if nd_unsched node \<and> sget (nd_annos node) (co_by opts) = co_owner opts
      then State_Monad.return (None, node)
      else do {
        let annos = (nd_annos node)(co_by opts \<mapsto> co_owner opts);
        annos \<leftarrow> (if sget annos (co_at opts) = [] then do {
                     t \<leftarrow> now p;
                     State_Monad.return (annos(co_at opts \<mapsto> format_rfc3339 t))
                   } else State_Monad.return annos);
        patch_node p node (node\<lparr>nd_unsched := True, nd_annos := annos\<rparr>)
      })"

definition UncordonNode :: "platform \<Rightarrow> node \<Rightarrow> cordon_opts \<Rightarrow> (err option \<times> node) io" where
  "UncordonNode p node opts =
     (if sget (nd_annos node) (co_by opts) \<noteq> co_owner opts
      then State_Monad.return (None, node)
      else patch_node p node
             (node\<lparr>nd_unsched := False,
                   nd_annos := (nd_annos node)(co_by opts := None, co_at opts := None)\<rparr>))"

text \<open>\<open>time.Since\<close>: the difference as a 64-bit duration, saturating.\<close>

definition since :: "instant \<Rightarrow> instant \<Rightarrow> duration" where
  "since t n = max (- (2 ^ 63)) (min (2 ^ 63 - 1) (n - t))"

definition CordonElapsed :: "platform \<Rightarrow> node \<Rightarrow> string \<Rightarrow> duration io" where
  "CordonElapsed p node annoAt =
     (let v = sget (nd_annos node) annoAt in
      if v = [] then State_Monad.return 0
      else (case parse_rfc3339 v of
              None \<Rightarrow> State_Monad.return 0
            | Some t \<Rightarrow> do { n \<leftarrow> now p; State_Monad.return (since t n) }))"

section \<open>Pods to drain\<close>

type_synonym pod_filter = "pod \<Rightarrow> bool"

definition PodUsesTenstorrentDevice :: pod_filter where
  "PodUsesTenstorrentDevice pd =
     list_ex (\<lambda>v. case vl_hostpath v of
                    None \<Rightarrow> False
                  | Some (path, _) \<Rightarrow> has_prefix path ''/dev/tenstorrent'')
       (ps_volumes (pd_spec pd))"

definition PodIsDaemonSetOwned :: pod_filter where
  "PodIsDaemonSetOwned pd = list_ex (\<lambda>r. or_kind r = ''DaemonSet'') (pd_owners pd)"

definition PodIsBare :: pod_filter where
  "PodIsBare pd = (length (pd_owners pd) = 0)"

definition PodHasEmptyDir :: pod_filter where
  "PodHasEmptyDir pd = list_ex vl_emptydir (ps_volumes (pd_spec pd))"

definition IsTerminalPhase :: "pod_phase \<Rightarrow> bool" where
  "IsTerminalPhase ph \<longleftrightarrow> ph = PodSucceeded \<or> ph = PodFailed"

text \<open>The body of the loop of \<open>ListDevicePodsOnNode\<close>: each \<open>continue\<close> is a branch.\<close>

fun select_pods ::
  "string \<Rightarrow> string \<Rightarrow> bool \<Rightarrow> pod_filter option \<Rightarrow> pod list \<Rightarrow> pod list" where
  "select_pods nodeName excludeNs force flt [] = []"
| "select_pods nodeName excludeNs force flt (pd # pds) =
     (if ps_node (pd_spec pd) \<noteq> nodeName then select_pods nodeName excludeNs force flt pds
      else if pd_ns pd = excludeNs then select_pods nodeName excludeNs force flt pds
      else if (case flt of None \<Rightarrow> False | Some f \<Rightarrow> \<not> f pd)
        then select_pods nodeName excludeNs force flt pds
      else if IsTerminalPhase (pd_phase pd) then select_pods nodeName excludeNs force flt pds
      else if PodIsDaemonSetOwned pd then select_pods nodeName excludeNs force flt pds
      else if \<not> force \<and> PodIsBare pd then select_pods nodeName excludeNs force flt pds
      else pd # select_pods nodeName excludeNs force flt pds)"

definition ListDevicePodsOnNode ::
  "platform \<Rightarrow> string \<Rightarrow> string \<Rightarrow> bool \<Rightarrow> pod_filter option \<Rightarrow> (err + pod list) io" where
  "ListDevicePodsOnNode p nodeName excludeNs force flt = do {
     r \<leftarrow> list_pods p None [];
     State_Monad.return (case r of
       Inl e \<Rightarrow> Inl (wrap ''list pods'' e)
     | Inr items \<Rightarrow> Inr (select_pods nodeName excludeNs force flt items))
   }"

section \<open>Eviction\<close>

datatype evict_err = ErrEvictionBlocked string | EvictFailed err

definition EvictPod :: "platform \<Rightarrow> pod \<Rightarrow> evict_err option io" where
  "EvictPod p pd = do {
     r \<leftarrow> evict p (pd_ns pd) (pd_name pd);
     State_Monad.return (case r of
       Inr _ \<Rightarrow> None
     | Inl e \<Rightarrow> (if ekind e = NotFound then None
                else if ekind e = TooManyRequests then Some (ErrEvictionBlocked (emsg e))
                else Some (EvictFailed e)))
   }"

section \<open>What is selected\<close>

text \<open>A pod is drained exactly when it sits on the node outside the operator's namespace, passes
  the filter, still runs, is not respawned by a DaemonSet, and has a controller unless forced.\<close>

definition drainable :: "string \<Rightarrow> string \<Rightarrow> bool \<Rightarrow> pod_filter option \<Rightarrow> pod_filter" where
  "drainable nodeName excludeNs force flt pd \<longleftrightarrow>
     ps_node (pd_spec pd) = nodeName \<and> pd_ns pd \<noteq> excludeNs \<and>
     (\<forall>f. flt = Some f \<longrightarrow> f pd) \<and> \<not> IsTerminalPhase (pd_phase pd) \<and>
     \<not> PodIsDaemonSetOwned pd \<and> (PodIsBare pd \<longrightarrow> force)"

lemma select_pods_eq: "select_pods n x force flt pds = filter (drainable n x force flt) pds"
  by (induction pds) (auto simp: drainable_def split: option.splits)

lemma drainable_ns: "drainable n x force flt pd \<Longrightarrow> pd_ns pd \<noteq> x"
  by (simp add: drainable_def)

lemma drainable_force: "drainable n x False flt pd \<Longrightarrow> drainable n x force flt pd"
  by (auto simp: drainable_def)

lemma bare_not_daemonset: "PodIsBare pd \<Longrightarrow> \<not> PodIsDaemonSetOwned pd"
  by (simp add: PodIsBare_def PodIsDaemonSetOwned_def)

section \<open>What the primitives ask of the API server\<close>

lemma issues_ListDevicePodsOnNode [frame_rules]:
  "P (CListPods None []) \<Longrightarrow> issues P (ListDevicePodsOnNode p n x force flt)"
  unfolding ListDevicePodsOnNode_def by (intro frame_rules)

lemma issues_EvictPod [frame_rules]:
  "(\<And>e. P (CEvict (pd_ns pd) (pd_name pd) e)) \<Longrightarrow> issues P (EvictPod p pd)"
  unfolding EvictPod_def by (intro frame_rules)

lemma issues_case_evict_err [frame_rules]:
  "(\<And>r. x = ErrEvictionBlocked r \<Longrightarrow> issues P (f r)) \<Longrightarrow> (\<And>e. x = EvictFailed e \<Longrightarrow> issues P (g e)) \<Longrightarrow>
   issues P (case x of ErrEvictionBlocked r \<Rightarrow> f r | EvictFailed e \<Rightarrow> g e)"
  by (cases x) auto

lemma issues_CordonElapsed [frame_rules]: "P CNow \<Longrightarrow> issues P (CordonElapsed p node k)"
  unfolding CordonElapsed_def Let_def by (intro frame_rules)

text \<open>\<open>node_patch L A u base new\<close>: a patch that changes at most the labels in \<open>L\<close>, the annotations in
  \<open>A\<close>, and the unschedulable flag only if \<open>u\<close>.\<close>

definition node_patch :: "string set \<Rightarrow> string set \<Rightarrow> bool \<Rightarrow> node \<Rightarrow> node \<Rightarrow> bool" where
  "node_patch L A u base new \<longleftrightarrow> nd_name new = nd_name base \<and>
     (\<forall>k. k \<notin> L \<longrightarrow> nd_labels new k = nd_labels base k) \<and>
     (\<forall>k. k \<notin> A \<longrightarrow> nd_annos new k = nd_annos base k) \<and>
     (u \<or> nd_unsched new = nd_unsched base)"

lemma node_patch_mono:
  "node_patch L A u base new \<Longrightarrow> L \<subseteq> L' \<Longrightarrow> A \<subseteq> A' \<Longrightarrow> (u \<longrightarrow> u') \<Longrightarrow>
   node_patch L' A' u' base new"
  by (auto simp: node_patch_def)

text \<open>The only patch a cordon sends keeps every annotation but the two of its owner.\<close>

definition cordon_patch :: "cordon_opts \<Rightarrow> node \<Rightarrow> node \<Rightarrow> bool" where
  "cordon_patch opts base new \<longleftrightarrow>
     nd_unsched new \<and> nd_name new = nd_name base \<and> nd_labels new = nd_labels base \<and>
     (co_by opts \<noteq> co_at opts \<longrightarrow> nd_annos new (co_by opts) = Some (co_owner opts)) \<and>
     (sget (nd_annos base) (co_at opts) \<noteq> [] \<longrightarrow> co_by opts \<noteq> co_at opts \<longrightarrow>
        nd_annos new (co_at opts) = nd_annos base (co_at opts)) \<and>
     (\<forall>k. k \<noteq> co_by opts \<longrightarrow> k \<noteq> co_at opts \<longrightarrow> nd_annos new k = nd_annos base k)"

definition uncordon_patch :: "cordon_opts \<Rightarrow> node \<Rightarrow> node \<Rightarrow> bool" where
  "uncordon_patch opts base new \<longleftrightarrow>
     \<not> nd_unsched new \<and> nd_name new = nd_name base \<and> nd_labels new = nd_labels base \<and>
     sget (nd_annos base) (co_by opts) = co_owner opts \<and>
     nd_annos new (co_by opts) = None \<and> nd_annos new (co_at opts) = None \<and>
     (\<forall>k. k \<noteq> co_by opts \<longrightarrow> k \<noteq> co_at opts \<longrightarrow> nd_annos new k = nd_annos base k)"

lemma cordon_node_patch:
  "cordon_patch opts base new \<Longrightarrow> node_patch {} {co_by opts, co_at opts} True base new"
  "uncordon_patch opts base new \<Longrightarrow> node_patch {} {co_by opts, co_at opts} True base new"
  by (auto simp: cordon_patch_def uncordon_patch_def node_patch_def)

lemma issues_CordonNode:
  assumes "P CNow" "\<And>new e. cordon_patch opts node new \<Longrightarrow> P (CPatchNode node new e)"
  shows "issues P (CordonNode p node opts)"
  using assms unfolding CordonNode_def Let_def
  by (auto intro!: frame_rules triple_rules simp: keeps_def cordon_patch_def issued_def
      patch_node_def now_def split: if_splits)

lemma issues_UncordonNode:
  assumes "\<And>new e. uncordon_patch opts node new \<Longrightarrow> P (CPatchNode node new e)"
  shows "issues P (UncordonNode p node opts)"
  using assms unfolding UncordonNode_def
  by (auto intro!: frame_rules simp: uncordon_patch_def)

section \<open>The cordon protocol of one controller\<close>

text \<open>An API server that accepts every node patch as sent: the hypothesis under which the effect of
  a call on the node can be read off the caller's object.\<close>

definition accepts_patches :: "platform \<Rightarrow> bool" where
  "accepts_patches p \<longleftrightarrow> (\<forall>h base new. srv_patch_node (pf_writes p) h base new = Inr new)"

lemma patch_node_accepts:
  "accepts_patches p \<Longrightarrow> result_of (patch_node p base new) s = (None, new)"
  by (simp add: patch_node_def accepts_patches_def)

text \<open>A server whose answer to a patch is the patched node under its own name.\<close>

definition keeps_names :: "platform \<Rightarrow> bool" where
  "keeps_names p \<longleftrightarrow> (\<forall>h base new n. srv_patch_node (pf_writes p) h base new = Inr n \<longrightarrow>
     nd_name n = nd_name new)"

lemma patch_name:
  "keeps_names p \<Longrightarrow> nd_name new = nd_name base \<Longrightarrow>
   nd_name (snd (result_of (patch_node p base new) s)) = nd_name base"
  by (auto simp: patch_node_def keeps_names_def split: sum.split)

text \<open>A controller's cordon options: fixed, different annotation keys, and the CR as owner.\<close>

locale cordon_protocol =
  fixes opts :: "string \<Rightarrow> cordon_opts" and by_key at_key :: string
  assumes owner: "co_owner (opts cr) = cr"
    and by_key: "co_by (opts cr) = by_key"
    and at_key: "co_at (opts cr) = at_key"
    and keys: "by_key \<noteq> at_key"
begin

definition held_by :: "string \<Rightarrow> node \<Rightarrow> bool" where
  "held_by cr node \<longleftrightarrow> nd_unsched node \<and> sget (nd_annos node) by_key = cr"

lemma cordon_idempotent:
  "held_by cr node \<Longrightarrow> run_state (CordonNode p node (opts cr)) s = ((None, node), s)"
  by (simp add: CordonNode_def held_by_def owner by_key)

lemma uncordon_not_owner:
  "sget (nd_annos node) by_key \<noteq> cr \<Longrightarrow>
   run_state (UncordonNode p node (opts cr)) s = ((None, node), s)"
  by (simp add: UncordonNode_def owner by_key)

lemma cordon_result:
  assumes "accepts_patches p" "\<not> held_by cr node"
  shows "result_of (CordonNode p node (opts cr)) s =
    (None, node\<lparr>nd_unsched := True,
       nd_annos := (let a = (nd_annos node)(by_key \<mapsto> cr) in
         if sget (nd_annos node) at_key = [] then a(at_key \<mapsto> format_rfc3339 (pf_now p (hist s)))
         else a)\<rparr>)"
  using assms keys
  by (auto simp: CordonNode_def held_by_def owner by_key at_key patch_node_accepts now_def Let_def)

lemma cordon_establishes:
  assumes "accepts_patches p" "result_of (CordonNode p node (opts cr)) s = (e, node')"
  shows "e = None" "held_by cr node'"
proof -
  have "e = None \<and> held_by cr node'"
  proof (cases "held_by cr node")
    case True
    then show ?thesis using assms cordon_idempotent [OF True, of p s] by (simp add: result_of_def)
  next
    case False
    then show ?thesis
      using assms cordon_result [OF assms(1) False, of s] keys by (auto simp: held_by_def Let_def)
  qed
  then show "e = None" "held_by cr node'" by simp_all
qed

lemma uncordon_result:
  assumes "accepts_patches p" "sget (nd_annos node) by_key = cr"
  shows "result_of (UncordonNode p node (opts cr)) s =
    (None, node\<lparr>nd_unsched := False,
       nd_annos := (nd_annos node)(by_key := None, at_key := None)\<rparr>)"
  using assms by (simp add: UncordonNode_def owner by_key at_key patch_node_accepts)

lemma cordon_uncordon:
  assumes "accepts_patches p" "\<not> nd_unsched node" "nd_annos node by_key = None"
    "nd_annos node at_key = None" "result_of (CordonNode p node (opts cr)) s = (e, node')"
  shows "result_of (UncordonNode p node' (opts cr)) t = (None, node)"
proof -
  have "\<not> held_by cr node" using assms(2) by (simp add: held_by_def)
  from cordon_result [OF assms(1) this, of s] assms(4,5) keys
  have "node' = node\<lparr>nd_unsched := True,
      nd_annos := (nd_annos node)(by_key \<mapsto> cr, at_key \<mapsto> format_rfc3339 (pf_now p (hist s)))\<rparr>"
    by (auto simp: sget_def Let_def)
  moreover have "(nd_annos node)(by_key := None, at_key := None) = nd_annos node"
    using assms(3,4) by (simp add: fun_upd_idem)
  ultimately show ?thesis
    using uncordon_result [OF assms(1), of node' cr t] assms(2) keys by (simp add: fun_upd_twist)
qed

text \<open>The drain clock: a cordon starts it, and later cordons of the same node leave it running.\<close>

lemma cordon_clock_kept:
  assumes "accepts_patches p" "sget (nd_annos node) at_key \<noteq> []"
    "result_of (CordonNode p node (opts cr)) s = (e, node')"
  shows "sget (nd_annos node') at_key = sget (nd_annos node) at_key"
proof (cases "held_by cr node")
  case True
  then show ?thesis using assms cordon_idempotent [OF True, of p s] by (simp add: result_of_def)
next
  case False
  then show ?thesis using assms cordon_result [OF assms(1) False, of s] keys by auto
qed

lemma cordon_clock_started:
  assumes "accepts_patches p" "sget (nd_annos node) at_key = []" "\<not> held_by cr node"
    "0 \<le> year_of (pf_now p (hist s))" "year_of (pf_now p (hist s)) < 10000"
    "result_of (CordonNode p node (opts cr)) s = (e, node')"
  shows "result_of (CordonElapsed p node' at_key) t
    = since (pf_now p (hist s) div second * second) (pf_now p (hist t))"
proof -
  have "node' = node\<lparr>nd_unsched := True,
      nd_annos := (nd_annos node)(by_key \<mapsto> cr, at_key \<mapsto> format_rfc3339 (pf_now p (hist s)))\<rparr>"
    using assms(6) cordon_result [OF assms(1,3), of s] assms(2) by (simp add: Let_def)
  moreover have "format_rfc3339 (pf_now p (hist s)) \<noteq> []"
    by (simp add: format_rfc3339_def digits2_def Let_def split: prod.split)
  ultimately show ?thesis
    using parse_format [OF assms(4,5)] by (simp add: CordonElapsed_def Let_def now_def)
qed

end

text \<open>Two controllers with disjoint keys: neither can take or lift the other's ownership.\<close>

locale two_cordons =
  a: cordon_protocol opts by_key at_key + b: cordon_protocol opts' by_key' at_key'
  for opts by_key at_key opts' by_key' at_key' +
  assumes disjoint: "{by_key, at_key} \<inter> {by_key', at_key'} = {}"
begin

lemma cordon_keeps_other:
  "cordon_patch (opts cr) base new \<Longrightarrow> nd_annos new by_key' = nd_annos base by_key' \<and>
     nd_annos new at_key' = nd_annos base at_key'"
  using disjoint by (auto simp: cordon_patch_def a.by_key a.at_key)

lemma uncordon_keeps_other:
  "uncordon_patch (opts cr) base new \<Longrightarrow> nd_annos new by_key' = nd_annos base by_key' \<and>
     nd_annos new at_key' = nd_annos base at_key'"
  using disjoint by (auto simp: uncordon_patch_def a.by_key a.at_key)

text \<open>The \<open>unschedulable\<close> flag has one value for both: lifting one cordon opens the node although
  the other controller still holds its own.\<close>

lemma uncordon_opens_other:
  assumes "accepts_patches p" "a.held_by cr node" "b.held_by cr' node"
    "result_of (UncordonNode p node (opts cr)) s = (e, node')"
  shows "sget (nd_annos node') by_key' = cr' \<and> \<not> nd_unsched node'"
  using assms a.uncordon_result [OF assms(1), of node cr s] disjoint
  by (auto simp: a.held_by_def b.held_by_def sget_def)

end

end
