(* ===== verification/Sha256.thy ===== *)
theory Sha256
  imports Prelude
begin

text \<open>
  \<open>crypto/sha256.Sum256\<close> and \<open>encoding/hex.EncodeToString\<close>, the two standard-library functions from
  which the code builds the suffix of a Job name and the hash of a DaemonSet template. Bytes are
  \<open>8 word\<close>, the compression function works on \<open>32 word\<close>. The function has been
  compared with published test values outside the development.
\<close>

unbundle bit_operations_syntax

section \<open>Constants\<close>

text \<open>The standard takes its words from the fractional parts of roots of the first primes: 32 bits
  of the cube roots of 64 of them for the rounds, of the square roots of 8 for the initial value.
  \<open>bit_root k n\<close> is the largest number below \<open>2 ^ 36\<close> whose \<open>k\<close>-th power does not exceed \<open>n\<close>.\<close>

definition bit_root :: "nat \<Rightarrow> nat \<Rightarrow> nat" where
  "bit_root k n = fold (\<lambda>b r. if (r + 2 ^ b) ^ k \<le> n then r + 2 ^ b else r) (rev [0..<36]) 0"

definition primes_to_311 :: "nat list" where
  "primes_to_311 = filter (\<lambda>n. list_all (\<lambda>d. n mod d \<noteq> 0) [2..<n]) [2..<312]"

definition round_constants :: "32 word list" where
  "round_constants = map (\<lambda>q. word_of_nat (bit_root 3 (q * 2 ^ 96))) primes_to_311"

definition initial_hash :: "32 word list" where
  "initial_hash = map (\<lambda>q. word_of_nat (bit_root 2 (q * 2 ^ 64))) [2, 3, 5, 7, 11, 13, 17, 19]"

section \<open>Compression\<close>

definition rotr :: "nat \<Rightarrow> 32 word \<Rightarrow> 32 word" where
  "rotr n x = drop_bit n x OR push_bit (32 - n) x"

definition small_sigma0 :: "32 word \<Rightarrow> 32 word" where
  "small_sigma0 x = rotr 7 x XOR rotr 18 x XOR drop_bit 3 x"

definition small_sigma1 :: "32 word \<Rightarrow> 32 word" where
  "small_sigma1 x = rotr 17 x XOR rotr 19 x XOR drop_bit 10 x"

definition big_sigma0 :: "32 word \<Rightarrow> 32 word" where
  "big_sigma0 x = rotr 2 x XOR rotr 13 x XOR rotr 22 x"

definition big_sigma1 :: "32 word \<Rightarrow> 32 word" where
  "big_sigma1 x = rotr 6 x XOR rotr 11 x XOR rotr 25 x"

text \<open>The message schedule, newest word first: word \<open>t\<close> needs the words \<open>t-2\<close>, \<open>t-7\<close>, \<open>t-15\<close>
  and \<open>t-16\<close>.\<close>

fun extend_schedule :: "nat \<Rightarrow> 32 word list \<Rightarrow> 32 word list" where
  "extend_schedule 0 ws = ws"
| "extend_schedule (Suc n) ws =
     extend_schedule n
       ((small_sigma1 (ws ! 1) + ws ! 6 + small_sigma0 (ws ! 14) + ws ! 15) # ws)"

definition schedule :: "32 word list \<Rightarrow> 32 word list" where
  "schedule block = rev (extend_schedule 48 (rev block))"

type_synonym regs =
  "32 word \<times> 32 word \<times> 32 word \<times> 32 word \<times> 32 word \<times> 32 word \<times> 32 word \<times> 32 word"

fun sha_round :: "32 word \<times> 32 word \<Rightarrow> regs \<Rightarrow> regs" where
  "sha_round (k, w) (a, b, c, d, e, f, g, h) =
     (let t1 = h + big_sigma1 e + ((e AND f) XOR (NOT e AND g)) + k + w;
          t2 = big_sigma0 a + ((a AND b) XOR (a AND c) XOR (b AND c))
      in (t1 + t2, a, b, c, d + t1, e, f, g))"

fun regs_of :: "32 word list \<Rightarrow> regs" where
  "regs_of [a, b, c, d, e, f, g, h] = (a, b, c, d, e, f, g, h)"
| "regs_of _ = (0, 0, 0, 0, 0, 0, 0, 0)"

fun words_of :: "regs \<Rightarrow> 32 word list" where
  "words_of (a, b, c, d, e, f, g, h) = [a, b, c, d, e, f, g, h]"

definition compress :: "32 word list \<Rightarrow> 32 word list \<Rightarrow> 32 word list" where
  "compress hs block =
     map2 (+) hs (words_of (fold sha_round (zip round_constants (schedule block)) (regs_of hs)))"

section \<open>Padding and output\<close>

fun be_bytes :: "nat \<Rightarrow> nat \<Rightarrow> 8 word list" where
  "be_bytes 0 n = []"
| "be_bytes (Suc k) n = be_bytes k (n div 256) @ [word_of_nat (n mod 256)]"

definition pad :: "8 word list \<Rightarrow> 8 word list" where
  "pad bs = bs @ [0x80] @ replicate ((119 - length bs mod 64) mod 64) 0 @ be_bytes 8 (8 * length bs)"

fun be_words :: "8 word list \<Rightarrow> 32 word list" where
  "be_words (a # b # c # d # r) =
     (push_bit 24 (ucast a) OR push_bit 16 (ucast b) OR push_bit 8 (ucast c) OR ucast d) # be_words r"
| "be_words _ = []"

fun blocks :: "nat \<Rightarrow> 32 word list \<Rightarrow> 32 word list list" where
  "blocks 0 ws = []"
| "blocks (Suc n) ws = take 16 ws # blocks n (drop 16 ws)"

definition Sum256 :: "8 word list \<Rightarrow> 8 word list" where
  "Sum256 bs =
     (let ws = be_words (pad bs)
      in concat (map (\<lambda>w. be_bytes 4 (unat w))
           (fold (\<lambda>b hs. compress hs b) (blocks (length ws div 16) ws) initial_hash)))"

definition bytes_of_string :: "string \<Rightarrow> 8 word list" where
  "bytes_of_string s = map (\<lambda>c. word_of_nat (of_char c)) s"

definition hex_digit :: "nat \<Rightarrow> char" where
  "hex_digit n = (if n < 10 then char_of (48 + n) else char_of (87 + n))"

definition EncodeToString :: "8 word list \<Rightarrow> string" where
  "EncodeToString bs = concat (map (\<lambda>b. [hex_digit (unat b div 16), hex_digit (unat b mod 16)]) bs)"

section \<open>Lengths\<close>

lemma length_EncodeToString [simp]: "length (EncodeToString bs) = 2 * length bs"
  by (induction bs) (auto simp: EncodeToString_def)

lemma length_be_bytes [simp]: "length (be_bytes k n) = k"
  by (induction k arbitrary: n) auto

lemma length_words_of [simp]: "length (words_of r) = 8"
  by (induction r rule: words_of.induct) simp

lemma length_compress [simp]: "length (compress hs b) = min (length hs) 8"
  by (simp add: compress_def)

lemma length_compress_fold: "length hs = 8 \<Longrightarrow> length (fold (\<lambda>b hs. compress hs b) bs hs) = 8"
  by (induction bs arbitrary: hs) auto

lemma length_concat_const: "(\<And>x. x \<in> set xs \<Longrightarrow> length (f x) = n) \<Longrightarrow> length (concat (map f xs)) = n * length xs"
  by (induction xs) auto

lemma length_Sum256 [simp]: "length (Sum256 bs) = 32"
proof -
  have "length (fold (\<lambda>b hs. compress hs b) bl initial_hash) = 8" for bl
    by (rule length_compress_fold) (simp add: initial_hash_def)
  then show ?thesis by (simp add: Sum256_def Let_def length_concat_const [where n = 4])
qed

end
