(* ===== verification/FlashJob.thy ===== *)
theory FlashJob
  imports Drain Sha256
begin

text \<open>
  \<open>internal/controller/job.go\<close>: the name, the template and the reading of the per-node flash Job.
\<close>

section \<open>Names\<close>

definition sanitizeVersion :: "string \<Rightarrow> string" where
  "sanitizeVersion v = map (\<lambda>c. if c = CHR ''.'' then CHR ''-'' else c) v"

definition jobName :: "fw_policy \<Rightarrow> string \<Rightarrow> string \<Rightarrow> string" where
  "jobName cr nodeName version =
     (let prefix = ''ttfwp-'' @ fp_name cr @ ''-'' @ nodeName;
          prefix = (if length prefix > 48 then take 48 prefix else prefix);
          h = Sum256 (bytes_of_string (fp_name cr @ ''/'' @ nodeName @ ''/'' @ version));
          suffix = EncodeToString (take 4 h)
      in to_lower (prefix @ ''-'' @ sanitizeVersion version @ ''-'' @ suffix))"

definition boolEnv :: "bool \<Rightarrow> string" where
  "boolEnv b = (if b then ''true'' else ''false'')"

section \<open>The Job template\<close>

text \<open>\<open>fp_spec\<close> fields with their defaults, as \<open>buildFlashJob\<close> resolves them.\<close>

definition flash_image :: "fw_policy \<Rightarrow> string \<Rightarrow> string" where
  "flash_image cr defaultImage =
     (case fs_flasher (fp_spec cr) of
        None \<Rightarrow> defaultImage
      | Some f \<Rightarrow> (if fo_image f \<noteq> [] then fo_image f else defaultImage))"

definition flash_pull_policy :: "fw_policy \<Rightarrow> string" where
  "flash_pull_policy cr =
     (case fs_flasher (fp_spec cr) of
        None \<Rightarrow> ''IfNotPresent''
      | Some f \<Rightarrow> (if fo_pull f \<noteq> [] then fo_pull f else ''IfNotPresent''))"

text \<open>\<open>(forceWrite, continueOnReadbackFailure, homogenizeFirmwareVersions)\<close>.\<close>

definition flash_flags :: "fw_policy \<Rightarrow> bool \<times> bool \<times> bool" where
  "flash_flags cr =
     (case fs_flasher (fp_spec cr) of
        None \<Rightarrow> (False, False, True)
      | Some f \<Rightarrow> (fo_force_write f, fo_continue f, fo_homogenize f))"

definition flash_readback :: "fw_policy \<Rightarrow> string" where
  "flash_readback cr =
     (if fs_readback (fp_spec cr) = [] then fs_version (fp_spec cr) @ ''.0''
      else fs_readback (fp_spec cr))"

definition flash_bundle_url :: "fw_policy \<Rightarrow> string" where
  "flash_bundle_url cr =
     (let version = fs_version (fp_spec cr) in
      if fs_bundle_url (fp_spec cr) = []
      then ''https://github.com/tenstorrent/tt-system-firmware/releases/download/v'' @ version @
           ''/fw_pack-'' @ version @ ''.fwbundle''
      else fs_bundle_url (fp_spec cr))"

definition flash_timeout :: "fw_policy \<Rightarrow> int64" where
  "flash_timeout cr =
     (let timeout = scast (fu_flash_timeout (fs_upgrade (fp_spec cr))) :: int64
      in if timeout = 0 then 900 else timeout)"

definition job_labels :: "fw_policy \<Rightarrow> string \<Rightarrow> labels" where
  "job_labels cr nodeName =
     [JobLabelCR \<mapsto> fp_name cr, JobLabelNode \<mapsto> nodeName,
      JobLabelVersion \<mapsto> sanitizeVersion (fs_version (fp_spec cr))]"

definition fetch_container :: "fw_policy \<Rightarrow> container" where
  "fetch_container cr = zero_container\<lparr>
     ct_name := ''fetch-bundle'',
     ct_image := ''curlimages/curl:8.10.1'',
     ct_command := [''sh'', ''-c'', ''curl -fsSL \"$TT_FW_BUNDLE_URL\" -o /work/bundle.fwbundle''],
     ct_env := [env_lit ''TT_FW_BUNDLE_URL'' (flash_bundle_url cr)],
     ct_mounts := [mount ''work'' ''/work'' False]\<rparr>"

definition flash_container :: "fw_policy \<Rightarrow> string \<Rightarrow> container" where
  "flash_container cr defaultImage =
     (let (forceWrite, continueOnReadbackFailure, homogenize) = flash_flags cr;
          flashArgs = (if forceWrite then ''--force'' else [])
      in zero_container\<lparr>
        ct_name := ''flash'',
        ct_image := flash_image cr defaultImage,
        ct_pull := flash_pull_policy cr,
        ct_privileged := True,
        ct_caps := [''SYS_RAWIO'', ''SYS_ADMIN''],
        ct_env := [
          env_lit ''TT_FW_BUNDLE_PATH'' ''/work/bundle.fwbundle'',
          env_lit ''TT_FW_VERSION'' (fs_version (fp_spec cr)),
          env_lit ''TT_FW_READBACK'' (flash_readback cr),
          env_lit ''TT_FLASH_ARGS'' flashArgs,
          env_lit ''TT_FORCE_WRITE'' (boolEnv forceWrite),
          env_lit ''TT_CONTINUE_ON_READBACK_FAILURE'' (boolEnv continueOnReadbackFailure),
          env_lit ''TT_HOMOGENIZE_FIRMWARE_VERSIONS'' (boolEnv homogenize)],
        ct_mounts := [
          mount ''work'' ''/work'' True,
          mount ''hugepages'' ''/dev/hugepages'' False,
          mount ''sys'' ''/sys'' False]\<rparr>)"

definition flash_pod :: "fw_policy \<Rightarrow> string \<Rightarrow> string \<Rightarrow> pod_spec" where
  "flash_pod cr nodeName defaultImage = zero_pod_spec\<lparr>
     ps_restart := ''Never'',
     ps_hostnet := True,
     ps_node := nodeName,
     ps_tolerations := [''Exists''],
     ps_init := [fetch_container cr],
     ps_containers := [flash_container cr defaultImage],
     ps_volumes := [
       empty_volume ''work'',
       host_volume ''hugepages'' ''/dev/hugepages'' None,
       host_volume ''sys'' ''/sys'' None]\<rparr>"

definition buildFlashJob :: "platform \<Rightarrow> fw_policy \<Rightarrow> string \<Rightarrow> string \<Rightarrow> job" where
  "buildFlashJob p cr nodeName defaultImage =
     \<lparr>jb_name = jobName cr nodeName (fs_version (fp_spec cr)),
      jb_ns = operatorNamespace p,
      jb_labels = job_labels cr nodeName,
      jb_owners = [],
      jb_spec = \<lparr>jsp_backoff = Some 0,
        jsp_deadline = Some (flash_timeout cr),
        jsp_ttl = Some 86400,
        jsp_labels = job_labels cr nodeName,
        jsp_pod = flash_pod cr nodeName defaultImage\<rparr>,
      jb_status = zero_job_status\<rparr>"

definition setOwnerRef :: "job \<Rightarrow> fw_policy \<Rightarrow> job" where
  "setOwnerRef j cr = j\<lparr>jb_owners := [
     \<lparr>or_api = ''firmware.tenstorrent.com/v1alpha1'', or_kind = ''TenstorrentFirmwarePolicy'',
      or_name = fp_name cr, or_uid = fp_uid cr, or_controller = True, or_block = True\<rparr>]\<rparr>"

section \<open>Reading a Job\<close>

fun scan_finished :: "job_cond list \<Rightarrow> bool \<times> bool" where
  "scan_finished [] = (False, False)"
| "scan_finished (c # cs) =
     (if jc_status c \<noteq> ConditionTrue then scan_finished cs
      else (case jc_type c of
              JobComplete \<Rightarrow> (True, True)
            | JobSuccessCriteriaMet \<Rightarrow> (True, True)
            | JobFailed \<Rightarrow> (True, False)
            | JobCondOther _ \<Rightarrow> scan_finished cs))"

definition jobFinished :: "job \<Rightarrow> bool \<times> bool" where
  "jobFinished j = scan_finished (js_conds (jb_status j))"

text \<open>The latest transition time among the terminal conditions that hold.\<close>

fun scan_end :: "instant option \<Rightarrow> job_cond list \<Rightarrow> instant option" where
  "scan_end e [] = e"
| "scan_end e (c # cs) =
     (if jc_status c \<noteq> ConditionTrue then scan_end e cs
      else (case jc_type c of
              JobCondOther _ \<Rightarrow> scan_end e cs
            | _ \<Rightarrow> (case e of
                None \<Rightarrow> scan_end (Some (jc_time c)) cs
              | Some t \<Rightarrow> scan_end (if t < jc_time c then Some (jc_time c) else e) cs)))"

definition flashJobDuration :: "job \<Rightarrow> duration \<times> bool" where
  "flashJobDuration j =
     (case js_start (jb_status j) of
        None \<Rightarrow> (0, False)
      | Some st \<Rightarrow>
          (let e = (case js_completion (jb_status j) of
                      None \<Rightarrow> scan_end None (js_conds (jb_status j))
                    | Some t \<Rightarrow> Some t)
           in case e of
                None \<Rightarrow> (0, False)
              | Some t \<Rightarrow> (let d = since st t in if d \<le> 0 then (0, False) else (d, True))))"

section \<open>Facts about names\<close>

lemma length_sanitizeVersion [simp]: "length (sanitizeVersion v) = length v"
  by (simp add: sanitizeVersion_def)

lemma length_jobName:
  "length (jobName cr n v) = min 48 (7 + length (fp_name cr) + length n) + length v + 10"
  by (auto simp: jobName_def Let_def min_def)

text \<open>The hashed text determines the triple, because names of API objects hold no slash.\<close>

lemma append_sep_inject:
  assumes "c \<notin> set a" "c \<notin> set a'" "a @ c # b = a' @ c # b'"
  shows "a = a' \<and> b = b'"
  using assms
proof (induction a arbitrary: a')
  case Nil
  then show ?case by (cases a') auto
next
  case (Cons x a)
  then show ?case by (cases a') auto
qed

lemma job_hash_text_inject:
  assumes "CHR ''/'' \<notin> set c" "CHR ''/'' \<notin> set c'" "CHR ''/'' \<notin> set n" "CHR ''/'' \<notin> set n'"
    "c @ ''/'' @ n @ ''/'' @ v = c' @ ''/'' @ n' @ ''/'' @ v'"
  shows "c = c' \<and> n = n' \<and> v = v'"
proof -
  have "c = c'" "n @ ''/'' @ v = n' @ ''/'' @ v'"
    using append_sep_inject [of "CHR ''/''" c c'] assms by auto
  then show ?thesis using append_sep_inject [of "CHR ''/''" n n' v v'] assms by auto
qed

lemma lower_char_not_upper: "of_char (lower_char c) < (65::nat) \<or> 90 < (of_char (lower_char c) :: nat)"
  by (auto simp: lower_char_def)

section \<open>Facts about finished Jobs\<close>

lemma scan_finished_sound: "scan_finished cs = (c, s) \<Longrightarrow> s \<Longrightarrow> c"
  by (induction cs) (auto split: if_splits job_cond_type.splits)

text \<open>A Job counts as finished exactly when one of its terminal conditions holds.\<close>

definition terminal_cond :: "job_cond \<Rightarrow> bool" where
  "terminal_cond c \<longleftrightarrow> jc_status c = ConditionTrue \<and>
     jc_type c \<in> {JobComplete, JobSuccessCriteriaMet, JobFailed}"

lemma scan_finished_find:
  "scan_finished cs = (case find terminal_cond cs of
     None \<Rightarrow> (False, False) | Some c \<Rightarrow> (True, jc_type c \<noteq> JobFailed))"
  by (induction cs) (auto simp: terminal_cond_def split: job_cond_type.splits)

lemma fst_scan_finished: "fst (scan_finished cs) \<longleftrightarrow> (\<exists>c \<in> set cs. terminal_cond c)"
  by (auto simp: scan_finished_find find_None_iff find_Some_iff split: option.splits)

lemma scan_end_ge: "scan_end e cs = Some t \<Longrightarrow> e = Some u \<Longrightarrow> u \<le> t"
proof (induction e cs arbitrary: u rule: scan_end.induct)
  case (2 e c cs)
  then show ?case by (fastforce split: if_splits job_cond_type.splits)
qed simp

lemma scan_end_None: "scan_end None cs = None \<longleftrightarrow> \<not> (\<exists>c \<in> set cs. terminal_cond c)"
proof (induction cs)
  case (Cons c cs)
  have "scan_end (Some t) cs \<noteq> None" for t
    by (induction "Some t" cs arbitrary: t rule: scan_end.induct) (auto split: job_cond_type.splits)
  with Cons show ?case by (auto simp: terminal_cond_def split: job_cond_type.splits)
qed simp

lemma flashJobDuration_pos: "flashJobDuration j = (d, True) \<Longrightarrow> 0 < d"
  by (auto simp: flashJobDuration_def Let_def split: option.splits if_splits)

end
