(* ===== verification/Metrics.thy ===== *)
theory Metrics
  imports Labels
begin

text \<open>
  \<open>internal/metrics/metrics.go\<close>: the bounded label values, the functions that publish gauges, the
  clean-up of a deleted policy, and \<open>EventDedup\<close>. A metric vector is third-party code: the
  functions here produce the operations they apply, and \<open>registry\<close> states what the properties rely
  on about a vector's series. The mutexes make each function atomic, as it is here.
\<close>

section \<open>Label values\<close>

definition ResultSuccess :: string where [const_defs]: "ResultSuccess = ''success''"
definition ResultError :: string where [const_defs]: "ResultError = ''error''"
definition ResultFailed :: string where [const_defs]: "ResultFailed = ''failed''"
definition OperationCreate :: string where [const_defs]: "OperationCreate = ''create''"
definition OperationUpdate :: string where [const_defs]: "OperationUpdate = ''update''"
definition ReasonPDB :: string where [const_defs]: "ReasonPDB = ''pdb''"
definition MetricDrainTimeout :: string where [const_defs]: "MetricDrainTimeout = ''drain_timeout''"
definition DrainPass1 :: string where [const_defs]: "DrainPass1 = ''pass1''"
definition DrainPass2 :: string where [const_defs]: "DrainPass2 = ''pass2''"
definition InstallModeUnknown :: string where [const_defs]: "InstallModeUnknown = ''unknown''"

section \<open>Counting maps\<close>

text \<open>A \<open>map[K]int\<close> that the code iterates over: an association list with distinct keys.\<close>

fun bump :: "'k \<Rightarrow> ('k \<times> int) list \<Rightarrow> ('k \<times> int) list" where
  "bump k [] = [(k, 1)]"
| "bump k ((k', n) # xs) = (if k' = k then (k', n + 1) # xs else (k', n) # bump k xs)"

lemma map_of_bump:
  "map_of (bump k xs) k' =
     (if k' = k then Some (case map_of xs k of None \<Rightarrow> 1 | Some n \<Rightarrow> n + 1) else map_of xs k')"
  by (induction k xs rule: bump.induct) auto

lemma keys_bump: "fst ` set (bump k xs) = insert k (fst ` set xs)"
  by (induction k xs rule: bump.induct) auto

lemma distinct_bump: "distinct (map fst xs) \<Longrightarrow> distinct (map fst (bump k xs))"
proof (induction k xs rule: bump.induct)
  case (2 k k' n xs)
  then show ?case using keys_bump [of k xs] by (auto simp: image_iff)
qed simp

text \<open>Counting a list on top of initial entries.\<close>

lemma map_of_fold_bump:
  "map_of (fold bump ks xs) k =
     (if k \<in> set ks then Some (int (count_list ks k) + (case map_of xs k of None \<Rightarrow> 0 | Some n \<Rightarrow> n))
      else map_of xs k)"
proof (induction ks arbitrary: xs)
  case (Cons a ks)
  show ?case
    by (simp add: Cons.IH map_of_bump count_list_0_iff split: option.splits)
qed simp

lemma distinct_fold_bump: "distinct (map fst xs) \<Longrightarrow> distinct (map fst (fold bump ks xs))"
  by (induction ks arbitrary: xs) (auto simp: distinct_bump)

section \<open>Gauges\<close>

text \<open>\<open>VersionMode\<close> is the pair of a version and an install mode.\<close>

definition SetNodesByKMDVersion :: "((string \<times> string) \<times> int) list \<Rightarrow> unit io" where
  "SetNodesByKMDVersion counts = do {
     metric (MReset DriverNodesByKMDVersion);
     each (\<lambda>((version, installMode), n).
       (let mode = (if installMode = [] then InstallModeUnknown else installMode)
        in metric (MSet DriverNodesByKMDVersion [version, mode] n))) counts
   }"

definition SetNodesByFWVersion :: "(string \<times> int) list \<Rightarrow> unit io" where
  "SetNodesByFWVersion counts = do {
     metric (MReset FirmwareNodesByFWVersion);
     each (\<lambda>(v, n). metric (MSet FirmwareNodesByFWVersion [v] n)) counts
   }"

definition SetDriverPolicyNodes :: "string \<Rightarrow> (string \<times> int) list \<Rightarrow> unit io" where
  "SetDriverPolicyNodes cr counts =
     each (\<lambda>(state, n). metric (MSet DriverPolicyNodes [cr, state] n)) counts"

definition SetFirmwarePolicyNodes :: "string \<Rightarrow> (string \<times> int) list \<Rightarrow> unit io" where
  "SetFirmwarePolicyNodes cr counts =
     each (\<lambda>(state, n). metric (MSet FirmwarePolicyNodes [cr, state] n)) counts"

definition SetDriverDesiredVersion :: "string \<Rightarrow> string \<Rightarrow> unit io" where
  "SetDriverDesiredVersion cr version = do {
     metric (MDelete DriverPolicyDesiredVersion cr);
     metric (MSet DriverPolicyDesiredVersion [cr, version] 1)
   }"

definition SetFirmwareDesiredVersion :: "string \<Rightarrow> string \<Rightarrow> unit io" where
  "SetFirmwareDesiredVersion cr version = do {
     metric (MDelete FirmwarePolicyDesiredVersion cr);
     metric (MSet FirmwarePolicyDesiredVersion [cr, version] 1)
   }"

definition DriverReconcileSucceeded :: "platform \<Rightarrow> string \<Rightarrow> unit io" where
  "DriverReconcileSucceeded p cr = do {
     t \<leftarrow> now p;
     metric (MSet DriverLastReconcileTimestamp [cr] (t div second))
   }"

definition FirmwareReconcileSucceeded :: "platform \<Rightarrow> string \<Rightarrow> unit io" where
  "FirmwareReconcileSucceeded p cr = do {
     t \<leftarrow> now p;
     metric (MSet FirmwareLastReconcileTimestamp [cr] (t div second))
   }"

definition driver_cr_families :: "family list" where
  "driver_cr_families = [DriverPolicyNodes, DriverPolicyDesiredVersion, DriverDaemonSetOperations,
     DriverPodsEvictedTotal, DriverDrainBlockedTotal, DriverErrorsTotal,
     DriverLastReconcileTimestamp]"

definition firmware_cr_families :: "family list" where
  "firmware_cr_families = [FirmwarePolicyNodes, FirmwarePolicyDesiredVersion,
     FirmwareFlashDuration, FirmwareFlashJobsTotal, FirmwareFlashJobsCreatedTotal,
     FirmwareFlashJobsInFlight, FirmwareDrainBlockedTotal, FirmwarePodsEvictedTotal,
     FirmwareErrorsTotal, FirmwareLastReconcileTimestamp]"

definition DeleteDriverPolicySeries :: "string \<Rightarrow> unit io" where
  "DeleteDriverPolicySeries cr = each (\<lambda>f. metric (MDelete f cr)) driver_cr_families"

definition DeleteFirmwarePolicySeries :: "string \<Rightarrow> unit io" where
  "DeleteFirmwarePolicySeries cr = each (\<lambda>f. metric (MDelete f cr)) firmware_cr_families"

text \<open>The one-line idioms \<open>XErrorsTotal.WithLabelValues(cr, stage).Inc()\<close>.\<close>

abbreviation inc_driver_error :: "string \<Rightarrow> string \<Rightarrow> unit io" where
  "inc_driver_error cr stage \<equiv> metric (MInc DriverErrorsTotal [cr, stage])"

abbreviation inc_firmware_error :: "string \<Rightarrow> string \<Rightarrow> unit io" where
  "inc_firmware_error cr stage \<equiv> metric (MInc FirmwareErrorsTotal [cr, stage])"

section \<open>EventDedup\<close>

type_synonym dedup = "string \<rightharpoonup> string set"

definition NewEventDedup :: dedup where
  "NewEventDedup = Map.empty"

definition FirstSeen :: "dedup \<Rightarrow> string \<Rightarrow> string \<Rightarrow> bool \<times> dedup" where
  "FirstSeen d scope key =
     (let keys = (case d scope of None \<Rightarrow> {} | Some ks \<Rightarrow> ks);
          d = d(scope \<mapsto> keys)
      in if key \<in> keys then (False, d) else (True, d(scope \<mapsto> insert key keys)))"

definition Retain :: "dedup \<Rightarrow> string \<Rightarrow> string list \<Rightarrow> dedup" where
  "Retain d scope keep =
     (case d scope of
        None \<Rightarrow> d
      | Some cur \<Rightarrow>
          (let cur = {k \<in> cur. k \<in> set keep}
           in if cur = {} then d(scope := None) else d(scope \<mapsto> cur)))"

definition Forget :: "dedup \<Rightarrow> string \<Rightarrow> dedup" where
  "Forget d scope = d(scope := None)"

text \<open>The same on the package-level \<open>firmwareEvents\<close>.\<close>

definition events_FirstSeen :: "string \<Rightarrow> string \<Rightarrow> bool io" where
  "events_FirstSeen scope key = do {
     s \<leftarrow> State_Monad.get;
     let (b, d) = FirstSeen (seen s) scope key;
     State_Monad.set (s\<lparr>seen := d\<rparr>);
     State_Monad.return b
   }"

definition events_Retain :: "string \<Rightarrow> string list \<Rightarrow> unit io" where
  "events_Retain scope keep = do {
     s \<leftarrow> State_Monad.get;
     State_Monad.set (s\<lparr>seen := Retain (seen s) scope keep\<rparr>)
   }"

definition events_Forget :: "string \<Rightarrow> unit io" where
  "events_Forget scope = do {
     s \<leftarrow> State_Monad.get;
     State_Monad.set (s\<lparr>seen := Forget (seen s) scope\<rparr>)
   }"

section \<open>Frames\<close>

lemma issues_Metrics [frame_rules]:
  "issues P (SetNodesByKMDVersion c1)" "issues P (SetNodesByFWVersion c2)"
  "issues P (SetDriverPolicyNodes cr c3)" "issues P (SetFirmwarePolicyNodes cr c3)"
  "issues P (SetDriverDesiredVersion cr v)" "issues P (SetFirmwareDesiredVersion cr v)"
  "issues P (DeleteDriverPolicySeries cr)" "issues P (DeleteFirmwarePolicySeries cr)"
  unfolding SetNodesByKMDVersion_def SetNodesByFWVersion_def SetDriverPolicyNodes_def
    SetFirmwarePolicyNodes_def SetDriverDesiredVersion_def SetFirmwareDesiredVersion_def
    DeleteDriverPolicySeries_def DeleteFirmwarePolicySeries_def Let_def
  by (auto intro!: frame_rules split: prod.splits)

lemma issues_ReconcileSucceeded [frame_rules]:
  "P CNow \<Longrightarrow> issues P (DriverReconcileSucceeded p cr)"
  "P CNow \<Longrightarrow> issues P (FirmwareReconcileSucceeded p cr)"
  unfolding DriverReconcileSucceeded_def FirmwareReconcileSucceeded_def by (intro frame_rules; simp)+

lemma issues_dedup [frame_rules]:
  "issues P (events_FirstSeen sc k)" "issues P (events_Retain sc ks)" "issues P (events_Forget sc)"
  by (simp_all add: keeps_def events_FirstSeen_def events_Retain_def events_Forget_def issued_def
        split: prod.split)

section \<open>What a client of the dedup relies on\<close>

text \<open>The contract: \<open>member\<close> is the set of (scope, key) pairs remembered; the first sighting of a pair
  answers true exactly when it is new.\<close>

locale once_per_key =
  fixes first_seen :: "'d \<Rightarrow> string \<Rightarrow> string \<Rightarrow> bool \<times> 'd"
    and retain :: "'d \<Rightarrow> string \<Rightarrow> string list \<Rightarrow> 'd"
    and forget :: "'d \<Rightarrow> string \<Rightarrow> 'd"
    and member :: "'d \<Rightarrow> string \<Rightarrow> string \<Rightarrow> bool"
  assumes first_new: "fst (first_seen d sc k) \<longleftrightarrow> \<not> member d sc k"
    and member_first: "member (snd (first_seen d sc k)) sc' k' \<longleftrightarrow>
          member d sc' k' \<or> (sc' = sc \<and> k' = k)"
    and member_retain: "member (retain d sc keep) sc' k \<longleftrightarrow>
          member d sc' k \<and> (sc' = sc \<longrightarrow> k \<in> set keep)"
    and member_forget: "member (forget d sc) sc' k \<longleftrightarrow> member d sc' k \<and> sc' \<noteq> sc"
begin

text \<open>Feeding a list of keys: the keys reported as new, and the history afterwards.\<close>

fun feed :: "'d \<Rightarrow> string \<Rightarrow> string list \<Rightarrow> string list \<times> 'd" where
  "feed d sc [] = ([], d)"
| "feed d sc (k # ks) =
     (let (b, d) = first_seen d sc k; (ns, d) = feed d sc ks in (if b then k # ns else ns, d))"

lemma member_feed:
  "member (snd (feed d sc ks)) sc' k \<longleftrightarrow> member d sc' k \<or> (sc' = sc \<and> k \<in> set ks)"
proof (induction ks arbitrary: d)
  case (Cons a ks)
  then show ?case
    using member_first [of d sc a] by (auto simp: Let_def split_beta)
qed simp

lemma feed_new:
  "distinct (fst (feed d sc ks)) \<and> set (fst (feed d sc ks)) = {k \<in> set ks. \<not> member d sc k}"
proof (induction ks arbitrary: d)
  case (Cons a ks)
  show ?case
    using Cons.IH [of "snd (first_seen d sc a)"] first_new [of d sc a] member_first [of d sc a sc]
    by (auto simp: Let_def split_beta)
qed simp

text \<open>A condition that persists from one pass to the next, with the keys of the first pass kept,
  is reported in the first pass only.\<close>

lemma second_pass_silent:
  assumes "set ks' \<subseteq> set ks" "set ks \<subseteq> set keep"
  shows "fst (feed (retain (snd (feed d sc ks)) sc keep) sc ks') = []"
proof -
  let ?d = "retain (snd (feed d sc ks)) sc keep"
  have "set (fst (feed ?d sc ks')) = {}"
    using assms feed_new [of ?d sc ks'] by (auto simp: member_retain member_feed)
  then show ?thesis by simp
qed

text \<open>A condition that cleared, and so was not kept, counts again.\<close>

lemma counts_again:
  assumes "k \<notin> set keep"
  shows "fst (first_seen (retain d sc keep) sc k)"
  using assms by (simp add: first_new member_retain)

text \<open>Another scope's history is out of reach.\<close>

lemma scopes_apart:
  assumes "sc \<noteq> sc'"
  shows "member (snd (feed d sc ks)) sc' k = member d sc' k"
    "member (retain d sc keep) sc' k = member d sc' k"
    "member (forget d sc) sc' k = member d sc' k"
  using assms by (auto simp: member_feed member_retain member_forget)

end

definition remembers :: "dedup \<Rightarrow> string \<Rightarrow> string \<Rightarrow> bool" where
  "remembers d sc k \<longleftrightarrow> (\<exists>ks. d sc = Some ks \<and> k \<in> ks)"

interpretation events: once_per_key FirstSeen Retain Forget remembers
  by unfold_locales
    (auto simp: FirstSeen_def Retain_def Forget_def remembers_def Let_def split: option.splits if_splits)

text \<open>The memory stays bounded by what is kept: no scope is left with an empty set.\<close>

definition no_empty_scope :: "dedup \<Rightarrow> bool" where
  "no_empty_scope d \<longleftrightarrow> (\<forall>sc. d sc \<noteq> Some {})"

lemma no_empty_scope_ops:
  "no_empty_scope NewEventDedup"
  "no_empty_scope d \<Longrightarrow> no_empty_scope (snd (FirstSeen d sc k))"
  "no_empty_scope d \<Longrightarrow> no_empty_scope (Retain d sc keep)"
  "no_empty_scope d \<Longrightarrow> no_empty_scope (Forget d sc)"
  by (auto simp: no_empty_scope_def NewEventDedup_def FirstSeen_def Retain_def Forget_def Let_def
      split: option.splits)

section \<open>What is relied on about metric vectors\<close>

text \<open>\<open>touches m f l\<close>: the operation can change the series of vector \<open>f\<close> with label values \<open>l\<close>.\<close>

fun touches :: "mop \<Rightarrow> family \<Rightarrow> string list \<Rightarrow> bool" where
  "touches (MSet f l v) f' l' = (f = f' \<and> l = l')"
| "touches (MInc f l) f' l' = (f = f' \<and> l = l')"
| "touches (MObserve f l d) f' l' = (f = f' \<and> l = l')"
| "touches (MDelete f cr) f' l' = (f = f' \<and> l' \<noteq> [] \<and> hd l' = cr)"
| "touches (MReset f) f' l' = (f = f')"

text \<open>The documented behaviour of a gauge or counter vector: \<open>series ops f l\<close> is the value of a
  series after the operations, \<open>None\<close> when it does not exist.\<close>

locale registry =
  fixes series :: "mop list \<Rightarrow> family \<Rightarrow> string list \<Rightarrow> int option"
  assumes start: "series [] f l = None"
    and set: "series (ops @ [MSet f l v]) f l = Some v"
    and inc: "series (ops @ [MInc f l]) f l = Some (case series ops f l of None \<Rightarrow> 1 | Some n \<Rightarrow> n + 1)"
    and delete: "series (ops @ [MDelete f cr]) f (cr # l') = None"
    and reset: "series (ops @ [MReset f]) f l = None"
    and other: "\<not> touches m f l \<Longrightarrow> series (ops @ [m]) f l = series ops f l"
begin

lemma untouched:
  "\<forall>m \<in> set ms. \<not> touches m f l \<Longrightarrow> series (ops @ ms) f l = series ops f l"
proof (induction ms rule: rev_induct)
  case (snoc m ms)
  then show ?case using other [of m f l "ops @ ms"] by simp
qed simp

lemma gone: "series ops f l = None \<Longrightarrow> \<forall>m \<in> set ms. \<not> touches m f l \<Longrightarrow> series (ops @ ms) f l = None"
  by (simp add: untouched)

end

text \<open>A registry that keeps a table of values is one.\<close>

fun apply_mop :: "(family \<Rightarrow> string list \<Rightarrow> int option) \<Rightarrow> mop \<Rightarrow> family \<Rightarrow> string list \<Rightarrow> int option" where
  "apply_mop r (MSet f l v) = r(f := (r f)(l \<mapsto> v))"
| "apply_mop r (MInc f l) = r(f := (r f)(l \<mapsto> (case r f l of None \<Rightarrow> 1 | Some n \<Rightarrow> n + 1)))"
| "apply_mop r (MObserve f l d) = r(f := (r f)(l \<mapsto> (case r f l of None \<Rightarrow> 1 | Some n \<Rightarrow> n + 1)))"
| "apply_mop r (MDelete f cr) = r(f := (\<lambda>l. if l \<noteq> [] \<and> hd l = cr then None else r f l))"
| "apply_mop r (MReset f) = r(f := (\<lambda>_. None))"

definition table_series :: "mop list \<Rightarrow> family \<Rightarrow> string list \<Rightarrow> int option" where
  "table_series ops = foldl apply_mop (\<lambda>_ _. None) ops"

lemma apply_mop_other: "\<not> touches m f l \<Longrightarrow> apply_mop r m f l = r f l"
  by (cases m) auto

interpretation table: registry table_series
  by unfold_locales (auto simp: table_series_def apply_mop_other)

section \<open>What the publishing functions do to a registry\<close>

lemma final_each_metric:
  "final_of (each (\<lambda>x. metric (f x)) xs) s = s\<lparr>mops := mops s @ map f xs\<rparr>"
  by (induction xs arbitrary: s) simp_all

lemma final_SetNodesByFWVersion:
  "final_of (SetNodesByFWVersion counts) s =
     s\<lparr>mops := mops s @ MReset FirmwareNodesByFWVersion #
        map (\<lambda>(v, n). MSet FirmwareNodesByFWVersion [v] n) counts\<rparr>"
  using final_each_metric [of "\<lambda>(v, n). MSet FirmwareNodesByFWVersion [v] n" counts
      "s\<lparr>mops := mops s @ [MReset FirmwareNodesByFWVersion]\<rparr>"]
  by (simp add: SetNodesByFWVersion_def case_prod_unfold)

lemma final_SetNodesByKMDVersion:
  "final_of (SetNodesByKMDVersion counts) s =
     s\<lparr>mops := mops s @ MReset DriverNodesByKMDVersion #
        map (\<lambda>((v, im), n). MSet DriverNodesByKMDVersion
          [v, if im = [] then InstallModeUnknown else im] n) counts\<rparr>"
  using final_each_metric [of "\<lambda>((v, im), n). MSet DriverNodesByKMDVersion
          [v, if im = [] then InstallModeUnknown else im] n" counts
      "s\<lparr>mops := mops s @ [MReset DriverNodesByKMDVersion]\<rparr>"]
  by (simp add: SetNodesByKMDVersion_def case_prod_unfold Let_def)

lemma final_SetPolicyNodes:
  "final_of (SetDriverPolicyNodes cr counts) s =
     s\<lparr>mops := mops s @ map (\<lambda>(st, n). MSet DriverPolicyNodes [cr, st] n) counts\<rparr>"
  "final_of (SetFirmwarePolicyNodes cr counts) s =
     s\<lparr>mops := mops s @ map (\<lambda>(st, n). MSet FirmwarePolicyNodes [cr, st] n) counts\<rparr>"
  using final_each_metric [of "\<lambda>(st, n). MSet DriverPolicyNodes [cr, st] n" counts s]
    final_each_metric [of "\<lambda>(st, n). MSet FirmwarePolicyNodes [cr, st] n" counts s]
  by (simp_all add: SetDriverPolicyNodes_def SetFirmwarePolicyNodes_def case_prod_unfold)

lemma final_SetDesiredVersion:
  "final_of (SetDriverDesiredVersion cr v) s =
     s\<lparr>mops := mops s @ [MDelete DriverPolicyDesiredVersion cr, MSet DriverPolicyDesiredVersion [cr, v] 1]\<rparr>"
  "final_of (SetFirmwareDesiredVersion cr v) s =
     s\<lparr>mops := mops s @ [MDelete FirmwarePolicyDesiredVersion cr, MSet FirmwarePolicyDesiredVersion [cr, v] 1]\<rparr>"
  by (simp_all add: SetDriverDesiredVersion_def SetFirmwareDesiredVersion_def)

lemma final_DeleteSeries:
  "final_of (DeleteDriverPolicySeries cr) s = s\<lparr>mops := mops s @ map (\<lambda>f. MDelete f cr) driver_cr_families\<rparr>"
  "final_of (DeleteFirmwarePolicySeries cr) s = s\<lparr>mops := mops s @ map (\<lambda>f. MDelete f cr) firmware_cr_families\<rparr>"
  by (simp_all add: DeleteDriverPolicySeries_def DeleteFirmwarePolicySeries_def final_each_metric)

context registry begin

text \<open>Setting a list of series with distinct labels gives each its value.\<close>

lemma set_each:
  assumes "distinct (map fst xs)" "inj_on lab (fst ` set xs)" "(k, n) \<in> set xs"
  shows "series (ops @ map (\<lambda>(k, n). MSet f (lab k) n) xs) f (lab k) = Some n"
  using assms
proof (induction xs rule: rev_induct)
  case (snoc y ys)
  obtain k' n' where y: "y = (k', n')" by (cases y)
  show ?case
  proof (cases "k = k'")
    case True
    with snoc.prems y have "n = n'" by (auto simp: image_iff)
    with True y show ?thesis using set [of "ops @ map (\<lambda>(k, n). MSet f (lab k) n) ys"] by simp
  next
    case False
    with snoc.prems y have kn: "(k, n) \<in> set ys" and "lab k \<noteq> lab k'"
      by (auto simp: inj_on_def image_iff)
    then have "\<not> touches (MSet f (lab k') n') f (lab k)" by auto
    then show ?thesis
      using snoc kn y other [of _ f "lab k" "ops @ map (\<lambda>(k, n). MSet f (lab k) n) ys"]
      by (auto simp: inj_on_def)
  qed
qed simp

lemma delete_all:
  assumes "f \<in> set fs"
  shows "series (ops @ map (\<lambda>f. MDelete f cr) fs) f (cr # l) = None"
  using assms
proof (induction fs rule: rev_induct)
  case (snoc g gs)
  show ?case
  proof (cases "f = g")
    case True
    then show ?thesis using delete [of "ops @ map (\<lambda>f. MDelete f cr) gs" f cr l] by simp
  next
    case False
    then show ?thesis
      using snoc other [of "MDelete g cr" f "cr # l" "ops @ map (\<lambda>f. MDelete f cr) gs"] by simp
  qed
qed simp

end

end
