(* ===== verification/FirmwareNode.thy ===== *)
theory FirmwareNode
  imports FlashJob Metrics
begin

text \<open>
  The per-node part of \<open>internal/controller/firmware_policy_controller.go\<close> with the helpers of
  \<open>internal/controller/drain.go\<close>: which nodes a policy matches and owns, how a node's state is read
  off the cluster (\<open>observeNode\<close>), and the one action that moves it on (\<open>advanceNode\<close>). A function
  that writes through a \<open>*corev1.Node\<close> or \<open>*NodeStatus\<close> returns the object's value after the call.
\<close>

section \<open>drain.go\<close>

definition drainEnabled :: "fw_policy \<Rightarrow> bool" where
  "drainEnabled cr =
     (case fd_enable (fu_drain (fs_upgrade (fp_spec cr))) of None \<Rightarrow> True | Some b \<Rightarrow> b)"

fun isInFlight :: "node_state \<Rightarrow> bool" where
  "isInFlight NodeStateCordoning = True"
| "isInFlight NodeStateDraining = True"
| "isInFlight NodeStateFlashing = True"
| "isInFlight NodeStateUncordoning = True"
| "isInFlight _ = False"

fun isAdvanceable :: "node_state \<Rightarrow> bool" where
  "isAdvanceable NodeStatePending = True"
| "isAdvanceable NodeStateCordoning = True"
| "isAdvanceable NodeStateDraining = True"
| "isAdvanceable NodeStateUncordoning = True"
| "isAdvanceable _ = False"

definition drainTimeout :: "fw_policy \<Rightarrow> duration" where
  "drainTimeout cr =
     (let t = sint (fd_timeout (fu_drain (fs_upgrade (fp_spec cr))));
          t = (if t \<le> 0 then 600 else t)
      in t * second)"

definition firmwareCordonOpts :: "string \<Rightarrow> cordon_opts" where
  "firmwareCordonOpts crName =
     \<lparr>co_by = AnnoCordonedBy, co_at = AnnoCordonedAt, co_owner = crName\<rparr>"

definition cordonNode :: "platform \<Rightarrow> node \<Rightarrow> string \<Rightarrow> (err option \<times> node) io" where
  "cordonNode p node crName = CordonNode p node (firmwareCordonOpts crName)"

definition uncordonNode :: "platform \<Rightarrow> node \<Rightarrow> string \<Rightarrow> (err option \<times> node) io" where
  "uncordonNode p node crName = UncordonNode p node (firmwareCordonOpts crName)"

definition cordonElapsed :: "platform \<Rightarrow> node \<Rightarrow> duration io" where
  "cordonElapsed p node = CordonElapsed p node AnnoCordonedAt"

definition listDevicePodsOnNode :: "platform \<Rightarrow> string \<Rightarrow> bool \<Rightarrow> (err + pod list) io" where
  "listDevicePodsOnNode p nodeName force =
     ListDevicePodsOnNode p nodeName (operatorNamespace p) force (Some PodUsesTenstorrentDevice)"

definition evictPod :: "platform \<Rightarrow> pod \<Rightarrow> evict_err option io" where
  "evictPod p pd = EvictPod p pd"

interpretation fw_cordon: cordon_protocol firmwareCordonOpts AnnoCordonedBy AnnoCordonedAt
  by unfold_locales (simp_all add: firmwareCordonOpts_def const_defs)

section \<open>Matching and ownership\<close>

text \<open>\<open>time.Duration.String\<close> for a whole number of seconds, at least one.\<close>

definition show_duration :: "duration \<Rightarrow> string" where
  "show_duration d =
     (let n = d div second; h = n div 3600; m = n div 60 mod 60; s = n mod 60
      in (if h > 0 then show_int h @ ''h'' else []) @
         (if n div 60 > 0 then show_int m @ ''m'' else []) @ show_int s @ ''s'')"

fun filter_matched :: "platform \<Rightarrow> (labels \<Rightarrow> bool) \<Rightarrow> node list \<Rightarrow> node list" where
  "filter_matched p sel [] = []"
| "filter_matched p sel (n # ns) =
     (let l = nd_labels n in
      if \<not> sel l then filter_matched p sel ns
      else if sget l LabelSkip = ''true'' then filter_matched p sel ns
      else if requireTenstorrentLabel p \<and> sget l LabelTenstorrentPresent \<noteq> ''true''
        then filter_matched p sel ns
      else n # filter_matched p sel ns)"

definition matchedNodes :: "platform \<Rightarrow> fw_policy \<Rightarrow> (err + node list) io" where
  "matchedNodes p cr =
     (case lib_selector (pf_lib p) (EffectiveNodeAffinity (fp_spec cr)) of
        Inl e \<Rightarrow> State_Monad.return (Inl (wrap ''invalid nodeAffinity'' e))
      | Inr sel \<Rightarrow> do {
          r \<leftarrow> list_nodes p;
          State_Monad.return (case r of
            Inl e \<Rightarrow> Inl e
          | Inr items \<Rightarrow> Inr (filter_matched p sel items))
        })"

fun partitionByOwnership :: "node list \<Rightarrow> string \<Rightarrow> node list \<times> node list" where
  "partitionByOwnership [] crName = ([], [])"
| "partitionByOwnership (n # ns) crName =
     (let owner = sget (nd_labels n) LabelOwnerCR;
          (owned, conflicts) = partitionByOwnership ns crName
      in if owner = [] \<or> owner = crName then (n # owned, conflicts) else (owned, n # conflicts))"

section \<open>Observing a node\<close>

text \<open>The waiting reason of the flash Job's pod: the first non-empty one over the pods in order,
  container statuses before init container statuses.\<close>

fun first_waiting :: "container_status list \<Rightarrow> string option" where
  "first_waiting [] = None"
| "first_waiting (cs # css) =
     (case cs_waiting cs of
        None \<Rightarrow> first_waiting css
      | Some r \<Rightarrow> (if r \<noteq> [] then Some r else first_waiting css))"

fun pods_waiting :: "pod list \<Rightarrow> string" where
  "pods_waiting [] = []"
| "pods_waiting (pd # pds) =
     (case first_waiting (pd_cstat pd) of
        Some r \<Rightarrow> r
      | None \<Rightarrow> (case first_waiting (pd_istat pd) of Some r \<Rightarrow> r | None \<Rightarrow> pods_waiting pds))"

definition flasherWaitingReason :: "platform \<Rightarrow> job \<Rightarrow> string io" where
  "flasherWaitingReason p job =
     (if sget (jb_labels job) JobLabelCR = [] \<or> sget (jb_labels job) JobLabelNode = []
      then State_Monad.return []
      else do {
        r \<leftarrow> list_pods p (Some (jb_ns job))
               [(JobLabelCR, sget (jb_labels job) JobLabelCR),
                (JobLabelNode, sget (jb_labels job) JobLabelNode)];
        State_Monad.return (case r of Inl e \<Rightarrow> [] | Inr pods \<Rightarrow> pods_waiting pods)
      })"

text \<open>The status the observation starts from.\<close>

definition base_status :: "node \<Rightarrow> node_status" where
  "base_status node =
     \<lparr>ns_name = nd_name node, ns_state = NodeStatePending, ns_reason = [],
      ns_current = sget (nd_annos node) AnnoCurrentVersion,
      ns_job = sget (nd_annos node) AnnoLastFlashJob, ns_msg = [], ns_time = 0\<rparr>"

text \<open>Lines 413-448: the Job exists.\<close>

definition observe_job :: "platform \<Rightarrow> fw_policy \<Rightarrow> node \<Rightarrow> job \<Rightarrow> node_status io" where
  "observe_job p cr node job =
     (let ns = (base_status node)\<lparr>ns_job := jb_name job\<rparr>;
          (completed, succeeded) = jobFinished job
      in if completed \<and> succeeded then
           State_Monad.return
             (if drainEnabled cr \<and> sget (nd_annos node) AnnoCordonedBy = fp_name cr
              then ns\<lparr>ns_state := NodeStateUncordoning, ns_reason := ReasonUncordoning\<rparr>
              else ns\<lparr>ns_state := NodeStateDone, ns_reason := ReasonFlashSucceeded\<rparr>)
         else if completed \<and> \<not> succeeded then
           State_Monad.return (ns\<lparr>ns_state := NodeStateFailed, ns_reason := ReasonFlashJobFailed,
             ns_msg := ''Flash Job failed; see Job logs''\<rparr>)
         else do {
           wr \<leftarrow> flasherWaitingReason p job;
           let ns = ns\<lparr>ns_state := NodeStateFlashing, ns_reason := ReasonFlashing\<rparr>;
           State_Monad.return
             (if wr = ''ImagePullBackOff'' \<or> wr = ''ErrImagePull''
              then ns\<lparr>ns_reason := ReasonFlasherImagePullFailed,
                ns_msg := ''kubelet: '' @ wr @
                  '' (check the flasher image and imagePullSecrets on the operator ServiceAccount)''\<rparr>
              else ns)
         })"

text \<open>Lines 474-504: cordoned by us, are there device pods left?\<close>

definition observe_drain :: "platform \<Rightarrow> fw_policy \<Rightarrow> node \<Rightarrow> node_status io" where
  "observe_drain p cr node = do {
     r \<leftarrow> listDevicePodsOnNode p (nd_name node) (fd_force (fu_drain (fs_upgrade (fp_spec cr))));
     case r of
       Inl e \<Rightarrow> State_Monad.return ((base_status node)\<lparr>ns_state := NodeStateDraining,
         ns_reason := ReasonTransientAPIError,
         ns_msg := ''transient: list device pods: '' @ emsg e\<rparr>)
     | Inr devicePods \<Rightarrow>
         (if devicePods \<noteq> [] then do {
            elapsed \<leftarrow> cordonElapsed p node;
            State_Monad.return
              (if elapsed > drainTimeout cr
               then (base_status node)\<lparr>ns_state := NodeStateFailed, ns_reason := ReasonDrainTimeout,
                 ns_msg := MessageDrainTimeoutPrefix @ show_duration (drainTimeout cr) @
                   ''; blocking pods: '' @
                   join '','' (map (\<lambda>pd. pd_ns pd @ ''/'' @ pd_name pd) devicePods)\<rparr>
               else (base_status node)\<lparr>ns_state := NodeStateDraining, ns_reason := ReasonDraining,
                 ns_msg := ''waiting for '' @ show_nat (length devicePods) @ '' pod(s) to evict''\<rparr>)
          }
          else State_Monad.return (base_status node))
   }"

definition observeNode :: "platform \<Rightarrow> fw_policy \<Rightarrow> node \<Rightarrow> node_status io" where
  "observeNode p cr node = do {
     r \<leftarrow> get_job p (operatorNamespace p) (jobName cr (nd_name node) (fs_version (fp_spec cr)));
     (case r of
        Inr job \<Rightarrow> observe_job p cr node job
      | Inl e \<Rightarrow>
          if ekind e \<noteq> NotFound then
            State_Monad.return ((base_status node)\<lparr>ns_state := NodeStatePending,
              ns_reason := ReasonTransientAPIError,
              ns_msg := ''transient: lookup job: '' @ emsg e\<rparr>)
          else if \<not> drainEnabled cr then State_Monad.return (base_status node)
          else if \<not> nd_unsched node then
            State_Monad.return ((base_status node)\<lparr>ns_state := NodeStateCordoning,
              ns_reason := ReasonCordoning\<rparr>)
          else if sget (nd_annos node) AnnoCordonedBy \<noteq> fp_name cr then
            State_Monad.return ((base_status node)\<lparr>ns_state := NodeStatePending,
              ns_reason := ReasonExternalCordon, ns_msg := MessageExternalCordon\<rparr>)
          else observe_drain p cr node)
   }"

section \<open>Node writes\<close>

definition labelNode :: "platform \<Rightarrow> node \<Rightarrow> (string \<times> string) list \<Rightarrow> (err option \<times> node) io" where
  "labelNode p node kv = patch_node p node (node\<lparr>nd_labels := put_all (nd_labels node) kv\<rparr>)"

definition annotateNode :: "platform \<Rightarrow> node \<Rightarrow> (string \<times> string) list \<Rightarrow> (err option \<times> node) io" where
  "annotateNode p node kv = patch_node p node (node\<lparr>nd_annos := put_all (nd_annos node) kv\<rparr>)"

definition claimOwnership :: "platform \<Rightarrow> node \<Rightarrow> string \<Rightarrow> (err option \<times> node) io" where
  "claimOwnership p node crName =
     (if sget (nd_labels node) LabelOwnerCR = crName then State_Monad.return (None, node)
      else labelNode p node [(LabelOwnerCR, crName)])"

fun findNode :: "node list \<Rightarrow> string \<Rightarrow> node option" where
  "findNode [] name = None"
| "findNode (n # ns) name = (if nd_name n = name then Some n else findNode ns name)"

text \<open>Writing through the pointer \<open>findNode\<close> returned: the first node of that name.\<close>

fun store_node :: "node list \<Rightarrow> string \<Rightarrow> node \<Rightarrow> node list" where
  "store_node [] name n' = []"
| "store_node (n # ns) name n' =
     (if nd_name n = name then n' # ns else n # store_node ns name n')"

section \<open>Advancing a node\<close>

text \<open>The outcome of \<open>advanceNode\<close> and \<open>spawnFlashJob\<close>: the two results, and the node and status
  behind the pointers.\<close>

type_synonym advance = "bool \<times> err option \<times> node \<times> node_status"

definition mark_flashing :: "node_status \<Rightarrow> string \<Rightarrow> node_status" where
  "mark_flashing ns jobname =
     ns\<lparr>ns_state := NodeStateFlashing, ns_reason := ReasonFlashing, ns_job := jobname\<rparr>"

definition spawnFlashJob :: "platform \<Rightarrow> fw_policy \<Rightarrow> node \<Rightarrow> node_status \<Rightarrow> advance io" where
  "spawnFlashJob p cr node ns = do {
     let job = setOwnerRef (buildFlashJob p cr (nd_name node) (defaultFlasherImageFromEnv p)) cr;
     r \<leftarrow> create_job p job;
     (case r of
        Inl e \<Rightarrow>
          if ekind e = AlreadyExists
          then State_Monad.return (True, None, node, mark_flashing ns (jb_name job))
          else do {
            metric (MInc FirmwareFlashJobsCreatedTotal [fp_name cr, ResultError]);
            inc_firmware_error (fp_name cr) ''create_flash_job'';
            State_Monad.return (False, Some (wrap ''create flash job'' e), node, ns)
          }
      | Inr job \<Rightarrow> do {
          metric (MInc FirmwareFlashJobsCreatedTotal [fp_name cr, ResultSuccess]);
          let ns = mark_flashing ns (jb_name job);
          (e, node) \<leftarrow> annotateNode p node
            [(AnnoDesiredVersion, fs_version (fp_spec cr)), (AnnoLastFlashJob, jb_name job)];
          (case e of
             Some e \<Rightarrow> State_Monad.return (False, Some (wrap ''annotate node'' e), node, ns)
           | None \<Rightarrow> do {
               (e, node) \<leftarrow> labelNode p node
                 [(LabelUpgradeState, node_state_str NodeStateFlashing)];
               (case e of
                  Some e \<Rightarrow> State_Monad.return (False, Some (wrap ''label node'' e), node, ns)
                | None \<Rightarrow> State_Monad.return (True, None, node, ns))
             })
        })
   }"

text \<open>Lines 617-638: the eviction loop; a PDB refusal is noted and the loop goes on, any other
  error ends it.\<close>

fun evict_device_pods ::
  "platform \<Rightarrow> fw_policy \<Rightarrow> node_status \<Rightarrow> pod list \<Rightarrow> (err option \<times> node_status) io" where
  "evict_device_pods p cr ns [] = State_Monad.return (None, ns)"
| "evict_device_pods p cr ns (pd # pds) = do {
     r \<leftarrow> evictPod p pd;
     (case r of
        Some (ErrEvictionBlocked _) \<Rightarrow> do {
          metric (MInc FirmwareDrainBlockedTotal [fp_name cr, ReasonPDB]);
          evict_device_pods p cr
            (ns\<lparr>ns_reason := ReasonEvictionBlocked,
                ns_msg := ''eviction of '' @ pd_ns pd @ ''/'' @ pd_name pd @
                  '' blocked by PDB; will retry''\<rparr>) pds
        }
      | Some (EvictFailed e) \<Rightarrow>
          State_Monad.return (Some (wrap (''evict '' @ pd_ns pd @ ''/'' @ pd_name pd) e), ns)
      | None \<Rightarrow> do {
          metric (MInc FirmwarePodsEvictedTotal [fp_name cr]);
          evict_device_pods p cr ns pds
        })
   }"

text \<open>The dispatch on the observed state (lines 599-656).\<close>

definition advance_state :: "platform \<Rightarrow> fw_policy \<Rightarrow> node \<Rightarrow> node_status \<Rightarrow> advance io" where
  "advance_state p cr node ns =
     (case ns_state ns of
        NodeStateCordoning \<Rightarrow> do {
          (e, node) \<leftarrow> cordonNode p node (fp_name cr);
          State_Monad.return (case e of
            Some e \<Rightarrow> (False, Some (wrap ''cordon'' e), node, ns)
          | None \<Rightarrow> (True, None, node, ns))
        }
      | NodeStateDraining \<Rightarrow> do {
          r \<leftarrow> listDevicePodsOnNode p (nd_name node)
                 (fd_force (fu_drain (fs_upgrade (fp_spec cr))));
          (case r of
             Inl e \<Rightarrow> State_Monad.return (False, Some (wrap ''list device pods'' e), node, ns)
           | Inr pods \<Rightarrow> do {
               (e, ns) \<leftarrow> evict_device_pods p cr ns pods;
               State_Monad.return (case e of
                 Some e \<Rightarrow> (False, Some e, node, ns)
               | None \<Rightarrow> (True, None, node, ns))
             })
        }
      | NodeStatePending \<Rightarrow> spawnFlashJob p cr node ns
      | NodeStateUncordoning \<Rightarrow> do {
          (e, node) \<leftarrow> uncordonNode p node (fp_name cr);
          State_Monad.return (case e of
            Some e \<Rightarrow> (False, Some (wrap ''uncordon'' e), node, ns)
          | None \<Rightarrow> (True, None, node, ns))
        }
      | _ \<Rightarrow> State_Monad.return (False, None, node, ns))"

definition advanceNode :: "platform \<Rightarrow> fw_policy \<Rightarrow> node \<Rightarrow> node_status \<Rightarrow> advance io" where
  "advanceNode p cr node ns = do {
     (e, node) \<leftarrow> claimOwnership p node (fp_name cr);
     (case e of
        Some e \<Rightarrow> State_Monad.return (False, Some (wrap ''claim ownership'' e), node, ns)
      | None \<Rightarrow> advance_state p cr node ns)
   }"

text \<open>Jobs of a policy, and how many have no terminal condition.\<close>

definition jobsForCR :: "platform \<Rightarrow> fw_policy \<Rightarrow> (err + job list) io" where
  "jobsForCR p cr = list_jobs p (operatorNamespace p) [(JobLabelCR, fp_name cr)]"

fun countInFlightJobs :: "job list \<Rightarrow> nat" where
  "countInFlightJobs [] = 0"
| "countInFlightJobs (j # js) =
     (let (completed, _) = jobFinished j
      in if \<not> completed then Suc (countInFlightJobs js) else countInFlightJobs js)"

section \<open>What the node functions ask of the API server\<close>

lemma issues_labelNode:
  "(\<And>new e. node_patch (fst ` set kv) {} False node new \<Longrightarrow> P (CPatchNode node new e)) \<Longrightarrow>
   issues P (labelNode p node kv)"
  unfolding labelNode_def by (intro frame_rules) (auto simp: node_patch_def put_all_other)

lemma issues_annotateNode:
  "(\<And>new e. node_patch {} (fst ` set kv) False node new \<Longrightarrow> P (CPatchNode node new e)) \<Longrightarrow>
   issues P (annotateNode p node kv)"
  unfolding annotateNode_def by (intro frame_rules) (auto simp: node_patch_def put_all_other)

lemma issues_claimOwnership:
  "(\<And>new e. node_patch {LabelOwnerCR} {} False node new \<Longrightarrow> P (CPatchNode node new e)) \<Longrightarrow>
   issues P (claimOwnership p node crName)"
  unfolding claimOwnership_def by (auto intro!: frame_rules issues_labelNode)

lemma issues_firmware_reads [frame_rules]:
  "P CListNodes \<Longrightarrow> issues P (matchedNodes p cr)"
  "(\<And>ns sel. P (CListPods (Some ns) sel)) \<Longrightarrow> issues P (flasherWaitingReason p j)"
  "(\<And>ns sel. P (CListJobs ns sel)) \<Longrightarrow> issues P (jobsForCR p cr)"
  "P CNow \<Longrightarrow> issues P (cordonElapsed p node)"
  "P (CListPods None []) \<Longrightarrow> issues P (listDevicePodsOnNode p nodeName force)"
  unfolding matchedNodes_def flasherWaitingReason_def jobsForCR_def cordonElapsed_def
    listDevicePodsOnNode_def
  by (intro frame_rules; simp)+

lemma issues_evictPod [frame_rules]:
  "(\<And>e. P (CEvict (pd_ns pd) (pd_name pd) e)) \<Longrightarrow> issues P (evictPod p pd)"
  unfolding evictPod_def by (intro frame_rules)

text \<open>An observation only reads.\<close>

lemma issues_observeNode:
  assumes "\<And>c. read_call c \<Longrightarrow> P c"
  shows "issues P (observeNode p cr node)"
  using assms unfolding observeNode_def observe_job_def observe_drain_def Let_def
  by (intro frame_rules; simp)+

lemma issues_evict_device_pods:
  assumes "\<And>pd e. pd \<in> set pds \<Longrightarrow> P (CEvict (pd_ns pd) (pd_name pd) e)"
  shows "issues P (evict_device_pods p cr ns pds)"
  using assms
proof (induction pds arbitrary: ns)
  case Nil
  then show ?case by (auto intro!: frame_rules)
next
  case (Cons pd pds)
  show ?case
    unfolding evict_device_pods.simps
    by (auto intro!: frame_rules Cons split: option.splits evict_err.splits)
qed

section \<open>Counting the Jobs a run creates\<close>

fun job_created :: "call \<Rightarrow> bool" where
  "job_created (CCreateJob j None) = True"
| "job_created _ = False"

definition jobs_created :: "sys \<Rightarrow> nat" where
  "jobs_created s = length (filter job_created (hist s))"

lemma jobs_created_issued: "issued (\<lambda>c. \<not> job_created c) s t \<Longrightarrow> jobs_created t = jobs_created s"
  unfolding issued_def jobs_created_def
  by (auto simp: filter_empty_conv list_all_iff)

lemma jobs_created_issues:
  "issues (\<lambda>c. \<not> job_created c) m \<Longrightarrow> jobs_created (final_of m s) = jobs_created s"
  by (simp add: keeps_def jobs_created_issued)

lemma no_job_labelNode: "issues (\<lambda>c. \<not> job_created c) (labelNode p node kv)"
  by (rule issues_labelNode) simp

lemma no_job_annotateNode: "issues (\<lambda>c. \<not> job_created c) (annotateNode p node kv)"
  by (rule issues_annotateNode) simp

text \<open>A Job that the API server accepted always shows in the node's status, whichever of the
  following patches fails.\<close>

lemma spawn_cost:
  assumes "result_of (spawnFlashJob p cr node ns) s = (adv, e, node', ns')"
  shows "jobs_created (final_of (spawnFlashJob p cr node ns) s) \<le> jobs_created s + 1"
    "jobs_created (final_of (spawnFlashJob p cr node ns) s) = jobs_created s \<or>
     ns_state ns' = NodeStateFlashing"
    "adv \<Longrightarrow> ns_state ns' = NodeStateFlashing"
proof -
  let ?job = "setOwnerRef (buildFlashJob p cr (nd_name node) (defaultFlasherImageFromEnv p)) cr"
  let ?r = "srv_create_job (pf_writes p) (hist s) ?job"
  have base: "jobs_created (t\<lparr>hist := hist t @ [c], mops := x\<rparr>) =
      jobs_created t + (if job_created c then 1 else 0)" for t c x
    by (simp add: jobs_created_def)
  have base': "jobs_created (t\<lparr>hist := hist t @ [c]\<rparr>) =
      jobs_created t + (if job_created c then 1 else 0)" for t c
    by (simp add: jobs_created_def)
  note step = jobs_created_issues [OF no_job_labelNode] jobs_created_issues [OF no_job_annotateNode]
  have "jobs_created (final_of (spawnFlashJob p cr node ns) s) =
      jobs_created s + (case ?r of Inl _ \<Rightarrow> 0 | Inr _ \<Rightarrow> 1) \<and>
      (adv \<or> (\<exists>j. ?r = Inr j) \<longrightarrow> ns_state ns' = NodeStateFlashing)"
    using assms
    by (auto simp: spawnFlashJob_def create_job_def Let_def mark_flashing_def step base base'
        split: sum.splits prod.splits option.splits if_splits)
  then show "jobs_created (final_of (spawnFlashJob p cr node ns) s) \<le> jobs_created s + 1"
    "jobs_created (final_of (spawnFlashJob p cr node ns) s) = jobs_created s \<or>
     ns_state ns' = NodeStateFlashing"
    "adv \<Longrightarrow> ns_state ns' = NodeStateFlashing"
    by (auto split: sum.splits)
qed

lemma no_job_claimOwnership: "issues (\<lambda>c. \<not> job_created c) (claimOwnership p node crName)"
  by (rule issues_claimOwnership) simp

lemma no_job_advance_state:
  "ns_state ns \<noteq> NodeStatePending \<Longrightarrow> issues (\<lambda>c. \<not> job_created c) (advance_state p cr node ns)"
  unfolding advance_state_def cordonNode_def uncordonNode_def
  by (cases "ns_state ns")
    (auto intro!: frame_rules issues_CordonNode issues_UncordonNode issues_evict_device_pods)

lemma advance_cost:
  assumes "result_of (advanceNode p cr node ns) s = (adv, e, node', ns')"
  shows "jobs_created (final_of (advanceNode p cr node ns) s) \<le>
      jobs_created s + (if ns_state ns = NodeStatePending \<and> ns_state ns' = NodeStateFlashing then 1 else 0)"
proof -
  obtain ce cn where c: "result_of (claimOwnership p node (fp_name cr)) s = (ce, cn)"
    by (meson surj_pair)
  define t where "t = final_of (claimOwnership p node (fp_name cr)) s"
  have t: "jobs_created t = jobs_created s"
    unfolding t_def by (rule jobs_created_issues [OF no_job_claimOwnership])
  have run: "run_state (advanceNode p cr node ns) s =
      (case ce of Some e \<Rightarrow> ((False, Some (wrap ''claim ownership'' e), cn, ns), t)
       | None \<Rightarrow> run_state (advance_state p cr cn ns) t)"
    by (simp add: advanceNode_def c t_def run_state_eq split: option.splits)
  show ?thesis
  proof (cases ce)
    case (Some a)
    then show ?thesis using run t assms by (simp add: result_of_def final_of_def)
  next
    case None
    then have fin: "final_of (advanceNode p cr node ns) s = final_of (advance_state p cr cn ns) t"
      and res: "result_of (advance_state p cr cn ns) t = (adv, e, node', ns')"
      using run assms by (simp_all add: result_of_def final_of_def)
    show ?thesis
    proof (cases "ns_state ns = NodeStatePending")
      case True
      with res have "result_of (spawnFlashJob p cr cn ns) t = (adv, e, node', ns')"
        by (simp add: advance_state_def)
      from spawn_cost [OF this] True t fin show ?thesis by (auto simp: advance_state_def)
    next
      case False
      then show ?thesis
        using jobs_created_issues [OF no_job_advance_state [OF False], of p cr cn t] t fin by simp
    qed
  qed
qed

text \<open>The status keeps its node's name.\<close>

lemma evict_device_pods_name:
  "ns_name (snd (result_of (evict_device_pods p cr ns pds) s)) = ns_name ns"
proof (induction pds arbitrary: ns s)
  case (Cons pd pds)
  then show ?case by (auto split: option.splits evict_err.splits)
qed simp

lemma advance_name:
  assumes "result_of (advanceNode p cr node ns) s = (adv, e, node', ns')"
  shows "ns_name ns' = ns_name ns"
proof -
  have spawn: "ns_name (snd (snd (snd (result_of (spawnFlashJob p cr n ns) t)))) = ns_name ns" for n t
    by (auto simp: spawnFlashJob_def Let_def mark_flashing_def split: sum.splits prod.splits option.splits)
  have "ns_name (snd (snd (snd (result_of (advance_state p cr n ns) t)))) = ns_name ns" for n t
    using spawn [of n t] evict_device_pods_name [of p cr ns]
    by (auto simp: advance_state_def split: node_state.splits option.splits sum.splits prod.splits)
      (metis snd_conv)+
  then show ?thesis
    using assms by (auto simp: advanceNode_def split: prod.splits option.splits) (metis snd_conv)+
qed

end
