(* ===== verification/TestBed.thy ===== *)
theory TestBed
  imports Drain
begin

text \<open>
  A concrete platform and concrete objects, on which the properties are evaluated: a server that
  answers every read from fixed lists and accepts every write as sent.
\<close>

definition lookup_by :: "('a \<Rightarrow> bool) \<Rightarrow> 'a list \<Rightarrow> err + 'a" where
  "lookup_by f xs = (case find f xs of None \<Rightarrow> Inl (Err NotFound ''not found'') | Some x \<Rightarrow> Inr x)"

definition testbed :: "node list \<Rightarrow> pod list \<Rightarrow> job list \<Rightarrow> daemonset list \<Rightarrow> platform" where
  "testbed nodes pods jobs dss = \<lparr>
     pf_env = (\<lambda>_. None), pf_recorder = True, pf_now = (\<lambda>h. 0),
     pf_lib = \<lparr>lib_selector = (\<lambda>sel. Inr (\<lambda>l. True)), lib_parse = (\<lambda>raw. Inr (\<lambda>l. True)),
       lib_set_condition = (\<lambda>cs c. filter (\<lambda>x. mc_type x \<noteq> mc_type c) cs @ [c]),
       lib_ds_json = (\<lambda>ps us. [])\<rparr>,
     pf_reads = \<lparr>srv_get_fw = (\<lambda>h n. Inl (Err NotFound n)), srv_get_drv = (\<lambda>h n. Inl (Err NotFound n)),
       srv_get_node = (\<lambda>h n. lookup_by (\<lambda>x. nd_name x = n) nodes),
       srv_get_job = (\<lambda>h ns n. lookup_by (\<lambda>x. jb_ns x = ns \<and> jb_name x = n) jobs),
       srv_get_ds = (\<lambda>h ns n. lookup_by (\<lambda>x. dm_ns x = ns \<and> dm_name x = n) dss),
       srv_list_nodes = (\<lambda>h. Inr nodes),
       srv_list_pods = (\<lambda>h ns sel. Inr pods),
       srv_list_jobs = (\<lambda>h ns sel. Inr jobs),
       srv_list_fw = (\<lambda>h. Inr []), srv_list_drv = (\<lambda>h. Inr [])\<rparr>,
     pf_writes = \<lparr>srv_create_job = (\<lambda>h j. Inr j), srv_create_ds = (\<lambda>h d. Inr d),
       srv_update_ds = (\<lambda>h d. Inr d), srv_patch_node = (\<lambda>h base new. Inr new),
       srv_evict = (\<lambda>h ns n. Inr ()), srv_update_fw = (\<lambda>h c. Inr c),
       srv_update_drv = (\<lambda>h c. Inr c)\<rparr>\<rparr>"

lemma testbed_accepts [simp]: "accepts_patches (testbed nodes pods jobs dss)"
  by (simp add: accepts_patches_def testbed_def)

lemma testbed_reads [simp]:
  "srv_get_job (pf_reads (testbed nodes pods jobs dss)) h ns n =
     lookup_by (\<lambda>x. jb_ns x = ns \<and> jb_name x = n) jobs"
  "srv_get_node (pf_reads (testbed nodes pods jobs dss)) h n = lookup_by (\<lambda>x. nd_name x = n) nodes"
  "srv_get_ds (pf_reads (testbed nodes pods jobs dss)) h ns n =
     lookup_by (\<lambda>x. dm_ns x = ns \<and> dm_name x = n) dss"
  "srv_list_nodes (pf_reads (testbed nodes pods jobs dss)) h = Inr nodes"
  "srv_list_pods (pf_reads (testbed nodes pods jobs dss)) h ns' sel = Inr pods"
  "srv_list_jobs (pf_reads (testbed nodes pods jobs dss)) h ns sel = Inr jobs"
  "pf_now (testbed nodes pods jobs dss) h = 0"
  "pf_env (testbed nodes pods jobs dss) k = None"
  "pf_recorder (testbed nodes pods jobs dss)"
  "lib_selector (pf_lib (testbed nodes pods jobs dss)) sel' = Inr (\<lambda>l. True)"
  "lib_parse (pf_lib (testbed nodes pods jobs dss)) raw = Inr (\<lambda>l. True)"
  by (simp_all add: testbed_def)

lemma testbed_writes [simp]:
  "srv_create_job (pf_writes (testbed nodes pods jobs dss)) h j = Inr j"
  "srv_create_ds (pf_writes (testbed nodes pods jobs dss)) h d = Inr d"
  "srv_update_ds (pf_writes (testbed nodes pods jobs dss)) h d = Inr d"
  "srv_patch_node (pf_writes (testbed nodes pods jobs dss)) h base new = Inr new"
  "srv_evict (pf_writes (testbed nodes pods jobs dss)) h ns n = Inr ()"
  "srv_update_fw (pf_writes (testbed nodes pods jobs dss)) h c = Inr c"
  "srv_update_drv (pf_writes (testbed nodes pods jobs dss)) h dc = Inr dc"
  by (simp_all add: testbed_def)

lemma testbed_env [simp]:
  "operatorNamespace (testbed nodes pods jobs dss) = ''tt-k8s-driver-manager-system''"
  "requireTenstorrentLabel (testbed nodes pods jobs dss)"
  "defaultFlasherImageFromEnv (testbed nodes pods jobs dss) = defaultFlasherImage"
  by (simp_all add: operatorNamespace_def requireTenstorrentLabel_def os_getenv_def Let_def
      defaultFlasherImageFromEnv_def)

definition plain_node :: "string \<Rightarrow> node" where
  "plain_node n = \<lparr>nd_name = n, nd_labels = [LabelTenstorrentPresent \<mapsto> ''true''],
     nd_annos = Map.empty, nd_unsched = False\<rparr>"

definition plain_pod :: "string \<Rightarrow> string \<Rightarrow> string \<Rightarrow> pod" where
  "plain_pod ns n nodeName = \<lparr>pd_name = n, pd_ns = ns, pd_labels = Map.empty,
     pd_owners = [\<lparr>or_api = ''apps/v1'', or_kind = ''ReplicaSet'', or_name = ''rs'', or_uid = ''u'',
       or_controller = True, or_block = True\<rparr>],
     pd_spec = zero_pod_spec\<lparr>ps_node := nodeName,
       ps_volumes := [host_volume ''tt'' ''/dev/tenstorrent'' None]\<rparr>,
     pd_phase = PodRunning, pd_conds = [], pd_cstat = [], pd_istat = []\<rparr>"

definition plain_fw :: "string \<Rightarrow> fw_policy" where
  "plain_fw n = \<lparr>fp_name = n, fp_uid = ''uid'', fp_generation = 1, fp_deleted = None,
     fp_spec = \<lparr>fs_version = ''19.8.0'', fs_readback = [], fs_bundle_url = [], fs_affinity = None,
       fs_selector = None, fs_paused = False,
       fs_upgrade = \<lparr>fu_auto = None, fu_max_parallel = 1, fu_flash_timeout = 0,
         fu_drain = \<lparr>fd_enable = None, fd_force = False, fd_delete_empty_dir = None, fd_timeout = 0\<rparr>,
         fu_halt = None\<rparr>,
       fs_flasher = None\<rparr>,
     fp_status = \<lparr>ft_observed = 0, ft_desired = [], ft_conds = [],
       ft_summary = \<lparr>sm_matched = 0, sm_uptodate = 0, sm_inprogress = 0, sm_failed = 0, sm_pending = 0\<rparr>,
       ft_nodes = []\<rparr>\<rparr>"

definition plain_drv :: "string \<Rightarrow> drv_policy" where
  "plain_drv n = \<lparr>dp_name = n, dp_uid = ''uid'', dp_generation = 1, dp_deleted = None,
     dp_spec = \<lparr>dv_version = ''2.0.0'', dv_affinity = None, dv_selector = None, dv_paused = False,
       dv_upgrade = \<lparr>du_drain = \<lparr>dd_enable = None, dd_full_node = None, dd_pod_selector = [],
           dd_force = False, dd_delete_empty_dir = None, dd_timeout = 0\<rparr>,
         du_force_unload = False\<rparr>,
       dv_installer = None\<rparr>,
     dp_status = \<lparr>dst_observed = 0, dst_desired = [], dst_conds = [],
       dst_summary = \<lparr>dsm_matched = 0, dsm_desired = 0, dsm_ready = 0, dsm_available = 0,
         dsm_failed = 0, dsm_uptodate = 0, dsm_inprogress = 0\<rparr>,
       dst_daemonset = [], dst_nodes = []\<rparr>\<rparr>"

definition zero_ds :: "string \<Rightarrow> daemonset" where
  "zero_ds n = \<lparr>dm_name = n, dm_ns = ''tt-k8s-driver-manager-system'', dm_labels = Map.empty,
     dm_annos = Map.empty, dm_owners = [],
     dm_spec = \<lparr>dsp_strategy = \<lparr>us_type = [], us_max_unavailable = []\<rparr>, dsp_selector = Map.empty,
       dsp_labels = Map.empty, dsp_pod = zero_pod_spec\<rparr>,
     dm_status = \<lparr>dss_desired = 1, dss_ready = 1, dss_available = 1\<rparr>\<rparr>"

definition plain_job :: "string \<Rightarrow> job" where
  "plain_job n = \<lparr>jb_name = n, jb_ns = ''tt-k8s-driver-manager-system'', jb_labels = Map.empty,
     jb_owners = [],
     jb_spec = \<lparr>jsp_backoff = None, jsp_deadline = None, jsp_ttl = None, jsp_labels = Map.empty,
       jsp_pod = zero_pod_spec\<rparr>,
     jb_status = zero_job_status\<rparr>"

lemmas objects = lookup_by_def plain_node_def plain_pod_def plain_fw_def
  plain_drv_def zero_ds_def plain_job_def

end
