(* ===== verification/FirmwareMetrics.thy ===== *)
theory FirmwareMetrics
  imports FirmwareNode TestBed
begin

text \<open>
  \<open>internal/controller/firmware_metrics.go\<close>: what one reconcile of a firmware policy publishes, with
  the dedup history that turns states which persist into counted events.
\<close>

section \<open>Recording\<close>

definition firmwareNodeStates :: "node_state list" where
  "firmwareNodeStates = [NodeStatePending, NodeStateCordoning, NodeStateDraining,
     NodeStateFlashing, NodeStateUncordoning, NodeStateDone, NodeStateFailed]"

definition flashJobKey :: "string \<Rightarrow> string" where
  "flashJobKey jobname = ''job/'' @ jobname"

definition drainTimeoutKey :: "string \<Rightarrow> string" where
  "drainTimeoutKey nodename = ''drain-timeout/'' @ nodename"

text \<open>The counts the per-policy gauge is set from: every state, zeros included.\<close>

definition firmware_state_counts :: "node_status list \<Rightarrow> (string \<times> int) list" where
  "firmware_state_counts nodeStates =
     fold bump (map (\<lambda>ns. node_state_str (ns_state ns)) nodeStates)
       (map (\<lambda>st. (node_state_str st, 0)) firmwareNodeStates)"

definition recordFirmwarePolicyMetrics :: "fw_policy \<Rightarrow> node_status list \<Rightarrow> unit io" where
  "recordFirmwarePolicyMetrics cr nodeStates = do {
     SetFirmwarePolicyNodes (fp_name cr) (firmware_state_counts nodeStates);
     SetFirmwareDesiredVersion (fp_name cr) (fs_version (fp_spec cr))
   }"

fun recordFlashJobMetrics :: "string \<Rightarrow> job list \<Rightarrow> string list io" where
  "recordFlashJobMetrics crName [] = State_Monad.return []"
| "recordFlashJobMetrics crName (job # jobs) = do {
     let key = flashJobKey (jb_name job);
     let (completed, succeeded) = jobFinished job;
     (if \<not> completed then State_Monad.return ()
      else do {
        let result = (if \<not> succeeded then ResultFailed else ResultSuccess);
        new \<leftarrow> events_FirstSeen crName key;
        (if \<not> new then State_Monad.return ()
         else do {
           metric (MInc FirmwareFlashJobsTotal [crName, result]);
           (let (d, ok) = flashJobDuration job
            in if ok then metric (MObserve FirmwareFlashDuration [crName, result] d)
               else State_Monad.return ())
         })
      });
     keys \<leftarrow> recordFlashJobMetrics crName jobs;
     State_Monad.return (key # keys)
   }"

definition isDrainTimeout :: "node_status \<Rightarrow> bool" where
  "isDrainTimeout ns \<longleftrightarrow>
     ns_state ns = NodeStateFailed \<and> has_prefix (ns_msg ns) MessageDrainTimeoutPrefix"

fun recordDrainTimeoutMetrics :: "string \<Rightarrow> node_status list \<Rightarrow> string list io" where
  "recordDrainTimeoutMetrics crName [] = State_Monad.return []"
| "recordDrainTimeoutMetrics crName (ns # nss) =
     (if \<not> isDrainTimeout ns then recordDrainTimeoutMetrics crName nss
      else do {
        let key = drainTimeoutKey (ns_name ns);
        new \<leftarrow> events_FirstSeen crName key;
        (if new then metric (MInc FirmwareDrainBlockedTotal [crName, MetricDrainTimeout])
         else State_Monad.return ());
        keys \<leftarrow> recordDrainTimeoutMetrics crName nss;
        State_Monad.return (key # keys)
      })"

definition fw_version_counts :: "node list \<Rightarrow> (string \<times> int) list" where
  "fw_version_counts nodes =
     fold bump (filter (\<lambda>v. v \<noteq> []) (map (\<lambda>n. sget (nd_labels n) LabelFWVersion) nodes)) []"

definition recordFWVersionMetrics :: "platform \<Rightarrow> err option io" where
  "recordFWVersionMetrics p = do {
     r \<leftarrow> list_nodes p;
     (case r of
        Inl e \<Rightarrow> State_Monad.return (Some e)
      | Inr nodes \<Rightarrow> do {
          SetNodesByFWVersion (fw_version_counts nodes);
          State_Monad.return None
        })
   }"

section \<open>The per-policy gauge\<close>

lemma firmware_states_all: "st \<in> set firmwareNodeStates"
  by (cases st) (simp_all add: firmwareNodeStates_def)

lemma count_states:
  "count_list (map (\<lambda>ns. node_state_str (ns_state ns)) nss) (node_state_str st) =
   length (filter (\<lambda>ns. ns_state ns = st) nss)"
  by (induction nss) simp_all

lemma firmware_state_counts:
  "map_of (firmware_state_counts nss) (node_state_str st) =
     Some (int (length (filter (\<lambda>ns. ns_state ns = st) nss)))"
  "distinct (map fst (firmware_state_counts nss))"
proof -
  have zeros: "map_of (map (\<lambda>st. (node_state_str st, 0)) firmwareNodeStates) (node_state_str st) = Some 0"
    by (cases st) (simp_all add: firmwareNodeStates_def)
  have "distinct (map fst (map (\<lambda>st. (node_state_str st, 0 :: int)) firmwareNodeStates))"
    by (simp add: firmwareNodeStates_def)
  then show "distinct (map fst (firmware_state_counts nss))"
    unfolding firmware_state_counts_def by (rule distinct_fold_bump)
  show "map_of (firmware_state_counts nss) (node_state_str st) =
     Some (int (length (filter (\<lambda>ns. ns_state ns = st) nss)))"
    unfolding firmware_state_counts_def map_of_fold_bump zeros count_states
    by (auto simp: filter_empty_conv)
qed

text \<open>After publishing, the per-policy gauge of every node state, the empty ones included, is the
  number of nodes in that state, and the desired-version gauge has one series, for the version of the
  policy: a series of an earlier version is gone.\<close>

theorem firmware_gauges_exact:
  "table_series (mops (final_of (recordFirmwarePolicyMetrics cr nss) s))
     FirmwarePolicyNodes [fp_name cr, node_state_str st] =
     Some (int (length (filter (\<lambda>ns. ns_state ns = st) nss))) \<and>
   table_series (mops (final_of (recordFirmwarePolicyMetrics cr nss) s))
     FirmwarePolicyDesiredVersion [fp_name cr, v] = (if v = fs_version (fp_spec cr) then Some 1 else None)"
proof -
  let ?sets = "map (\<lambda>(k, n). MSet FirmwarePolicyNodes [fp_name cr, k] n) (firmware_state_counts nss)"
  let ?ver = "[MDelete FirmwarePolicyDesiredVersion (fp_name cr),
    MSet FirmwarePolicyDesiredVersion [fp_name cr, fs_version (fp_spec cr)] 1]"
  have m: "mops (final_of (recordFirmwarePolicyMetrics cr nss) s) = (mops s @ ?sets) @ ?ver"
    by (simp add: recordFirmwarePolicyMetrics_def final_SetPolicyNodes final_SetDesiredVersion)
  have "table_series (mops s @ ?sets) FirmwarePolicyNodes [fp_name cr, node_state_str st] =
      Some (int (length (filter (\<lambda>ns. ns_state ns = st) nss)))"
    by (rule table.set_each [of _ "\<lambda>k. [fp_name cr, k]"])
      (auto simp: firmware_state_counts inj_on_def intro: map_of_SomeD)
  then have "table_series (mops (final_of (recordFirmwarePolicyMetrics cr nss) s))
      FirmwarePolicyNodes [fp_name cr, node_state_str st] =
      Some (int (length (filter (\<lambda>ns. ns_state ns = st) nss)))"
    unfolding m by (subst table.untouched) simp_all
  moreover have "table_series ((mops s @ ?sets) @ ?ver) FirmwarePolicyDesiredVersion [fp_name cr, v] =
      (if v = fs_version (fp_spec cr) then Some 1 else None)"
    by (simp add: table_series_def)
  ultimately show ?thesis unfolding m by blast
qed

section \<open>Counting finished Jobs\<close>

definition finished :: "job \<Rightarrow> bool" where
  "finished j \<longleftrightarrow> fst (jobFinished j)"

fun total_inc :: "mop \<Rightarrow> bool" where
  "total_inc (MInc FirmwareFlashJobsTotal l) = True"
| "total_inc _ = False"

lemma events_FirstSeen_run:
  "result_of (events_FirstSeen sc k) s = fst (FirstSeen (seen s) sc k)"
  "final_of (events_FirstSeen sc k) s = s\<lparr>seen := snd (FirstSeen (seen s) sc k)\<rparr>"
  by (simp_all add: events_FirstSeen_def split_beta)

lemma record_one:
  "seen (final_of (recordFlashJobMetrics cr [j]) s) =
     snd (events.feed (seen s) cr (map (\<lambda>j. flashJobKey (jb_name j)) (filter finished [j])))"
  "\<exists>ms. mops (final_of (recordFlashJobMetrics cr [j]) s) = mops s @ ms \<and>
     length (filter total_inc ms) =
       length (fst (events.feed (seen s) cr (map (\<lambda>j. flashJobKey (jb_name j)) (filter finished [j])))) \<and>
     (fst (events.feed (seen s) cr (map (\<lambda>j. flashJobKey (jb_name j)) (filter finished [j]))) = [] \<longrightarrow> ms = [])"
  by (auto simp: Let_def split_beta finished_def events_FirstSeen_run)

lemma record_Cons:
  "final_of (recordFlashJobMetrics cr (j # js)) s =
     final_of (recordFlashJobMetrics cr js) (final_of (recordFlashJobMetrics cr [j]) s)"
  "result_of (recordFlashJobMetrics cr (j # js)) s = flashJobKey (jb_name j) #
     result_of (recordFlashJobMetrics cr js) (final_of (recordFlashJobMetrics cr [j]) s)"
  by (simp_all add: Let_def split_beta)

lemma feed_append:
  "events.feed d sc (xs @ ys) =
     (let a = events.feed d sc xs; b = events.feed (snd a) sc ys in (fst a @ fst b, snd b))"
  by (induction xs arbitrary: d) (simp_all add: Let_def split_beta)

lemma recordFlashJobMetrics_run:
  "result_of (recordFlashJobMetrics cr jobs) s = map (\<lambda>j. flashJobKey (jb_name j)) jobs"
  "seen (final_of (recordFlashJobMetrics cr jobs) s) =
     snd (events.feed (seen s) cr (map (\<lambda>j. flashJobKey (jb_name j)) (filter finished jobs)))"
  "\<exists>ms. mops (final_of (recordFlashJobMetrics cr jobs) s) = mops s @ ms \<and>
     length (filter total_inc ms) =
       length (fst (events.feed (seen s) cr (map (\<lambda>j. flashJobKey (jb_name j)) (filter finished jobs)))) \<and>
     (fst (events.feed (seen s) cr (map (\<lambda>j. flashJobKey (jb_name j)) (filter finished jobs))) = [] \<longrightarrow> ms = [])"
proof (induction jobs arbitrary: s)
  case (Cons j js)
  let ?keys = "\<lambda>js. map (\<lambda>j. flashJobKey (jb_name j)) (filter finished js)"
  have keys: "?keys (j # js) = ?keys [j] @ ?keys js" by simp
  {
    case (1 s)
    show ?case unfolding record_Cons(2) [of cr j js] Cons.IH(1) by simp
  next
    case (2 s)
    show ?case unfolding record_Cons(1) [of cr j js] Cons.IH(2) record_one(1) keys feed_append by (simp add: Let_def)
  next
    case (3 s)
    let ?t = "final_of (recordFlashJobMetrics cr [j]) s"
    obtain ms1 where ms1: "mops ?t = mops s @ ms1"
      "length (filter total_inc ms1) = length (fst (events.feed (seen s) cr (?keys [j])))"
      "fst (events.feed (seen s) cr (?keys [j])) = [] \<longrightarrow> ms1 = []"
      using record_one(2) [of cr j s] by blast
    obtain ms2 where ms2: "mops (final_of (recordFlashJobMetrics cr js) ?t) = mops ?t @ ms2"
      "length (filter total_inc ms2) = length (fst (events.feed (seen ?t) cr (?keys js)))"
      "fst (events.feed (seen ?t) cr (?keys js)) = [] \<longrightarrow> ms2 = []"
      using Cons.IH(3) [of ?t] by blast
    show ?case
      unfolding record_Cons(1) [of cr j js] keys feed_append
      by (rule exI [of _ "ms1 @ ms2"]) (use ms1 ms2 in \<open>simp add: Let_def record_one(1)
        del: recordFlashJobMetrics.simps filter.simps events.feed.simps\<close>)
  }
qed (simp_all add: Let_def)

lemma flashJobKey_inject [simp]: "flashJobKey a = flashJobKey b \<longleftrightarrow> a = b"
  by (simp add: flashJobKey_def)

text \<open>One pass over the policy's Jobs adds exactly one to \<open>ttfw_flash_jobs_total\<close> for each finished
  Job that was not counted before, duplicates in the listing included, and returns the key of every
  Job listed.\<close>

theorem flash_jobs_counted:
  "result_of (recordFlashJobMetrics cr jobs) s = map (\<lambda>j. flashJobKey (jb_name j)) jobs \<and>
   (\<exists>ms. mops (final_of (recordFlashJobMetrics cr jobs) s) = mops s @ ms \<and>
      length (filter total_inc ms) =
        card {n. n \<in> jb_name ` set (filter finished jobs) \<and> \<not> remembers (seen s) cr (flashJobKey n)})"
proof -
  let ?keys = "map (\<lambda>j. flashJobKey (jb_name j)) (filter finished jobs)"
  let ?new = "{n. n \<in> jb_name ` set (filter finished jobs) \<and> \<not> remembers (seen s) cr (flashJobKey n)}"
  from events.feed_new [of "seen s" cr ?keys]
  have fed: "distinct (fst (events.feed (seen s) cr ?keys))"
    "set (fst (events.feed (seen s) cr ?keys)) = flashJobKey ` ?new"
    by auto
  have "length (fst (events.feed (seen s) cr ?keys)) = card (flashJobKey ` ?new)"
    using distinct_card [OF fed(1)] fed(2) by simp
  also have "\<dots> = card ?new" by (rule card_image) (simp add: inj_on_def)
  finally show ?thesis
    using recordFlashJobMetrics_run(1,3) [of cr jobs s] by (fastforce simp del: set_filter)
qed

text \<open>C34: A finished Job is counted in one reconcile only: when the history is pruned to the keys of the
  Jobs that still exist (with any others), a later pass over Jobs whose finished ones were finished
  before touches no metric at all.\<close>

theorem flash_jobs_counted_once:
  assumes "s1 = final_of (recordFlashJobMetrics cr jobs) s"
    "s2 = final_of (events_Retain cr (map (\<lambda>j. flashJobKey (jb_name j)) jobs @ others)) s1"
    "jb_name ` set (filter finished jobs') \<subseteq> jb_name ` set (filter finished jobs)"
  shows "mops (final_of (recordFlashJobMetrics cr jobs') s2) = mops s2"
proof -
  let ?k = "\<lambda>js. map (\<lambda>j. flashJobKey (jb_name j)) js"
  have "seen s2 = Retain (snd (events.feed (seen s) cr (?k (filter finished jobs)))) cr (?k jobs @ others)"
    using recordFlashJobMetrics_run(2) [of cr jobs s] assms(1,2) by (simp add: events_Retain_def)
  moreover have "set (?k (filter finished jobs')) \<subseteq> set (?k (filter finished jobs))"
    using image_mono [OF assms(3), of flashJobKey] by (simp add: image_image)
  moreover have "set (?k (filter finished jobs)) \<subseteq> set (?k jobs @ others)" by auto
  ultimately have "fst (events.feed (seen s2) cr (?k (filter finished jobs'))) = []"
    by (simp only: events.second_pass_silent)
  then show ?thesis
    using recordFlashJobMetrics_run(3) [of cr jobs' s2] by auto
qed

text \<open>A finished Job of one second, for the concrete instance.\<close>

definition done_job :: job where
  "done_job = (plain_job ''j'')\<lparr>jb_status := \<lparr>js_conds = [\<lparr>jc_type = JobComplete,
     jc_status = ConditionTrue, jc_time = second\<rparr>], js_start = Some 0, js_completion = Some second\<rparr>\<rparr>"

lemma flash_jobs_counted_once_witness:
  "let s1 = final_of (recordFlashJobMetrics ''fw'' [done_job]) init_sys;
       s2 = final_of (events_Retain ''fw'' [''job/j'']) s1
   in mops s1 \<noteq> [] \<and> mops (final_of (recordFlashJobMetrics ''fw'' [done_job]) s2) = mops s2"
  using flash_jobs_counted_once [of _ "''fw''" "[done_job]" init_sys _ "[]" "[done_job]", OF refl refl]
  by (simp add: Let_def done_job_def plain_job_def jobFinished_def flashJobKey_def init_sys_def
      events_FirstSeen_run FirstSeen_def finished_def split: prod.split)

end
