(* ===== verification/FirmwareReconcile.thy ===== *)
theory FirmwareReconcile
  imports FirmwareMetrics
begin

text \<open>
  \<open>FirmwarePolicyReconciler.Reconcile\<close> and what it is built from, in
  \<open>internal/controller/firmware_policy_controller.go\<close>. The loops of the Go function are the
  definitions \<open>observe_all\<close>, \<open>advance_pass\<close>, \<open>explain\<close>, \<open>stamp_all\<close> and \<open>summarize\<close>; \<open>reconcile_cr\<close>
  runs them in the order of the source.
\<close>

section \<open>Observation\<close>

fun observe_all :: "platform \<Rightarrow> fw_policy \<Rightarrow> node list \<Rightarrow> node_status list io" where
  "observe_all p cr [] = State_Monad.return []"
| "observe_all p cr (n # ns) = do {
     x \<leftarrow> observeNode p cr n;
     xs \<leftarrow> observe_all p cr ns;
     State_Monad.return (x # xs)
   }"

definition conflict_status :: "node \<Rightarrow> node_status" where
  "conflict_status c =
     \<lparr>ns_name = nd_name c, ns_state = NodeStatePending, ns_reason = ReasonNodeConflict,
      ns_current = [], ns_job = [], ns_msg = MessageNodeConflict, ns_time = 0\<rparr>"

section \<open>Policy switches\<close>

definition autoUpgrade :: "fw_policy \<Rightarrow> bool" where
  "autoUpgrade cr = (case fu_auto (fs_upgrade (fp_spec cr)) of None \<Rightarrow> True | Some b \<Rightarrow> b)"

definition maxParallel :: "fw_policy \<Rightarrow> int" where
  "maxParallel cr =
     (let n = sint (fu_max_parallel (fs_upgrade (fp_spec cr))) in if n = 0 then 1 else n)"

definition haltOnFailure :: "fw_policy \<Rightarrow> bool" where
  "haltOnFailure cr = (case fu_halt (fs_upgrade (fp_spec cr)) of None \<Rightarrow> True | Some b \<Rightarrow> b)"

definition halted :: "fw_policy \<Rightarrow> node_status list \<Rightarrow> bool" where
  "halted cr nodeStates \<longleftrightarrow>
     haltOnFailure cr \<and> list_ex (\<lambda>ns. ns_state ns = NodeStateFailed) nodeStates"

section \<open>Advancing\<close>

text \<open>Lines 157-193. The loop condition does not change while the loop runs, so the \<open>break\<close> leaves
  the rest of the list alone; every \<open>continue\<close> keeps the element and goes on.\<close>

fun advance_pass ::
  "platform \<Rightarrow> fw_policy \<Rightarrow> bool \<Rightarrow> int \<Rightarrow> node list \<Rightarrow> node_status list \<Rightarrow>
   (node_status list \<times> node list) io" where
  "advance_pass p cr stop capacity owned [] = State_Monad.return ([], owned)"
| "advance_pass p cr stop capacity owned (ns # rest) =
     (if stop then State_Monad.return (ns # rest, owned)
      else if \<not> isAdvanceable (ns_state ns) \<or>
              ns_msg ns = MessageNodeConflict \<or> ns_msg ns = MessageExternalCordon \<or>
              (ns_state ns = NodeStatePending \<and> capacity \<le> 0) then do {
        (xs, owned) \<leftarrow> advance_pass p cr stop capacity owned rest;
        State_Monad.return (ns # xs, owned)
      }
      else (case findNode owned (ns_name ns) of
        None \<Rightarrow> do {
          (xs, owned) \<leftarrow> advance_pass p cr stop capacity owned rest;
          State_Monad.return (ns # xs, owned)
        }
      | Some node \<Rightarrow> do {
          let startingFresh = (ns_state ns = NodeStatePending);
          (advanced, advErr, node, ns') \<leftarrow> advanceNode p cr node ns;
          let owned = store_node owned (ns_name ns) node;
          let capacity = (if startingFresh \<and> (advanced \<or> ns_state ns' = NodeStateFlashing)
                          then capacity - 1 else capacity);
          (xs, owned) \<leftarrow> advance_pass p cr stop capacity owned rest;
          State_Monad.return (ns' # xs, owned)
        }))"

section \<open>Explaining and stamping\<close>

text \<open>Lines 200-216.\<close>

definition explain :: "fw_policy \<Rightarrow> bool \<Rightarrow> node_status \<Rightarrow> node_status" where
  "explain cr hlt ns =
     (if ns_state ns \<noteq> NodeStatePending \<or> ns_reason ns \<noteq> [] then ns
      else if \<not> autoUpgrade cr then
        ns\<lparr>ns_reason := ReasonAutoUpgradeDisabled,
           ns_msg := ''spec.upgradePolicy.autoUpgrade=false; reporting drift only''\<rparr>
      else if fs_paused (fp_spec cr) then
        ns\<lparr>ns_reason := ReasonPaused,
           ns_msg := ''spec.paused=true; controller is not advancing this node''\<rparr>
      else if hlt then
        ns\<lparr>ns_reason := ReasonRolloutHalted,
           ns_msg := ''another node in this CR is Failed and spec.upgradePolicy.haltOnFailure=true''\<rparr>
      else ns)"

definition event_type_of :: "node_state \<Rightarrow> string \<Rightarrow> event_type" where
  "event_type_of state reason =
     (if reason \<in> {ReasonFlashJobFailed, ReasonFlasherImagePullFailed, ReasonDrainTimeout,
                   ReasonEvictionBlocked, ReasonNodeConflict, ReasonExternalCordon}
         \<or> state = NodeStateFailed
      then EventTypeWarning else EventTypeNormal)"

definition recordNodeStateEvent ::
  "platform \<Rightarrow> fw_policy \<Rightarrow> string \<Rightarrow> node_state \<Rightarrow> string \<Rightarrow> string \<Rightarrow> unit io" where
  "recordNodeStateEvent p cr nodeName state reason msg =
     (if \<not> pf_recorder p \<or> reason = [] then State_Monad.return ()
      else (let body = (if msg \<noteq> [] then nodeName @ '': '' @ msg else nodeName)
            in emit_event (Event (fp_name cr) (event_type_of state reason) reason body)))"

text \<open>The previously published status by node name: a later entry of the same name wins.\<close>

definition prev_status :: "node_status list \<Rightarrow> string \<rightharpoonup> node_status" where
  "prev_status nodes = map_of (rev (map (\<lambda>ns. (ns_name ns, ns)) nodes))"

text \<open>Lines 223-241.\<close>

definition stamp ::
  "platform \<Rightarrow> fw_policy \<Rightarrow> (string \<rightharpoonup> node_status) \<Rightarrow> instant \<Rightarrow> node_status \<Rightarrow> node_status io" where
  "stamp p cr prev t ns =
     (case prev (ns_name ns) of
        Some old \<Rightarrow>
          if ns_state old = ns_state ns \<and> ns_reason old = ns_reason ns
          then State_Monad.return (ns\<lparr>ns_time := ns_time old\<rparr>)
          else do {
            recordNodeStateEvent p cr (ns_name ns) (ns_state ns) (ns_reason ns) (ns_msg ns);
            State_Monad.return (ns\<lparr>ns_time := t\<rparr>)
          }
      | None \<Rightarrow> do {
          recordNodeStateEvent p cr (ns_name ns) (ns_state ns) (ns_reason ns) (ns_msg ns);
          State_Monad.return (ns\<lparr>ns_time := t\<rparr>)
        })"

fun stamp_all ::
  "platform \<Rightarrow> fw_policy \<Rightarrow> (string \<rightharpoonup> node_status) \<Rightarrow> instant \<Rightarrow> node_status list \<Rightarrow>
   node_status list io" where
  "stamp_all p cr prev t [] = State_Monad.return []"
| "stamp_all p cr prev t (ns # nss) = do {
     x \<leftarrow> stamp p cr prev t ns;
     xs \<leftarrow> stamp_all p cr prev t nss;
     State_Monad.return (x # xs)
   }"

section \<open>Summary and node labels\<close>

text \<open>Lines 249-261.\<close>

definition count_state :: "fw_summary \<Rightarrow> node_state \<Rightarrow> fw_summary" where
  "count_state sm state =
     (if state = NodeStateDone then sm\<lparr>sm_uptodate := sm_uptodate sm + 1\<rparr>
      else if state = NodeStateFailed then sm\<lparr>sm_failed := sm_failed sm + 1\<rparr>
      else if isInFlight state then sm\<lparr>sm_inprogress := sm_inprogress sm + 1\<rparr>
      else sm\<lparr>sm_pending := sm_pending sm + 1\<rparr>)"

text \<open>Lines 262-285; patch errors are discarded.\<close>

definition publish_node :: "platform \<Rightarrow> fw_policy \<Rightarrow> node_status \<Rightarrow> node \<Rightarrow> node io" where
  "publish_node p cr ns node = do {
     node \<leftarrow> (if sget (nd_labels node) LabelUpgradeState \<noteq> node_state_str (ns_state ns) then do {
                (_, node) \<leftarrow> labelNode p node
                  [(LabelUpgradeState, node_state_str (ns_state ns))];
                State_Monad.return node
              } else State_Monad.return node);
     (if ns_state ns = NodeStateDone then do {
        let readback = (if fs_readback (fp_spec cr) = [] then fs_version (fp_spec cr) @ ''.0''
                        else fs_readback (fp_spec cr));
        node \<leftarrow> (if sget (nd_annos node) AnnoCurrentVersion \<noteq> readback then do {
                   (_, node) \<leftarrow> annotateNode p node [(AnnoCurrentVersion, readback)];
                   State_Monad.return node
                 } else State_Monad.return node);
        (if sget (nd_labels node) LabelFWVersion \<noteq> readback then do {
           (_, node) \<leftarrow> labelNode p node [(LabelFWVersion, readback)];
           State_Monad.return node
         } else State_Monad.return node)
      } else State_Monad.return node)
   }"

fun summarize ::
  "platform \<Rightarrow> fw_policy \<Rightarrow> node list \<Rightarrow> fw_summary \<Rightarrow> node_status list \<Rightarrow>
   (fw_summary \<times> node list) io" where
  "summarize p cr owned sm [] = State_Monad.return (sm, owned)"
| "summarize p cr owned sm (ns # nss) = do {
     let sm = count_state sm (ns_state ns);
     owned \<leftarrow> (case findNode owned (ns_name ns) of
        None \<Rightarrow> State_Monad.return owned
      | Some node \<Rightarrow> do {
          node \<leftarrow> publish_node p cr ns node;
          State_Monad.return (store_node owned (ns_name ns) node)
        });
     summarize p cr owned sm nss
   }"

definition zero_summary :: "nat \<Rightarrow> fw_summary" where
  "zero_summary n = \<lparr>sm_matched = word_of_nat n, sm_uptodate = 0, sm_inprogress = 0,
     sm_failed = 0, sm_pending = 0\<rparr>"

section \<open>Conditions\<close>

definition setTopLevelConditions :: "platform \<Rightarrow> fw_policy \<Rightarrow> fw_summary \<Rightarrow> fw_policy io" where
  "setTopLevelConditions p cr s = do {
     t1 \<leftarrow> now p;
     t2 \<leftarrow> now p;
     let cond = (\<lambda>ty t st reason msg. \<lparr>mc_type = ty, mc_status = st, mc_reason = reason,
           mc_message = msg, mc_gen = fp_generation cr, mc_time = t\<rparr>);
     let (ready, progressing) =
       (if 0 < sint (sm_failed s) then
          (cond ''Ready'' t1 ConditionFalse ''NodesFailed''
             (show_int (sint (sm_failed s)) @ '' node(s) failed''),
           cond ''Progressing'' t2 ConditionFalse ''Halted'' [])
        else if 0 < sint (sm_inprogress s) \<or> 0 < sint (sm_pending s) then
          (cond ''Ready'' t1 ConditionFalse ''NodesPending''
             (show_int (sint (sm_uptodate s)) @ ''/'' @ show_int (sint (sm_matched s)) @
              '' up to date''),
           cond ''Progressing'' t2 ConditionTrue ''NodesUpgrading'' [])
        else
          (cond ''Ready'' t1 ConditionTrue ''AllUpToDate''
             ''All matched nodes at desired version'',
           cond ''Progressing'' t2 ConditionFalse ''Idle'' []));
     let st = fp_status cr;
     let conds = lib_set_condition (pf_lib p) (ft_conds st) ready;
     let conds = lib_set_condition (pf_lib p) conds progressing;
     State_Monad.return (cr\<lparr>fp_status := st\<lparr>ft_conds := conds\<rparr>\<rparr>)
   }"

section \<open>Reconcile\<close>

text \<open>Lines 294-326: publish gauges, write the status, decide about a requeue.\<close>

definition finish_reconcile ::
  "platform \<Rightarrow> fw_policy \<Rightarrow> string list \<Rightarrow> fw_summary \<Rightarrow> node_status list \<Rightarrow>
   (rresult \<times> err option) io" where
  "finish_reconcile p cr dedupKeys summary nodeStates = do {
     recordFirmwarePolicyMetrics cr nodeStates;
     keys \<leftarrow> recordDrainTimeoutMetrics (fp_name cr) nodeStates;
     events_Retain (fp_name cr) (dedupKeys @ keys);
     let cr = cr\<lparr>fp_status := (fp_status cr)\<lparr>ft_observed := fp_generation cr,
       ft_desired := fs_version (fp_spec cr), ft_summary := summary, ft_nodes := nodeStates\<rparr>\<rparr>;
     cr \<leftarrow> setTopLevelConditions p cr summary;
     r \<leftarrow> update_fw_status p cr;
     (case r of
        Inl e \<Rightarrow>
          if ekind e = Conflict
          then State_Monad.return (\<lparr>rr_requeue = True, rr_after = 0\<rparr>, None)
          else do {
            inc_firmware_error (fp_name cr) ''update_status'';
            State_Monad.return (no_requeue, Some (wrap ''update status'' e))
          }
      | Inr cr \<Rightarrow> do {
          e \<leftarrow> recordFWVersionMetrics p;
          (case e of
             None \<Rightarrow> State_Monad.return ()
           | Some _ \<Rightarrow> inc_firmware_error (fp_name cr) ''record_fw_version_metrics'');
          FirmwareReconcileSucceeded p (fp_name cr);
          State_Monad.return
            (if 0 < sint (sm_inprogress summary) \<or> 0 < sint (sm_pending summary)
             then \<lparr>rr_requeue = False, rr_after = 30 * second\<rparr> else no_requeue, None)
        })
   }"

text \<open>Lines 145-292: everything after the Jobs were listed.\<close>

definition roll_out ::
  "platform \<Rightarrow> fw_policy \<Rightarrow> instant \<Rightarrow> node list \<Rightarrow> node_status list \<Rightarrow> job list \<Rightarrow>
   (rresult \<times> err option) io" where
  "roll_out p cr t owned nodeStates jobs = do {
     let prev = prev_status (ft_nodes (fp_status cr));
     let hlt = halted cr nodeStates;
     let inFlight = countInFlightJobs jobs;
     metric (MSet FirmwareFlashJobsInFlight [fp_name cr] (int inFlight));
     dedupKeys \<leftarrow> recordFlashJobMetrics (fp_name cr) jobs;
     let stop = (\<not> autoUpgrade cr \<or> fs_paused (fp_spec cr) \<or> hlt);
     (nodeStates, owned) \<leftarrow>
       advance_pass p cr stop (maxParallel cr - int inFlight) owned nodeStates;
     let nodeStates = map (explain cr hlt) nodeStates;
     nodeStates \<leftarrow> stamp_all p cr prev t nodeStates;
     (summary, owned) \<leftarrow> summarize p cr owned (zero_summary (length nodeStates)) nodeStates;
     finish_reconcile p cr dedupKeys summary (sort_key ns_name nodeStates)
   }"

text \<open>Lines 75-149.\<close>

definition reconcile_cr :: "platform \<Rightarrow> fw_policy \<Rightarrow> (rresult \<times> err option) io" where
  "reconcile_cr p cr = do {
     r \<leftarrow> matchedNodes p cr;
     (case r of
        Inl e \<Rightarrow> do {
          inc_firmware_error (fp_name cr) ''list_matched_nodes'';
          State_Monad.return (no_requeue, Some (wrap ''list matched nodes'' e))
        }
      | Inr matched \<Rightarrow> do {
          let (owned, conflicts) = partitionByOwnership matched (fp_name cr);
          t \<leftarrow> now p;
          observed \<leftarrow> observe_all p cr owned;
          let nodeStates = observed @ map conflict_status conflicts;
          jr \<leftarrow> jobsForCR p cr;
          (case jr of
             Inl e \<Rightarrow> do {
               inc_firmware_error (fp_name cr) ''list_jobs'';
               State_Monad.return (no_requeue, Some (wrap ''count in-flight jobs'' e))
             }
           | Inr jobs \<Rightarrow> roll_out p cr t owned nodeStates jobs)
        })
   }"

definition FirmwareReconcile :: "platform \<Rightarrow> string \<Rightarrow> (rresult \<times> err option) io" where
  "FirmwareReconcile p name = do {
     r \<leftarrow> get_fw p name;
     (case r of
        Inl e \<Rightarrow>
          if ekind e = NotFound then do {
            DeleteFirmwarePolicySeries name;
            events_Forget name;
            State_Monad.return (no_requeue, None)
          }
          else State_Monad.return (no_requeue, Some e)
      | Inr cr \<Rightarrow>
          if fp_deleted cr \<noteq> None then do {
            DeleteFirmwarePolicySeries (fp_name cr);
            events_Forget (fp_name cr);
            State_Monad.return (no_requeue, None)
          }
          else reconcile_cr p cr)
   }"

definition mapNodeToCRs :: "platform \<Rightarrow> string list io" where
  "mapNodeToCRs p = do {
     r \<leftarrow> list_fw p;
     State_Monad.return (case r of Inl e \<Rightarrow> [] | Inr items \<Rightarrow> map fp_name items)
   }"

section \<open>One round of the advance loop\<close>

text \<open>The entries the loop passes over.\<close>

definition waits :: "int \<Rightarrow> node list \<Rightarrow> node_status \<Rightarrow> bool" where
  "waits capacity owned ns \<longleftrightarrow>
     \<not> isAdvanceable (ns_state ns) \<or> ns_msg ns = MessageNodeConflict \<or>
     ns_msg ns = MessageExternalCordon \<or> (ns_state ns = NodeStatePending \<and> capacity \<le> 0) \<or>
     findNode owned (ns_name ns) = None"

definition spend :: "int \<Rightarrow> node_status \<Rightarrow> bool \<Rightarrow> node_status \<Rightarrow> int" where
  "spend capacity ns advanced ns' =
     (if ns_state ns = NodeStatePending \<and> (advanced \<or> ns_state ns' = NodeStateFlashing)
      then capacity - 1 else capacity)"

lemma advance_pass_stop:
  "run_state (advance_pass p cr True capacity owned nss) s = ((nss, owned), s)"
  by (cases nss) simp_all

lemma advance_pass_waits:
  assumes "waits capacity owned ns"
  shows "final_of (advance_pass p cr False capacity owned (ns # rest)) s =
      final_of (advance_pass p cr False capacity owned rest) s"
    "result_of (advance_pass p cr False capacity owned (ns # rest)) s =
      map_prod ((#) ns) id (result_of (advance_pass p cr False capacity owned rest) s)"
  using assms by (auto simp: waits_def split: prod.splits option.splits)

lemma advance_pass_goes:
  assumes "\<not> waits capacity owned ns"
    "result_of (advanceNode p cr (the (findNode owned (ns_name ns))) ns) s = (adv, e, node', ns')"
    "t = final_of (advanceNode p cr (the (findNode owned (ns_name ns))) ns) s"
    "rest' = advance_pass p cr False (spend capacity ns adv ns') (store_node owned (ns_name ns) node') rest"
  shows "final_of (advance_pass p cr False capacity owned (ns # rest)) s = final_of rest' t"
    "result_of (advance_pass p cr False capacity owned (ns # rest)) s =
      map_prod ((#) ns') id (result_of rest' t)"
proof -
  obtain node where n: "findNode owned (ns_name ns) = Some node"
    using assms(1) by (auto simp: waits_def)
  have "advance_pass p cr False capacity owned (ns # rest) = do {
          (advanced, advErr, node, ns') \<leftarrow> advanceNode p cr node ns;
          (xs, owned) \<leftarrow> advance_pass p cr False (spend capacity ns advanced ns')
             (store_node owned (ns_name ns) node) rest;
          State_Monad.return (ns' # xs, owned)
        }"
    using assms(1) n by (auto simp: waits_def spend_def Let_def)
  then show "final_of (advance_pass p cr False capacity owned (ns # rest)) s = final_of rest' t"
    "result_of (advance_pass p cr False capacity owned (ns # rest)) s =
      map_prod ((#) ns') id (result_of rest' t)"
    using assms(2-4) n by (auto split: prod.splits)
qed

text \<open>Induction over the loop by these two cases.\<close>

lemma advance_pass_induct [case_names Nil waits goes]:
  assumes "\<And>capacity owned s. Q capacity owned [] s"
    and "\<And>capacity owned ns rest s. waits capacity owned ns \<Longrightarrow> Q capacity owned rest s \<Longrightarrow>
          Q capacity owned (ns # rest) s"
    and "\<And>capacity owned ns rest s node adv e node' ns' t.
          \<not> waits capacity owned ns \<Longrightarrow> findNode owned (ns_name ns) = Some node \<Longrightarrow>
          result_of (advanceNode p cr node ns) s = (adv, e, node', ns') \<Longrightarrow>
          t = final_of (advanceNode p cr node ns) s \<Longrightarrow>
          Q (spend capacity ns adv ns') (store_node owned (ns_name ns) node') rest t \<Longrightarrow>
          Q capacity owned (ns # rest) s"
  shows "Q capacity owned nss s"
proof (induction nss arbitrary: capacity owned s)
  case (Cons ns rest capacity owned s)
  show ?case
  proof (cases "waits capacity owned ns")
    case True
    then show ?thesis by (rule assms(2)) (rule Cons.IH)
  next
    case False
    then obtain node where n: "findNode owned (ns_name ns) = Some node" by (auto simp: waits_def)
    obtain adv e node' ns' where r: "result_of (advanceNode p cr node ns) s = (adv, e, node', ns')"
      by (metis prod_cases4)
    show ?thesis by (rule assms(3) [OF False n r refl Cons.IH])
  qed
qed (rule assms(1))

lemma advance_pass_cost:
  "int (jobs_created (final_of (advance_pass p cr stop capacity owned nss) s)) \<le>
   int (jobs_created s) + max 0 capacity"
proof (cases stop)
  case True
  then show ?thesis using advance_pass_stop [of p cr capacity owned nss s] by (simp add: final_of_def)
next
  case False
  have "int (jobs_created (final_of (advance_pass p cr False capacity owned nss) s)) \<le>
    int (jobs_created s) + max 0 capacity"
  proof (induction capacity owned nss s rule: advance_pass_induct [where p = p and cr = cr])
    case (waits capacity owned ns rest s)
    then show ?case by (simp only: advance_pass_waits)
  next
    case (goes capacity owned ns rest s node adv e node' ns' t)
    then show ?case
      using advance_cost [OF goes(3)] advance_pass_goes(1) [of capacity owned ns p cr s adv e node' ns' t _ rest, OF _ _ _ refl]
      by (auto simp: spend_def waits_def split: if_splits)
  qed simp
  with False show ?thesis by simp
qed

section \<open>What the passes ask of the API server\<close>

lemma listed_device_pod:
  assumes "result_of (listDevicePodsOnNode p n f) s = Inr pods" "pd \<in> set pods"
  shows "drainable n (operatorNamespace p) f (Some PodUsesTenstorrentDevice) pd"
  using assms
  by (auto simp: listDevicePodsOnNode_def ListDevicePodsOnNode_def select_pods_eq split: sum.splits)

lemma issues_advance_state:
  assumes reads: "P CNow" "P (CListPods None [])"
    and create: "\<And>n e. P (CCreateJob (setOwnerRef (buildFlashJob p cr n (defaultFlasherImageFromEnv p)) cr) e)"
    and spawn: "\<And>base new e. node_patch {LabelUpgradeState} {AnnoDesiredVersion, AnnoLastFlashJob} False base new
      \<Longrightarrow> P (CPatchNode base new e)"
    and cordon: "\<And>base new e. cordon_patch (firmwareCordonOpts (fp_name cr)) base new \<Longrightarrow> P (CPatchNode base new e)"
    and uncordon: "\<And>base new e. uncordon_patch (firmwareCordonOpts (fp_name cr)) base new \<Longrightarrow> P (CPatchNode base new e)"
    and evict: "\<And>ns n e. ns \<noteq> operatorNamespace p \<Longrightarrow> P (CEvict ns n e)"
  shows "issues P (advance_state p cr node ns)"
proof -
  have spawns: "issues P (spawnFlashJob p cr node ns)"
    unfolding spawnFlashJob_def Let_def
    by (intro frame_rules issues_annotateNode issues_labelNode create)
      (auto intro: spawn elim!: node_patch_mono)
  have cordons: "issues P (cordonNode p node (fp_name cr))"
    unfolding cordonNode_def by (intro issues_CordonNode reads cordon)
  have uncordons: "issues P (uncordonNode p node (fp_name cr))"
    unfolding uncordonNode_def by (intro issues_UncordonNode uncordon)
  have drains: "issues P (case result_of (listDevicePodsOnNode p n f) s of
          Inl e \<Rightarrow> State_Monad.return (False, Some (wrap ''list device pods'' e), node, ns)
        | Inr pods \<Rightarrow> do {
            (e, ns) \<leftarrow> evict_device_pods p cr ns pods;
            State_Monad.return (case e of
              Some e \<Rightarrow> (False, Some e, node, ns) | None \<Rightarrow> (True, None, node, ns))
          })" for n f s
    by (intro frame_rules issues_evict_device_pods evict)
      (auto dest: listed_device_pod drainable_ns)
  show ?thesis
  proof (cases "ns_state ns")
    case NodeStateDraining
    then show ?thesis
      unfolding advance_state_def
      by (auto intro!: issue.bind_result drains issues_firmware_reads reads)
  qed (auto simp: advance_state_def intro!: frame_rules spawns cordons uncordons)
qed

lemma issues_advance_pass:
  assumes "\<And>node ns. issues P (advanceNode p cr node ns)"
  shows "issues P (advance_pass p cr stop capacity owned nss)"
proof (induction nss arbitrary: capacity owned)
  case (Cons ns rest)
  show ?case
    unfolding advance_pass.simps Let_def by (intro frame_rules assms Cons.IH)
qed (auto intro: frame_rules)

lemma issues_observe_all:
  "(\<And>c. read_call c \<Longrightarrow> P c) \<Longrightarrow> issues P (observe_all p cr nodes)"
  by (induction nodes) (auto intro!: frame_rules issues_observeNode)

lemma issues_stamp_all [frame_rules]: "issues P (stamp_all p cr prev t nss)"
proof (induction nss)
  case (Cons ns nss)
  then show ?case
    unfolding stamp_all.simps stamp_def recordNodeStateEvent_def Let_def by (intro frame_rules)
qed (auto intro: frame_rules)

text \<open>Publishing writes two labels and one annotation, nothing else.\<close>

definition publish_patch :: "node \<Rightarrow> node \<Rightarrow> bool" where
  "publish_patch = node_patch {LabelUpgradeState, LabelFWVersion} {AnnoCurrentVersion} False"

lemma issues_summarize:
  assumes "\<And>base new e. publish_patch base new \<Longrightarrow> P (CPatchNode base new e)"
  shows "issues P (summarize p cr owned sm nss)"
proof (induction nss arbitrary: owned sm)
  case (Cons ns nss)
  show ?case
    unfolding summarize.simps publish_node_def Let_def
    by (intro frame_rules Cons.IH issues_labelNode issues_annotateNode)
      (auto intro!: assms simp: publish_patch_def elim!: node_patch_mono)
qed (auto intro: frame_rules)

text \<open>The one status write of a reconcile.\<close>

definition published :: "fw_policy \<Rightarrow> fw_summary \<Rightarrow> node_status list \<Rightarrow> fw_policy \<Rightarrow> bool" where
  "published cr summary nodes cr' \<longleftrightarrow>
     (\<exists>conds. cr' = cr\<lparr>fp_status := (fp_status cr)\<lparr>ft_observed := fp_generation cr,
        ft_desired := fs_version (fp_spec cr), ft_summary := summary, ft_nodes := nodes,
        ft_conds := conds\<rparr>\<rparr>)"

lemma issues_recordFlashJobMetrics [frame_rules]: "issues P (recordFlashJobMetrics crName jobs)"
proof (induction jobs)
  case (Cons j js)
  then show ?case unfolding recordFlashJobMetrics.simps Let_def by (intro frame_rules)
qed (auto intro: frame_rules)

lemma issues_recordDrainTimeoutMetrics [frame_rules]:
  "issues P (recordDrainTimeoutMetrics crName nss)"
proof (induction nss)
  case (Cons j js)
  then show ?case unfolding recordDrainTimeoutMetrics.simps Let_def by (intro frame_rules)
qed (auto intro: frame_rules)

lemma issues_finish_reconcile:
  assumes "P CNow" "P CListNodes"
    "\<And>cr' e. published cr summary nodes cr' \<Longrightarrow> P (CUpdateFwStatus cr' e)"
  shows "issues P (finish_reconcile p cr keys summary nodes)"
proof -
  have conds: "result_of (setTopLevelConditions p c summary) s
      = c\<lparr>fp_status := (fp_status c)\<lparr>ft_conds := ft_conds (fp_status (result_of (setTopLevelConditions p c summary) s))\<rparr>\<rparr>" for c s
    by (simp add: setTopLevelConditions_def Let_def split: prod.split)
  have setc: "issues P (setTopLevelConditions p c summary)" for c
    unfolding setTopLevelConditions_def Let_def by (intro frame_rules assms)
  have rec: "issues P (recordFirmwarePolicyMetrics cr nodes)"
    unfolding recordFirmwarePolicyMetrics_def by (intro frame_rules)
  have fwv: "issues P (recordFWVersionMetrics p)"
    unfolding recordFWVersionMetrics_def by (intro frame_rules assms)
  have upd: "issues P (update_fw_status p (result_of (setTopLevelConditions p
      (cr\<lparr>fp_status := (fp_status cr)\<lparr>ft_observed := fp_generation cr,
        ft_desired := fs_version (fp_spec cr), ft_summary := summary, ft_nodes := nodes\<rparr>\<rparr>) summary) s))" for s
    by (intro issues_writes assms(3), subst conds) (auto simp: published_def)
  show ?thesis
    unfolding finish_reconcile_def Let_def
    by (intro issue.bind_result rec setc upd; intro frame_rules assms fwv upd)
qed

end
