(* ===== verification/FirmwareSafety.thy ===== *)
theory FirmwareSafety
  imports FirmwareReconcile TestBed
begin

text \<open>
  What a firmware reconcile may do to the cluster: the footprint of its API calls, the bound on the
  Jobs it creates, the nodes it leaves alone, and the conditions under which it starts a flash.
\<close>

section \<open>Footprint\<close>

text \<open>Everything a firmware reconcile may ask of the API server: reads, the flash Job of a node for
  this policy, node patches within the operator's own labels and annotations, evictions outside the
  operator's namespace, and the status of this policy.\<close>

definition firmware_labels :: "string set" where
  "firmware_labels = {LabelOwnerCR, LabelUpgradeState, LabelFWVersion}"

definition firmware_annos :: "string set" where
  "firmware_annos = {AnnoCordonedBy, AnnoCordonedAt, AnnoCurrentVersion, AnnoDesiredVersion,
     AnnoLastFlashJob}"

fun fw_call :: "platform \<Rightarrow> fw_policy \<Rightarrow> call \<Rightarrow> bool" where
  "fw_call p cr (CCreateJob j e) =
     (\<exists>n. j = setOwnerRef (buildFlashJob p cr n (defaultFlasherImageFromEnv p)) cr)"
| "fw_call p cr (CPatchNode base new e) = node_patch firmware_labels firmware_annos True base new"
| "fw_call p cr (CEvict ns n e) = (ns \<noteq> operatorNamespace p)"
| "fw_call p cr (CUpdateFwStatus cr' e) = (fp_name cr' = fp_name cr \<and> fp_spec cr' = fp_spec cr)"
| "fw_call p cr (CCreateDS d e) = False"
| "fw_call p cr (CUpdateDS d e) = False"
| "fw_call p cr (CUpdateDrvStatus d e) = False"
| "fw_call p cr _ = True"

lemma fw_call_read: "read_call c \<Longrightarrow> fw_call p cr c"
  by (cases c) simp_all

lemma advanceNode_footprint: "issues (fw_call p cr) (advanceNode p cr node ns)"
  unfolding advanceNode_def
  by (intro frame_rules issues_claimOwnership issues_advance_state)
    (auto simp: firmware_labels_def firmware_annos_def firmwareCordonOpts_def
      dest!: cordon_node_patch elim!: node_patch_mono)

lemma roll_out_footprint: "issues (fw_call p cr) (roll_out p cr t owned nodeStates jobs)"
  unfolding roll_out_def Let_def
  by (intro frame_rules issues_advance_pass advanceNode_footprint issues_summarize
      issues_finish_reconcile)
    (auto simp: published_def publish_patch_def firmware_labels_def firmware_annos_def
      elim!: node_patch_mono)

lemma reconcile_footprint: "issues (fw_call p cr) (reconcile_cr p cr)"
  unfolding reconcile_cr_def Let_def
  by (intro frame_rules issues_observe_all roll_out_footprint fw_call_read) simp_all

text \<open>C12: Every API call of a firmware reconcile is a read, the flash Job of some node built for the
  policy, a patch of a node within the operator's own three labels and five annotations (and the
  unschedulable flag), an eviction outside the operator's namespace, or the status of the policy. It
  never writes a DaemonSet, a driver policy, or the annotations of the driver's cordon.\<close>

theorem firmware_reconcile_footprint:
  "issues (\<lambda>c. \<exists>cr. fw_call p cr c) (FirmwareReconcile p name)"
proof -
  have "issues (\<lambda>c. \<exists>cr. fw_call p cr c) (reconcile_cr p cr)" for cr
    by (rule issues_mono [OF reconcile_footprint]) blast
  then show ?thesis
    unfolding FirmwareReconcile_def by (intro frame_rules) simp_all
qed

section \<open>The bound on flash Jobs\<close>

lemma roll_out_cost:
  "int (jobs_created (final_of (roll_out p cr t owned nodeStates jobs) s)) \<le>
   int (jobs_created s) + max 0 (maxParallel cr - int (countInFlightJobs jobs))"
proof -
  have sum: "issues (\<lambda>c. \<not> job_created c) (summarize p cr owned sm nss)" for owned sm nss
    by (rule issues_summarize) simp
  have fin: "issues (\<lambda>c. \<not> job_created c) (finish_reconcile p cr keys sm nss)" for keys sm nss
    by (rule issues_finish_reconcile) simp_all
  have st: "issues (\<lambda>c. \<not> job_created c) (stamp_all p cr prev t nss)" for prev nss
    by (rule issues_stamp_all)
  have rec: "issues (\<lambda>c. \<not> job_created c) (recordFlashJobMetrics (fp_name cr) jobs)"
    by (rule issues_recordFlashJobMetrics)
  have met: "issues (\<lambda>c. \<not> job_created c) (metric m)" for m by (rule issues_metric)
  show ?thesis
    unfolding roll_out_def Let_def
    using advance_pass_cost
    by (simp add: jobs_created_issues [OF sum] jobs_created_issues [OF fin] jobs_created_issues [OF st]
        jobs_created_issues [OF rec] jobs_created_issues [OF met] del: final_metric split: prod.split)
      (metis jobs_created_issues [OF rec] jobs_created_issues [OF met])
qed

lemma job_budget:
  assumes "\<And>h jobs. srv_list_jobs (pf_reads p) h (operatorNamespace p) [(JobLabelCR, fp_name cr)] = Inr jobs
    \<Longrightarrow> n \<le> countInFlightJobs jobs"
  shows "jobs_created (final_of (reconcile_cr p cr) s) \<le> jobs_created s + nat (maxParallel cr - int n)"
proof -
  have quiet: "issues (\<lambda>c. \<not> job_created c) (matchedNodes p cr)"
    "issues (\<lambda>c. \<not> job_created c) (now p)" "issues (\<lambda>c. \<not> job_created c) (jobsForCR p cr)"
    "issues (\<lambda>c. \<not> job_created c) (metric m)" for m
    by (auto intro!: frame_rules)
  have obs: "issues (\<lambda>c. \<not> job_created c) (observe_all p cr ns)" for ns
    by (rule issues_observe_all) (auto elim!: job_created.elims)
  have roll: "jobs_created (final_of (roll_out p cr t owned nss jobs) s')
      \<le> jobs_created s' + nat (maxParallel cr - int n)"
    if "n \<le> countInFlightJobs jobs" for t owned nss jobs s'
    using roll_out_cost [of p cr t owned nss jobs s'] that by linarith
  have jobs: "result_of (jobsForCR p cr) s' = Inr jobs \<Longrightarrow> n \<le> countInFlightJobs jobs" for s' jobs
    using assms by (simp add: jobsForCR_def list_jobs_def)
  note keep = jobs_created_issues [OF quiet(1)] jobs_created_issues [OF quiet(2)]
    jobs_created_issues [OF quiet(3)] jobs_created_issues [OF quiet(4)] jobs_created_issues [OF obs]
  show ?thesis
    unfolding reconcile_cr_def
    by (auto simp: keep Let_def simp del: final_metric split: sum.splits prod.splits
        intro!: order.trans [OF roll] jobs)
qed

text \<open>C9: One reconcile never creates more Jobs than \<open>maxParallel\<close> leaves free: if every listing of the
  policy's Jobs the server can give shows at least \<open>n\<close> unfinished ones, at most
  \<open>maxParallel - n\<close> creations are accepted, whatever the server answers to all other calls.\<close>

theorem firmware_job_budget:
  assumes "\<And>h jobs. srv_list_jobs (pf_reads p) h (operatorNamespace p) [(JobLabelCR, fp_name cr)] = Inr jobs
    \<Longrightarrow> n \<le> countInFlightJobs jobs"
  shows "jobs_created (final_of (reconcile_cr p cr) s) \<le> jobs_created s + nat (maxParallel cr - int n)"
  using assms by (rule job_budget)

lemma firmware_job_budget_witness:
  "jobs_created (final_of (reconcile_cr (testbed [plain_node ''n1''] [] [plain_job ''j''] [])
     (plain_fw ''fw'')) init_sys) = 0"
  using firmware_job_budget [of "testbed [plain_node ''n1''] [] [plain_job ''j''] []" "plain_fw ''fw''" 1 init_sys]
  by (simp add: objects jobFinished_def zero_job_status_def maxParallel_def Let_def
      jobs_created_def init_sys_def)

section \<open>A stopped rollout\<close>

text \<open>What is left when nothing may be advanced: reads, the report on the nodes, the status.\<close>

fun report_call :: "call \<Rightarrow> bool" where
  "report_call (CPatchNode base new e) = publish_patch base new"
| "report_call (CUpdateFwStatus cr e) = True"
| "report_call c = read_call c"

lemma roll_out_stopped:
  assumes "\<not> autoUpgrade cr \<or> fs_paused (fp_spec cr) \<or> halted cr nodeStates"
  shows "issues report_call (roll_out p cr t owned nodeStates jobs)"
proof -
  have "issues report_call (advance_pass p cr True c o' nss)" for c o' nss
    using advance_pass_stop [of p cr c o' nss]
    by (simp add: keeps_def final_of_def issued_refl)
  moreover have "(\<not> autoUpgrade cr \<or> fs_paused (fp_spec cr) \<or> halted cr nodeStates) = True"
    using assms by blast
  ultimately show ?thesis
    unfolding roll_out_def Let_def
    by (simp only:) (intro frame_rules issues_summarize issues_finish_reconcile; simp)
qed

text \<open>While a policy is paused, or automatic upgrades are off, a reconcile starts nothing: it
  creates no Job, evicts no pod and cordons or uncordons no node. Its only writes are the two state
  labels and the version annotation of a node, and the status.\<close>

theorem paused_policy_only_reports:
  assumes "fs_paused (fp_spec cr) \<or> \<not> autoUpgrade cr"
  shows "issues report_call (reconcile_cr p cr)"
  unfolding reconcile_cr_def Let_def
  using assms
  by (intro frame_rules issues_observe_all roll_out_stopped)
    (auto elim!: read_call.elims)

lemma paused_policy_only_reports_witness:
  "issues report_call (reconcile_cr (testbed [plain_node ''n1''] [plain_pod ''d'' ''w'' ''n1''] [] [])
     ((plain_fw ''fw'')\<lparr>fp_spec := (fp_spec (plain_fw ''fw''))\<lparr>fs_paused := True\<rparr>\<rparr>))"
  by (rule paused_policy_only_reports) simp

text \<open>With \<open>haltOnFailure\<close>, one failed node stops the whole policy: the rest of the reconcile only
  reports. That includes the nodes whose flash has succeeded and that wait to be uncordoned.\<close>

theorem failed_node_halts_rollout:
  assumes "haltOnFailure cr" "ns \<in> set nodeStates" "ns_state ns = NodeStateFailed"
  shows "issues report_call (roll_out p cr t owned nodeStates jobs)"
  by (rule roll_out_stopped) (use assms in \<open>auto simp: halted_def list_ex_iff\<close>)

lemma failed_node_halts_rollout_witness:
  "issues report_call (roll_out (testbed [] [] [] []) (plain_fw ''fw'') 0 []
     [(base_status (plain_node ''n1''))\<lparr>ns_state := NodeStateUncordoning\<rparr>,
      (base_status (plain_node ''n2''))\<lparr>ns_state := NodeStateFailed\<rparr>] [])"
  by (rule failed_node_halts_rollout [of _ "(base_status (plain_node ''n2''))\<lparr>ns_state := NodeStateFailed\<rparr>"])
    (simp_all add: haltOnFailure_def plain_fw_def)

end
