(* ===== verification/FirmwareFlow.thy ===== *)
theory FirmwareFlow
  imports FirmwareSafety
begin

text \<open>
  The life of one node under a firmware policy: what an observation says about the cluster, how nodes
  are claimed, and which nodes the advance pass leaves alone.
\<close>

section \<open>Observations\<close>

lemma observeNode_cases:
  "result_of (observeNode p cr node) s =
     (let s' = s\<lparr>hist := hist s @ [CGetJob (operatorNamespace p) (jobName cr (nd_name node) (fs_version (fp_spec cr)))]\<rparr>
      in case srv_get_job (pf_reads p) (hist s) (operatorNamespace p)
                (jobName cr (nd_name node) (fs_version (fp_spec cr))) of
           Inr job \<Rightarrow> result_of (observe_job p cr node job) s'
         | Inl e \<Rightarrow>
             if ekind e \<noteq> NotFound then (base_status node)\<lparr>ns_state := NodeStatePending,
               ns_reason := ReasonTransientAPIError, ns_msg := ''transient: lookup job: '' @ emsg e\<rparr>
             else if \<not> drainEnabled cr then base_status node
             else if \<not> nd_unsched node then
               (base_status node)\<lparr>ns_state := NodeStateCordoning, ns_reason := ReasonCordoning\<rparr>
             else if sget (nd_annos node) AnnoCordonedBy \<noteq> fp_name cr then
               (base_status node)\<lparr>ns_state := NodeStatePending, ns_reason := ReasonExternalCordon,
                 ns_msg := MessageExternalCordon\<rparr>
             else result_of (observe_drain p cr node) s')"
  by (simp add: observeNode_def get_job_def Let_def split: sum.split)

text \<open>The states an existing Job, and a node being drained, can be observed in.\<close>

lemma observe_job_state:
  "ns_state (result_of (observe_job p cr node job) s) =
     (if jobFinished job = (True, True) then
        (if drainEnabled cr \<and> sget (nd_annos node) AnnoCordonedBy = fp_name cr
         then NodeStateUncordoning else NodeStateDone)
      else if jobFinished job = (True, False) then NodeStateFailed else NodeStateFlashing)"
  by (auto simp: observe_job_def Let_def split: prod.splits)

lemma observe_drain_pending:
  assumes "result_of (observe_drain p cr node) s = ns" "ns_state ns = NodeStatePending"
  shows "\<exists>h pods. srv_list_pods (pf_reads p) h None [] = Inr pods \<and>
    filter (drainable (nd_name node) (operatorNamespace p)
      (fd_force (fu_drain (fs_upgrade (fp_spec cr)))) (Some PodUsesTenstorrentDevice)) pods = []"
proof -
  let ?l = "srv_list_pods (pf_reads p) (hist s) None []"
  show ?thesis
  proof (cases ?l)
    case (Inr pods)
    with assms show ?thesis
      by (intro exI [of _ "hist s"] exI [of _ pods])
        (auto simp: observe_drain_def listDevicePodsOnNode_def ListDevicePodsOnNode_def
          list_pods_def select_pods_eq split: if_splits)
  qed (use assms in \<open>auto simp: observe_drain_def listDevicePodsOnNode_def ListDevicePodsOnNode_def
        list_pods_def\<close>)
qed

text \<open>With drain enabled, a node observed as ready to flash (\<open>Pending\<close> without a reason) is
  cordoned by this policy, and some pod listing of this observation holds no pod that should be
  drained from it: no running, non-DaemonSet pod outside the operator's namespace that mounts the
  Tenstorrent device, bare pods counting only under \<open>force\<close>.\<close>

theorem ready_node_is_drained:
  assumes "drainEnabled cr" "result_of (observeNode p cr node) s = ns"
    "ns_state ns = NodeStatePending" "ns_reason ns = []"
  shows "nd_unsched node \<and> sget (nd_annos node) AnnoCordonedBy = fp_name cr \<and>
    (\<exists>h pods. srv_list_pods (pf_reads p) h None [] = Inr pods \<and>
       filter (drainable (nd_name node) (operatorNamespace p)
         (fd_force (fu_drain (fs_upgrade (fp_spec cr)))) (Some PodUsesTenstorrentDevice)) pods = [])"
  using assms observe_drain_pending [OF refl]
  by (auto simp: observeNode_cases observe_job_state Let_def ReasonTransientAPIError_def
      ReasonExternalCordon_def split: sum.splits if_splits)

lemma ready_node_is_drained_witness:
  "nd_unsched ((plain_node ''n1'')\<lparr>nd_unsched := True, nd_annos := [AnnoCordonedBy \<mapsto> ''fw'']\<rparr>)"
  using ready_node_is_drained [of "plain_fw ''fw''" "testbed [] [plain_pod ''w'' ''a'' ''n2''] [] []"
      "(plain_node ''n1'')\<lparr>nd_unsched := True, nd_annos := [AnnoCordonedBy \<mapsto> ''fw'']\<rparr>" init_sys _, OF _ refl]
  by (simp add: objects observeNode_cases observe_drain_def listDevicePodsOnNode_def
      ListDevicePodsOnNode_def list_pods_def drainEnabled_def base_status_def zero_pod_spec_def
      Let_def)

text \<open>With drain disabled an observation never reports \<open>Cordoning\<close>, \<open>Draining\<close> or \<open>Uncordoning\<close>:
  the flow collapses to \<open>Pending\<close>, \<open>Flashing\<close>, \<open>Done\<close> and \<open>Failed\<close>.\<close>

theorem drainless_flow:
  assumes "\<not> drainEnabled cr"
  shows "ns_state (result_of (observeNode p cr node) s)
    \<in> {NodeStatePending, NodeStateFlashing, NodeStateDone, NodeStateFailed}"
  using assms
  by (simp add: observeNode_cases observe_job_state base_status_def Let_def split: sum.split)

lemma drainless_flow_witness:
  "ns_state (result_of (observeNode (testbed [] [] [] [])
     ((plain_fw ''fw'')\<lparr>fp_spec := (fp_spec (plain_fw ''fw''))\<lparr>fs_upgrade :=
        (fs_upgrade (fp_spec (plain_fw ''fw'')))\<lparr>fu_drain :=
          (fu_drain (fs_upgrade (fp_spec (plain_fw ''fw''))))\<lparr>fd_enable := Some False\<rparr>\<rparr>\<rparr>\<rparr>)
     (plain_node ''n1'')) init_sys) \<in> {NodeStatePending, NodeStateFlashing, NodeStateDone, NodeStateFailed}"
  by (rule drainless_flow) (simp add: drainEnabled_def)

lemma no_drain_timeout: "ns_state ns \<noteq> NodeStateFailed \<Longrightarrow> \<not> isDrainTimeout ns"
  by (simp add: isDrainTimeout_def)

lemma drain_timeout_observed:
  "isDrainTimeout (result_of (observe_drain p cr node) s) \<longleftrightarrow>
   ns_reason (result_of (observe_drain p cr node) s) = ReasonDrainTimeout"
  "\<not> isDrainTimeout (result_of (observe_job p cr node job) s)"
  "ns_reason (result_of (observe_job p cr node job) s) \<noteq> ReasonDrainTimeout"
  by (auto simp: observe_drain_def observe_job_def Let_def isDrainTimeout_def base_status_def
      const_defs split: sum.splits prod.splits)

text \<open>The metric for drain stalls, which classifies a status by a prefix of its message, agrees with
  the status reason: an observed status counts as a drain timeout exactly when its reason is
  \<open>DrainTimeout\<close>, and never for a failed flash Job.\<close>

theorem drain_timeout_classified:
  "isDrainTimeout (result_of (observeNode p cr node) s) \<longleftrightarrow>
   ns_reason (result_of (observeNode p cr node) s) = ReasonDrainTimeout"
  by (simp add: observeNode_cases Let_def drain_timeout_observed no_drain_timeout base_status_def
      ReasonDrainTimeout_def ReasonTransientAPIError_def ReasonCordoning_def ReasonExternalCordon_def
      split: sum.split)
    (simp add: drain_timeout_observed flip: ReasonDrainTimeout_def)

text \<open>Nothing but the flash Job and the cordon is remembered between reconciles: once the Job of a
  finished flash is gone (the API server collects it a day after it ended), a schedulable node goes
  back to \<open>Cordoning\<close>, even if its version annotation already shows the readback of the policy's
  version.\<close>

theorem collected_job_restarts_node:
  assumes "drainEnabled cr" "\<not> nd_unsched node"
    "srv_get_job (pf_reads p) (hist s) (operatorNamespace p)
       (jobName cr (nd_name node) (fs_version (fp_spec cr))) = Inl e" "ekind e = NotFound"
    "sget (nd_annos node) AnnoCurrentVersion = flash_readback cr"
  shows "ns_state (result_of (observeNode p cr node) s) = NodeStateCordoning \<and>
    ns_current (result_of (observeNode p cr node) s) = flash_readback cr"
  using assms by (simp add: observeNode_cases Let_def base_status_def)

lemma collected_job_restarts_node_witness:
  "ns_state (result_of (observeNode (testbed [] [] [] []) (plain_fw ''fw'')
     ((plain_node ''n1'')\<lparr>nd_annos := [AnnoCurrentVersion \<mapsto> ''19.8.0.0'']\<rparr>)) init_sys) = NodeStateCordoning"
  using collected_job_restarts_node [of "plain_fw ''fw''"
      "(plain_node ''n1'')\<lparr>nd_annos := [AnnoCurrentVersion \<mapsto> ''19.8.0.0'']\<rparr>"
      "testbed [] [] [] []" init_sys "Err NotFound ''not found''"]
  by (simp add: objects drainEnabled_def flash_readback_def)

section \<open>Ownership\<close>

lemma partition_filter:
  "partitionByOwnership nodes cr =
     (filter (\<lambda>n. sget (nd_labels n) LabelOwnerCR \<in> {[], cr}) nodes,
      filter (\<lambda>n. sget (nd_labels n) LabelOwnerCR \<notin> {[], cr}) nodes)"
  by (induction nodes) (auto simp: Let_def)

text \<open>Once a policy has claimed a node, every other policy that matches it puts it among its
  conflicts, and the owner keeps it among its own.\<close>

theorem claim_excludes_other_policies:
  assumes "accepts_patches p" "cr \<noteq> cr'" "cr \<noteq> []"
    "result_of (claimOwnership p node cr) s = (e, node')"
  shows "e = None \<and> partitionByOwnership [node'] cr = ([node'], []) \<and>
    partitionByOwnership [node'] cr' = ([], [node'])"
  using assms
  by (auto simp: claimOwnership_def labelNode_def patch_node_accepts partition_filter split: if_splits)

lemma claim_excludes_other_policies_witness:
  "snd (partitionByOwnership [snd (result_of (claimOwnership (testbed [] [] [] []) (plain_node ''n1'') ''a'')
     init_sys)] ''b'') \<noteq> []"
  using claim_excludes_other_policies [of "testbed [] [] [] []" "''a''" "''b''" "plain_node ''n1''" init_sys]
  by (cases "result_of (claimOwnership (testbed [] [] [] []) (plain_node ''n1'') ''a'') init_sys") auto

section \<open>Nodes the pass leaves alone\<close>

text \<open>The node a write is for.\<close>

fun writes_to :: "string set \<Rightarrow> call \<Rightarrow> bool" where
  "writes_to N (CCreateJob j e) = (ps_node (jsp_pod (jb_spec j)) \<in> N)"
| "writes_to N (CPatchNode base new e) = (nd_name base \<in> N \<and> nd_name new \<in> N)"
| "writes_to N _ = True"

text \<open>Statuses that say: hands off.\<close>

definition hands_off :: "node_status \<Rightarrow> bool" where
  "hands_off ns \<longleftrightarrow> \<not> isAdvanceable (ns_state ns) \<or> ns_msg ns = MessageNodeConflict \<or>
     ns_msg ns = MessageExternalCordon"

lemma labelNode_name:
  "keeps_names p \<Longrightarrow> nd_name (snd (result_of (labelNode p node kv) s)) = nd_name node"
  by (simp add: labelNode_def patch_name)

lemma annotateNode_name:
  "keeps_names p \<Longrightarrow> nd_name (snd (result_of (annotateNode p node kv) s)) = nd_name node"
  by (simp add: annotateNode_def patch_name)

lemma claimOwnership_name:
  "keeps_names p \<Longrightarrow> nd_name (snd (result_of (claimOwnership p node cr) s)) = nd_name node"
  by (simp add: claimOwnership_def labelNode_name)

lemma jb_node [simp]:
  "ps_node (jsp_pod (jb_spec (setOwnerRef (buildFlashJob p cr n img) cr'))) = n"
  by (simp add: setOwnerRef_def buildFlashJob_def flash_pod_def zero_pod_spec_def)

lemma writes_to_labelNode: "nd_name node \<in> N \<Longrightarrow> issues (writes_to N) (labelNode p node kv)"
  by (rule issues_labelNode) (simp add: node_patch_def)

lemma writes_to_annotateNode: "nd_name node \<in> N \<Longrightarrow> issues (writes_to N) (annotateNode p node kv)"
  by (rule issues_annotateNode) (simp add: node_patch_def)

lemma writes_to_spawn:
  assumes "keeps_names p" "nd_name node \<in> N"
  shows "issues (writes_to N) (spawnFlashJob p cr node ns)"
proof -
  have after: "issues (writes_to N) (case result_of (annotateNode p node kv) s of (e, node) \<Rightarrow> f e node)"
    if "\<And>e node'. nd_name node' = nd_name node \<Longrightarrow> issues (writes_to N) (f e node')"
    for kv s and f :: "err option \<Rightarrow> node \<Rightarrow> advance io"
    using that annotateNode_name [OF assms(1), of node kv s] by (simp add: split_beta)
  show ?thesis
    unfolding spawnFlashJob_def Let_def
    by (intro frame_rules after issue.bind_result [of _ "annotateNode p node kv" for kv]
        writes_to_annotateNode writes_to_labelNode)
      (use assms in auto)
qed

lemma writes_to_advance_state:
  assumes "keeps_names p" "nd_name node \<in> N"
  shows "issues (writes_to N) (advance_state p cr node ns)"
proof -
  have "issues (writes_to N) (cordonNode p node c)" "issues (writes_to N) (uncordonNode p node c)" for c
    unfolding cordonNode_def uncordonNode_def
    by (intro issues_CordonNode issues_UncordonNode;
        use assms in \<open>simp add: cordon_patch_def uncordon_patch_def\<close>)+
  moreover have "issues (writes_to N) (evict_device_pods p cr ns' pods)" for ns' pods
    by (rule issues_evict_device_pods) simp
  ultimately show ?thesis
    unfolding advance_state_def
    by (cases "ns_state ns") (auto intro!: frame_rules writes_to_spawn assms)
qed

lemma writes_to_advance:
  assumes "keeps_names p" "nd_name node \<in> N"
  shows "issues (writes_to N) (advanceNode p cr node ns)"
proof -
  have "issues (writes_to N) (case result_of (claimOwnership p node (fp_name cr)) s of (e, node) \<Rightarrow>
      (case e of Some e \<Rightarrow> State_Monad.return (False, Some (wrap ''claim ownership'' e), node, ns)
       | None \<Rightarrow> advance_state p cr node ns))" for s
    using claimOwnership_name [OF assms(1), of node "fp_name cr" s] assms
    by (auto simp: split_beta intro!: frame_rules writes_to_advance_state)
  then show ?thesis
    unfolding advanceNode_def
    by (intro issue.bind_result issues_claimOwnership) (use assms in \<open>auto simp: node_patch_def\<close>)
qed

lemma findNode_name: "findNode nodes n = Some node \<Longrightarrow> nd_name node = n"
  by (induction nodes) (auto split: if_splits)

lemma issues_advance_pass_on:
  assumes "\<And>node ns. ns \<in> set nss \<Longrightarrow> \<not> hands_off ns \<Longrightarrow> nd_name node = ns_name ns \<Longrightarrow>
    issues P (advanceNode p cr node ns)"
  shows "issues P (advance_pass p cr stop capacity owned nss)"
  using assms
proof (induction nss arbitrary: capacity owned)
  case (Cons ns rest)
  show ?case
    unfolding advance_pass.simps Let_def
    by (intro frame_rules Cons) (auto simp: hands_off_def dest: findNode_name)
qed (auto intro: frame_rules)

text \<open>C15: The advance pass writes only to nodes whose status allows it: no Job is created for, and no
  patch sent to, a node that is owned by another policy, cordoned by someone else, being flashed,
  done or failed. The server is assumed to answer a node patch with that node.\<close>

theorem hands_off_nodes_untouched:
  assumes "keeps_names p"
  shows "issues (writes_to (ns_name ` {ns \<in> set nodeStates. \<not> hands_off ns}))
    (advance_pass p cr stop capacity owned nodeStates)"
  by (rule issues_advance_pass_on) (auto intro!: writes_to_advance assms)

lemma hands_off_nodes_untouched_witness:
  "issues (writes_to {}) (advance_pass (testbed [] [] [] []) (plain_fw ''fw'') False 5
     [plain_node ''n1''] [conflict_status (plain_node ''n1'')])"
proof -
  have keeps: "keeps_names (testbed [] [] [] [])" by (simp add: keeps_names_def)
  have none: "ns_name ` {ns \<in> set [conflict_status (plain_node ''n1'')]. \<not> hands_off ns} = {}"
    by (auto simp: hands_off_def conflict_status_def)
  show ?thesis
    using hands_off_nodes_untouched [OF keeps, of "[conflict_status (plain_node ''n1'')]"]
    unfolding none .
qed

end
