(* ===== verification/FirmwareGaps.thy ===== *)
theory FirmwareGaps
  imports FirmwareFlow
begin

text \<open>
  Two places where the rollout departs from what its comments promise, stated as theorems about the
  code as it is: a transient lookup error leads to a flash of an undrained node, and the capacity
  does not limit how many nodes are cordoned.
\<close>

section \<open>Transient errors\<close>

lemma spawn_creates:
  assumes "\<And>h j. srv_create_job (pf_writes p) h j = Inr j"
  shows "jobs_created (final_of (spawnFlashJob p cr node ns) s) = jobs_created s + 1"
proof -
  have one: "jobs_created (t\<lparr>hist := hist t @ [CCreateJob j None], mops := x\<rparr>) = jobs_created t + 1" for t j x
    by (simp add: jobs_created_def)
  show ?thesis
    using jobs_created_issues [OF no_job_labelNode] jobs_created_issues [OF no_job_annotateNode] assms
    by (auto simp: spawnFlashJob_def create_job_def Let_def one split: prod.splits option.splits)
qed

text \<open>C37: A node whose flash Job could not be looked up because of a transient API error is reported as
  \<open>Pending\<close>, and the advance loop takes that for a node ready to flash: with a free slot it creates
  the flash Job, although drain is enabled and the node is neither cordoned nor drained.\<close>

theorem transient_error_flashes_undrained_node:
  assumes "\<And>h ns n. srv_get_job (pf_reads p) h ns n = Inl e" "ekind e \<noteq> NotFound"
    "accepts_patches p" "\<And>h j. srv_create_job (pf_writes p) h j = Inr j" "0 < capacity"
  shows "jobs_created (final_of (advance_pass p cr False capacity [node]
      [result_of (observeNode p cr node) s]) t) = jobs_created t + 1"
proof -
  define ns where "ns = result_of (observeNode p cr node) s"
  have ns: "ns_state ns = NodeStatePending" "ns_name ns = nd_name node"
    "ns_msg ns \<noteq> MessageNodeConflict" "ns_msg ns \<noteq> MessageExternalCordon"
    using assms(1,2)
    by (simp_all add: ns_def observeNode_cases Let_def base_status_def const_defs)
  have "fst (result_of (claimOwnership p node (fp_name cr)) t) = None"
    by (simp add: claimOwnership_def labelNode_def patch_node_accepts assms(3))
  then obtain cn where c: "result_of (claimOwnership p node (fp_name cr)) t = (None, cn)"
    by (metis prod.collapse)
  have "jobs_created (final_of (advanceNode p cr node ns) t) = jobs_created t + 1"
    using c ns(1) spawn_creates [OF assms(4)] jobs_created_issues [OF no_job_claimOwnership]
    by (simp add: advanceNode_def advance_state_def)
  then show ?thesis
    using ns assms(5) by (simp add: Let_def flip: ns_def split: prod.splits)
qed

lemma transient_error_flashes_undrained_node_witness:
  "jobs_created (final_of (advance_pass ((testbed [] [] [] [])\<lparr>pf_reads :=
       (pf_reads (testbed [] [] [] []))\<lparr>srv_get_job := \<lambda>h ns n. Inl (Err OtherErr ''timeout'')\<rparr>\<rparr>)
     (plain_fw ''fw'') False 1 [plain_node ''n1'']
     [result_of (observeNode ((testbed [] [] [] [])\<lparr>pf_reads :=
       (pf_reads (testbed [] [] [] []))\<lparr>srv_get_job := \<lambda>h ns n. Inl (Err OtherErr ''timeout'')\<rparr>\<rparr>)
       (plain_fw ''fw'') (plain_node ''n1'')) init_sys]) init_sys) = 1"
proof -
  let ?p = "(testbed [] [] [] [])\<lparr>pf_reads :=
    (pf_reads (testbed [] [] [] []))\<lparr>srv_get_job := \<lambda>h ns n. Inl (Err OtherErr ''timeout'')\<rparr>\<rparr>"
  have "accepts_patches ?p" by (simp add: accepts_patches_def)
  then show ?thesis
    using transient_error_flashes_undrained_node [of ?p "Err OtherErr ''timeout''" 1 "plain_fw ''fw''"
        "plain_node ''n1''" init_sys init_sys]
    by (simp add: jobs_created_def init_sys_def del: advance_pass.simps)
qed

section \<open>Cordoning is not limited\<close>

lemma findNode_store:
  "findNode nodes n = Some x \<Longrightarrow> nd_name y = n \<Longrightarrow>
   findNode (store_node nodes n y) m = (if m = n then Some y else findNode nodes m)"
  by (induction nodes) auto

text \<open>The node of that name is cordoned and annotated with the policy.\<close>

definition cordoned_for :: "string \<Rightarrow> node list \<Rightarrow> string \<Rightarrow> bool" where
  "cordoned_for cr nodes n \<longleftrightarrow> (\<exists>node. findNode nodes n = Some node \<and> nd_unsched node \<and>
     sget (nd_annos node) AnnoCordonedBy = cr)"

lemma accepts_keeps: "accepts_patches p \<Longrightarrow> keeps_names p"
  by (simp add: accepts_patches_def keeps_names_def)

lemma advance_cordons:
  assumes "accepts_patches p" "ns_state ns = NodeStateCordoning"
    "result_of (advanceNode p cr node ns) s = (adv, e, node', ns')"
  shows "nd_name node' = nd_name node \<and> nd_unsched node' \<and>
    sget (nd_annos node') AnnoCordonedBy = fp_name cr"
proof -
  obtain cn where c: "result_of (claimOwnership p node (fp_name cr)) s = (None, cn)"
    "nd_name cn = nd_name node"
    using claimOwnership_name [OF accepts_keeps [OF assms(1)], of node "fp_name cr" s]
    by (cases "result_of (claimOwnership p node (fp_name cr)) s")
      (auto simp: claimOwnership_def labelNode_def patch_node_accepts assms(1) split: if_splits)
  let ?t = "final_of (claimOwnership p node (fp_name cr)) s"
  obtain ce n' where r: "result_of (CordonNode p cn (firmwareCordonOpts (fp_name cr))) ?t = (ce, n')"
    by (meson surj_pair)
  from fw_cordon.cordon_establishes [OF assms(1) r]
  have "ce = None" "nd_unsched n'" "sget (nd_annos n') AnnoCordonedBy = fp_name cr"
    by (simp_all add: fw_cordon.held_by_def)
  moreover have "nd_name n' = nd_name cn"
    using r by (auto simp: CordonNode_def Let_def patch_node_accepts assms(1) split: if_splits)
  ultimately show ?thesis
    using assms(2,3) c r by (simp add: advanceNode_def advance_state_def cordonNode_def)
qed

text \<open>C39: \<open>maxParallel\<close> does not limit cordoning: every owned node observed as \<open>Cordoning\<close> is cordoned in the
  same pass, whatever the capacity, zero and negative values included.\<close>

theorem cordoning_ignores_capacity:
  assumes "accepts_patches p" "n \<in> set owned"
    "nodeStates = map (\<lambda>n. (base_status n)\<lparr>ns_state := NodeStateCordoning, ns_reason := ReasonCordoning\<rparr>) owned"
  shows "cordoned_for (fp_name cr)
    (snd (result_of (advance_pass p cr False capacity owned nodeStates) s)) (nd_name n)"
proof -
  have found: "n \<in> set nodes \<Longrightarrow> findNode nodes (nd_name n) \<noteq> None" for n nodes
    by (induction nodes) auto
  have gen: "cordoned_for (fp_name cr) (snd (result_of (advance_pass p cr False capacity owned' nss) s)) m"
    if "\<And>ns. ns \<in> set nss \<Longrightarrow> ns_state ns = NodeStateCordoning \<and> ns_msg ns = [] \<and>
          findNode owned' (ns_name ns) \<noteq> None"
      and "cordoned_for (fp_name cr) owned' m \<or> m \<in> ns_name ` set nss" for nss owned' m
    using that
  proof (induction capacity owned' nss s rule: advance_pass_induct [where p = p and cr = cr])
    case (waits capacity owned ns rest s)
    then show ?case
      by (simp add: waits_def MessageNodeConflict_def MessageExternalCordon_def del: advance_pass.simps)
  next
    case (goes capacity owned ns rest s node adv e node' ns' t)
    from advance_cordons [OF assms(1) _ goes(3)] goes(6) findNode_name [OF goes(2)]
    have n': "nd_name node' = ns_name ns" "nd_unsched node'"
        "sget (nd_annos node') AnnoCordonedBy = fp_name cr"
      by auto
    let ?owned = "store_node owned (ns_name ns) node'"
    note store = findNode_store [OF goes(2) n'(1)]
    have "cordoned_for (fp_name cr)
        (snd (result_of (advance_pass p cr False (spend capacity ns adv ns') ?owned rest) t)) m"
      using goes(6,7) n' by (intro goes(5)) (auto simp: cordoned_for_def store)
    then show ?case
      using advance_pass_goes(2) [OF goes(1) _ _ refl, of p cr s adv e node' ns' t rest] goes(2-4) by simp
  qed simp
  show ?thesis
    by (rule gen) (use assms(2,3) found [of _ owned] in \<open>auto simp: base_status_def image_image\<close>)
qed

lemma cordoning_ignores_capacity_witness:
  "cordoned_for ''fw'' (snd (result_of (advance_pass (testbed [] [] [] []) (plain_fw ''fw'') False (- 3)
     [plain_node ''n1'', plain_node ''n2'']
     (map (\<lambda>n. (base_status n)\<lparr>ns_state := NodeStateCordoning, ns_reason := ReasonCordoning\<rparr>)
       [plain_node ''n1'', plain_node ''n2''])) init_sys)) ''n2''"
  using cordoning_ignores_capacity [OF testbed_accepts _ refl, of "plain_node ''n2''"
      "[plain_node ''n1'', plain_node ''n2'']" "plain_fw ''fw''" _ _ _ _ "- 3" init_sys]
  by (simp add: plain_fw_def plain_node_def del: advance_pass.simps)

end
