(* ===== verification/FirmwareStatus.thy ===== *)
theory FirmwareStatus
  imports FirmwareSafety "HOL-Library.Multiset"
begin

text \<open>
  The report of a firmware reconcile: time stamps and events, the summary and its 32-bit counters,
  the top-level conditions, the status write and the requeue.
\<close>

section \<open>Stamps and events\<close>

definition unchanged :: "(string \<rightharpoonup> node_status) \<Rightarrow> node_status \<Rightarrow> bool" where
  "unchanged prev ns \<longleftrightarrow> (\<exists>old. prev (ns_name ns) = Some old \<and>
     ns_state old = ns_state ns \<and> ns_reason old = ns_reason ns)"

definition node_event :: "fw_policy \<Rightarrow> node_status \<Rightarrow> event" where
  "node_event cr ns = Event (fp_name cr) (event_type_of (ns_state ns) (ns_reason ns)) (ns_reason ns)
     (if ns_msg ns \<noteq> [] then ns_name ns @ '': '' @ ns_msg ns else ns_name ns)"

lemma run_stamp:
  "result_of (stamp p cr prev t ns) s =
     ns\<lparr>ns_time := (if unchanged prev ns then ns_time (the (prev (ns_name ns))) else t)\<rparr>"
  "final_of (stamp p cr prev t ns) s =
     (if unchanged prev ns \<or> \<not> pf_recorder p \<or> ns_reason ns = [] then s
      else s\<lparr>evts := evts s @ [node_event cr ns]\<rparr>)"
  by (auto simp: stamp_def unchanged_def recordNodeStateEvent_def node_event_def Let_def
      split: option.splits)

text \<open>A node's transition time changes, and an event is emitted, exactly when its state or its
  reason differs from the last published status (or there is none); a change without a reason stays
  silent, and no event is emitted without a recorder. The events come in node order.\<close>

theorem stamps_and_events:
  "result_of (stamp_all p cr prev t nss) s =
     map (\<lambda>ns. ns\<lparr>ns_time := (if unchanged prev ns then ns_time (the (prev (ns_name ns))) else t)\<rparr>) nss \<and>
   evts (final_of (stamp_all p cr prev t nss) s) = evts s @
     (if pf_recorder p
      then map (node_event cr) (filter (\<lambda>ns. \<not> unchanged prev ns \<and> ns_reason ns \<noteq> []) nss) else [])"
proof (induction nss arbitrary: s)
  case (Cons ns nss)
  then show ?case by (simp add: run_stamp)
qed simp

section \<open>Summary\<close>

lemma fst_summarize:
  "fst (result_of (summarize p cr owned sm nss) s) = fold (\<lambda>ns sm. count_state sm (ns_state ns)) nss sm"
  by (induction nss arbitrary: owned sm s) (simp_all add: Let_def)

text \<open>The class of a state in the summary.\<close>

fun summary_class :: "node_state \<Rightarrow> nat" where
  "summary_class NodeStateDone = 0"
| "summary_class NodeStateFailed = 1"
| "summary_class NodeStatePending = 3"
| "summary_class _ = 2"

definition in_class :: "nat \<Rightarrow> node_status list \<Rightarrow> int32" where
  "in_class k nss = word_of_nat (length (filter (\<lambda>ns. summary_class (ns_state ns) = k) nss))"

lemma fold_count_state:
  "fold (\<lambda>ns sm. count_state sm (ns_state ns)) nss sm =
     \<lparr>sm_matched = sm_matched sm, sm_uptodate = sm_uptodate sm + in_class 0 nss,
      sm_inprogress = sm_inprogress sm + in_class 2 nss, sm_failed = sm_failed sm + in_class 1 nss,
      sm_pending = sm_pending sm + in_class 3 nss\<rparr>"
proof (induction nss arbitrary: sm)
  case (Cons ns nss)
  then show ?case
    by (cases "ns_state ns") (simp_all add: count_state_def in_class_def)
qed (simp add: in_class_def)

lemma length_classes:
  "length nss = length (filter (\<lambda>ns. summary_class (ns_state ns) = 0) nss) +
     length (filter (\<lambda>ns. summary_class (ns_state ns) = 1) nss) +
     length (filter (\<lambda>ns. summary_class (ns_state ns) = 2) nss) +
     length (filter (\<lambda>ns. summary_class (ns_state ns) = 3) nss)"
proof (induction nss)
  case (Cons ns nss)
  then show ?case by (cases "ns_state ns") simp_all
qed simp

lemma summary_counts:
  "fst (result_of (summarize p cr owned (zero_summary (length nss)) nss) s) =
     \<lparr>sm_matched = word_of_nat (length nss), sm_uptodate = in_class 0 nss,
      sm_inprogress = in_class 2 nss, sm_failed = in_class 1 nss, sm_pending = in_class 3 nss\<rparr>"
  by (simp add: fst_summarize fold_count_state zero_summary_def)

text \<open>C31: The summary counts every matched node in exactly one class (up to date, failed, in progress,
  pending), in 32-bit arithmetic: the four counters are the sizes of the classes and add up to
  \<open>matched\<close>, including when the counters wrap.\<close>

theorem summary_partitions_nodes:
  "(let sm = fst (result_of (summarize p cr owned (zero_summary (length nss)) nss) s) in
    sm = \<lparr>sm_matched = word_of_nat (length nss), sm_uptodate = in_class 0 nss,
       sm_inprogress = in_class 2 nss, sm_failed = in_class 1 nss, sm_pending = in_class 3 nss\<rparr> \<and>
    sm_matched sm = sm_uptodate sm + sm_failed sm + sm_inprogress sm + sm_pending sm)"
proof -
  have "(word_of_nat (length nss) :: int32) = in_class 0 nss + in_class 1 nss + in_class 2 nss + in_class 3 nss"
    unfolding in_class_def by (subst length_classes) simp
  then show ?thesis by (simp add: summary_counts Let_def)
qed

section \<open>Conditions\<close>

text \<open>A reconcile sets the conditions \<open>Ready\<close> and then \<open>Progressing\<close>, both for the current
  generation: \<open>Ready\<close> is true exactly when no node failed, is in progress or pending; \<open>Progressing\<close> is
  true exactly when none failed and some node is in progress or pending. They are never true together. A
  failed node makes the reason \<open>Halted\<close>, with \<open>haltOnFailure\<close> or without.\<close>

theorem top_level_conditions:
  "\<exists>ready progressing.
     ft_conds (fp_status (result_of (setTopLevelConditions p cr sm) s)) =
       lib_set_condition (pf_lib p) (lib_set_condition (pf_lib p) (ft_conds (fp_status cr)) ready) progressing \<and>
     mc_type ready = ''Ready'' \<and> mc_type progressing = ''Progressing'' \<and>
     mc_gen ready = fp_generation cr \<and> mc_gen progressing = fp_generation cr \<and>
     (mc_status ready = ConditionTrue \<longleftrightarrow>
        sint (sm_failed sm) \<le> 0 \<and> sint (sm_inprogress sm) \<le> 0 \<and> sint (sm_pending sm) \<le> 0) \<and>
     (mc_status progressing = ConditionTrue \<longleftrightarrow>
        sint (sm_failed sm) \<le> 0 \<and> (0 < sint (sm_inprogress sm) \<or> 0 < sint (sm_pending sm))) \<and>
     \<not> (mc_status ready = ConditionTrue \<and> mc_status progressing = ConditionTrue) \<and>
     (mc_reason progressing = ''Halted'' \<longleftrightarrow> 0 < sint (sm_failed sm))"
proof -
  consider "0 < sint (sm_failed sm)"
    | "sint (sm_failed sm) \<le> 0" "0 < sint (sm_inprogress sm) \<or> 0 < sint (sm_pending sm)"
    | "sint (sm_failed sm) \<le> 0" "sint (sm_inprogress sm) \<le> 0" "sint (sm_pending sm) \<le> 0"
    by linarith
  then show ?thesis
    by cases (simp_all add: setTopLevelConditions_def Let_def now_def,
      (rule exI, rule exI, rule conjI, rule refl, force)+)
qed

section \<open>The published status\<close>

lemma advance_pass_names:
  "map ns_name (fst (result_of (advance_pass p cr stop capacity owned nss) s)) = map ns_name nss"
proof (cases stop)
  case True
  then show ?thesis using advance_pass_stop [of p cr capacity owned nss s] by (simp add: result_of_def)
next
  case False
  have "map ns_name (fst (result_of (advance_pass p cr False capacity owned nss) s)) = map ns_name nss"
  proof (induction capacity owned nss s rule: advance_pass_induct [where p = p and cr = cr])
    case (waits capacity owned ns rest s)
    then show ?case by (simp add: advance_pass_waits(2) del: advance_pass.simps)
  next
    case (goes capacity owned ns rest s node adv e node' ns' t)
    then show ?case
      using advance_pass_goes(2) [OF goes(1) _ _ refl, of p cr s adv e node' ns' t rest]
        advance_name [OF goes(3)] by simp
  qed simp
  with False show ?thesis by simp
qed

lemma explain_name [simp]: "ns_name (explain cr hlt ns) = ns_name ns"
  by (simp add: explain_def)

lemma stamp_all_names: "map ns_name (result_of (stamp_all p cr prev t nss) s) = map ns_name nss"
  by (induction nss arbitrary: s) (simp_all add: run_stamp)

lemma map_sort_key: "map f (sort_key f xs) = sort (map f xs)"
  by (rule properties_for_sort [symmetric]) simp_all

lemma advance_writes_no_status: "issues (\<lambda>c. \<forall>cr' e. c \<noteq> CUpdateFwStatus cr' e) (advanceNode p cr node ns)"
  unfolding advanceNode_def
  by (intro frame_rules issues_claimOwnership issues_advance_state) simp_all

definition status_write_ok :: "fw_policy \<Rightarrow> node_status list \<Rightarrow> call \<Rightarrow> bool" where
  "status_write_ok cr nodeStates c =
     (case c of
        CUpdateFwStatus cr' e \<Rightarrow>
          fp_name cr' = fp_name cr \<and> fp_spec cr' = fp_spec cr \<and>
          map ns_name (ft_nodes (fp_status cr')) = sort (map ns_name nodeStates) \<and>
          sm_matched (ft_summary (fp_status cr')) = word_of_nat (length nodeStates) \<and>
          ft_observed (fp_status cr') = fp_generation cr \<and>
          ft_desired (fp_status cr') = fs_version (fp_spec cr)
      | _ \<Rightarrow> True)"

text \<open>C30: The status a reconcile writes lists every observed node exactly once, sorted by name, with the
  number of nodes, for the current generation and version. \<open>nodeStates\<close> are the statuses of the owned
  nodes followed by those in conflict.\<close>

theorem published_status:
  "issues (status_write_ok cr nodeStates) (roll_out p cr t owned nodeStates jobs)"
proof -
  let ?P = "status_write_ok cr nodeStates"
  have other: "?P c" if "\<forall>cr e. c \<noteq> CUpdateFwStatus cr e" for c
    using that by (cases c) (simp_all add: status_write_ok_def)
  have fin: "issues ?P (finish_reconcile p cr keys (fst (result_of (summarize p cr o' (zero_summary (length nss)) nss) s'))
      (sort_key ns_name nss))"
    if "map ns_name nss = map ns_name nodeStates" for keys o' nss s'
    using that map_eq_imp_length_eq [OF that] summary_counts [of p cr o' nss s']
    by (intro issues_finish_reconcile)
      (auto simp: other status_write_ok_def published_def map_sort_key Let_def)
  have pass: "issues ?P (advance_pass p cr stop c o' nss)" for stop c o' nss
    by (rule issues_mono [of "\<lambda>c. \<forall>cr' e. c \<noteq> CUpdateFwStatus cr' e"])
      (auto intro!: issues_advance_pass advance_writes_no_status other)
  have summ: "issues ?P (summarize p cr o' sm nss)" for o' sm nss
    by (rule issues_summarize) (simp add: other)
  have rest: "issues ?P (do {
      nss \<leftarrow> stamp_all p cr prev t nss;
      (summary, owned) \<leftarrow> summarize p cr o' (zero_summary (length nss)) nss;
      finish_reconcile p cr keys summary (sort_key ns_name nss) })"
    if "map ns_name nss = map ns_name nodeStates" for prev o' nss keys
    using that by (intro issue.bind_result issues_stamp_all summ) (simp add: split_beta fin stamp_all_names)
  have names: "map ns_name (map (explain cr h) (fst (result_of (advance_pass p cr stop c owned nodeStates) s')))
      = map ns_name nodeStates" for h stop c s'
    by (simp add: comp_def advance_pass_names)
  show ?thesis
    unfolding roll_out_def Let_def
    by (intro issue.bind [OF issues_metric] issue.bind [OF issues_recordFlashJobMetrics]
        issue.bind_result pass)
      (use rest [OF names] in \<open>simp add: split_beta\<close>)
qed

section \<open>Requeue\<close>

definition unfinished :: "fw_summary \<Rightarrow> bool" where
  "unfinished sm \<longleftrightarrow> 0 < sint (sm_inprogress sm) \<or> 0 < sint (sm_pending sm)"

text \<open>A rollout is never dropped: when the final part of a reconcile returns no error and asks for no
  requeue, no node is in progress or pending. Whatever the server answers to the status update, an
  unfinished rollout ends in an error, an immediate requeue or one after thirty seconds.\<close>

theorem unfinished_rollout_requeued:
  assumes "unfinished sm" "result_of (finish_reconcile p cr keys sm nodes) s = (r, None)"
  shows "rr_requeue r \<or> rr_after r = 30 * second"
  using assms
  by (auto simp: finish_reconcile_def unfinished_def Let_def split: sum.splits if_splits option.splits)

lemma unfinished_rollout_requeued_witness:
  "rr_after (fst (result_of (finish_reconcile (testbed [] [] [] []) (plain_fw ''fw'') []
     ((zero_summary 1)\<lparr>sm_pending := 1\<rparr>) []) init_sys)) = 30 * second"
proof -
  let ?run = "result_of (finish_reconcile (testbed [] [] [] []) (plain_fw ''fw'') []
     ((zero_summary 1)\<lparr>sm_pending := 1\<rparr>) []) init_sys"
  have r: "snd ?run = None" "\<not> rr_requeue (fst ?run)"
    by (simp_all add: finish_reconcile_def Let_def update_fw_status_def zero_summary_def no_requeue_def
        split: option.split)
  then show ?thesis
    using unfinished_rollout_requeued [of "(zero_summary 1)\<lparr>sm_pending := 1\<rparr>" "testbed [] [] [] []"
        "plain_fw ''fw''" "[]" "[]" init_sys "fst ?run"]
    by (simp add: unfinished_def prod_eq_iff)
qed

section \<open>Parked nodes\<close>

text \<open>A node that the policy itself holds back says so: when the rollout is stopped, no status is left
  \<open>Pending\<close> without a reason; and the explanation changes nothing else.\<close>

theorem parked_nodes_explained:
  assumes "\<not> autoUpgrade cr \<or> fs_paused (fp_spec cr) \<or> hlt"
  shows "(ns_state (explain cr hlt ns) = NodeStatePending \<longrightarrow> ns_reason (explain cr hlt ns) \<noteq> []) \<and>
    (ns_state ns = NodeStatePending \<and> ns_reason ns = [] \<or> explain cr hlt ns = ns) \<and>
    ns_state (explain cr hlt ns) = ns_state ns \<and> ns_name (explain cr hlt ns) = ns_name ns"
  using assms by (auto simp: explain_def const_defs)

lemma parked_nodes_explained_witness:
  "ns_reason (explain (plain_fw ''fw'') True (base_status (plain_node ''n1''))) \<noteq> []"
  using parked_nodes_explained [of "plain_fw ''fw''" True "base_status (plain_node ''n1'')"]
  by (simp add: base_status_def)

section \<open>Deleted policies\<close>

text \<open>For a policy that is gone or being deleted, a reconcile reads the policy and nothing else,
  leaves no series of that policy in any per-policy vector, forgets its dedup history, and keeps the
  history of every other policy.\<close>

theorem deleted_policy_forgotten:
  assumes "srv_get_fw (pf_reads p) (hist s) name = Inl (Err NotFound m) \<or>
    srv_get_fw (pf_reads p) (hist s) name = Inr cr \<and> fp_deleted cr \<noteq> None \<and> fp_name cr = name"
    "t = final_of (FirmwareReconcile p name) s"
  shows "result_of (FirmwareReconcile p name) s = (no_requeue, None) \<and>
    hist t = hist s @ [CGetFw name] \<and>
    list_all (\<lambda>f. table_series (mops t) f (name # l) = None) firmware_cr_families \<and>
    seen t = (seen s)(name := None)"
proof -
  have "t = final_of (do { DeleteFirmwarePolicySeries name; events_Forget name }) (s\<lparr>hist := hist s @ [CGetFw name]\<rparr>)"
    "result_of (FirmwareReconcile p name) s = (no_requeue, None)"
    using assms by (auto simp: FirmwareReconcile_def get_fw_def)
  then show ?thesis
    by (simp add: final_DeleteSeries events_Forget_def Forget_def list_all_iff table.delete_all)
qed

lemma deleted_policy_forgotten_witness:
  "table_series (mops (final_of (FirmwareReconcile (testbed [] [] [] []) ''fw'')
     (init_sys\<lparr>mops := [MSet FirmwareFlashJobsInFlight [''fw''] 3]\<rparr>))) FirmwareFlashJobsInFlight [''fw''] = None"
  using deleted_policy_forgotten [of "testbed [] [] [] []" "init_sys\<lparr>mops := [MSet FirmwareFlashJobsInFlight [''fw''] 3]\<rparr>"
      "''fw''" "''fw''" _ _ "[]", OF _ refl]
  by (simp add: testbed_def firmware_cr_families_def)

end
