(* ===== verification/Cluster.thy ===== *)
theory Cluster
  imports FirmwareFlow
begin

text \<open>
  The firmware controller in a loop with the cluster it works on. The API server is third-party code:
  the locale \<open>api_server\<close> states what is relied on about its answers (they show the current objects, and
  an accepted write takes effect), any of which may still fail; it is interpreted on a server that keeps
  the objects in memory. The phase of a node abstracts the cluster to the state machine that the
  comments of the source describe.
\<close>

section \<open>The contents of the cluster\<close>

record cluster =
  cl_nodes :: "node list"
  cl_pods :: "pod list"
  cl_jobs :: "job list"

definition node_of :: "cluster \<Rightarrow> string \<Rightarrow> node option" where
  "node_of c n = find (\<lambda>nd. nd_name nd = n) (cl_nodes c)"

definition find_job :: "cluster \<Rightarrow> string \<Rightarrow> string \<Rightarrow> job option" where
  "find_job c ns n = find (\<lambda>j. jb_ns j = ns \<and> jb_name j = n) (cl_jobs c)"

text \<open>A merge patch is the difference of two objects, applied to the stored one.\<close>

definition merge_map :: "labels \<Rightarrow> labels \<Rightarrow> labels \<Rightarrow> labels" where
  "merge_map base new cur = (\<lambda>k. if new k \<noteq> base k then new k else cur k)"

definition merge_node :: "node \<Rightarrow> node \<Rightarrow> node \<Rightarrow> node" where
  "merge_node base new cur = cur\<lparr>
     nd_labels := merge_map (nd_labels base) (nd_labels new) (nd_labels cur),
     nd_annos := merge_map (nd_annos base) (nd_annos new) (nd_annos cur),
     nd_unsched := (if nd_unsched new \<noteq> nd_unsched base then nd_unsched new else nd_unsched cur)\<rparr>"

text \<open>The effect of a call: only accepted writes have one. An evicted pod leaves later, when its
  containers have stopped; an object is never created twice.\<close>

fun apply_call :: "call \<Rightarrow> cluster \<Rightarrow> cluster" where
  "apply_call (CPatchNode base new None) c = c\<lparr>cl_nodes :=
     map (\<lambda>nd. if nd_name nd = nd_name base then merge_node base new nd else nd) (cl_nodes c)\<rparr>"
| "apply_call (CCreateJob j None) c =
     (if find_job c (jb_ns j) (jb_name j) = None then c\<lparr>cl_jobs := cl_jobs c @ [j]\<rparr> else c)"
| "apply_call _ c = c"

definition replay :: "cluster \<Rightarrow> call list \<Rightarrow> cluster" where
  "replay c h = fold apply_call h c"

lemma replay_Nil [simp]: "replay c [] = c"
  by (simp add: replay_def)

lemma replay_append [simp]: "replay c (h @ h') = replay (replay c h) h'"
  by (simp add: replay_def)

lemma replay_Cons [simp]: "replay c (x # h) = replay (apply_call x c) h"
  by (simp add: replay_def)

lemma apply_read: "read_call x \<Longrightarrow> apply_call x c = c"
  by (cases x) simp_all

lemma replay_reads: "list_all read_call h \<Longrightarrow> replay c h = c"
  by (induction h) (simp_all add: apply_read)

lemma apply_call_pods [simp]: "cl_pods (apply_call x c) = cl_pods c"
  by (induction x c rule: apply_call.induct) simp_all

lemma replay_pods [simp]: "cl_pods (replay c h) = cl_pods c"
  by (induction h arbitrary: c) simp_all

lemma merge_node_name [simp]: "nd_name (merge_node base new cur) = nd_name cur"
  by (simp add: merge_node_def)

lemma apply_call_names [simp]: "map nd_name (cl_nodes (apply_call x c)) = map nd_name (cl_nodes c)"
  by (induction x c rule: apply_call.induct) simp_all

lemma replay_names [simp]: "map nd_name (cl_nodes (replay c h)) = map nd_name (cl_nodes c)"
  by (induction h arbitrary: c) simp_all

lemma find_map_named:
  assumes "\<And>x. nd_name (f x) = nd_name x"
  shows "find (\<lambda>nd. nd_name nd = n) (map f nds) = map_option f (find (\<lambda>nd. nd_name nd = n) nds)"
  using assms by (induction nds) auto

lemma node_of_patch:
  "node_of (apply_call (CPatchNode base new None) c) n =
     (if nd_name base = n then map_option (merge_node base new) (node_of c n) else node_of c n)"
proof -
  have f: "find (\<lambda>nd. nd_name nd = n) (map (\<lambda>nd. if nd_name nd = nd_name base then merge_node base new nd else nd) nds) =
      map_option (\<lambda>nd. if nd_name nd = nd_name base then merge_node base new nd else nd)
        (find (\<lambda>nd. nd_name nd = n) nds)" for nds
    by (rule find_map_named) simp
  have "nd_name x = n" if "find (\<lambda>nd. nd_name nd = n) (cl_nodes c) = Some x" for x
    using that by (auto simp: find_Some_iff)
  then show ?thesis
    by (cases "find (\<lambda>nd. nd_name nd = n) (cl_nodes c)") (auto simp: node_of_def f)
qed

lemma node_of_other: "(\<And>base new. x \<noteq> CPatchNode base new None) \<Longrightarrow> node_of (apply_call x c) n = node_of c n"
  by (induction x c rule: apply_call.induct) (auto simp: node_of_def)

lemma node_of_name: "node_of c n = Some nd \<Longrightarrow> nd_name nd = n"
  by (auto simp: node_of_def find_Some_iff)

lemma node_of_mem: "node_of c n = Some nd \<Longrightarrow> nd \<in> set (cl_nodes c)"
  by (auto simp: node_of_def find_Some_iff)

lemma node_of_distinct:
  "distinct (map nd_name (cl_nodes c)) \<Longrightarrow> nd \<in> set (cl_nodes c) \<Longrightarrow> node_of c (nd_name nd) = Some nd"
proof (induction "cl_nodes c" arbitrary: c)
  case (Cons x xs)
  then have c: "cl_nodes c = x # xs" by simp
  show ?case
  proof (cases "nd = x")
    case False
    then have "nd \<in> set xs" "nd_name nd \<noteq> nd_name x" using Cons.prems c by (auto simp: image_iff)
    then show ?thesis
      using Cons.hyps(1) [of "c\<lparr>cl_nodes := xs\<rparr>"] Cons.prems c by (simp add: node_of_def)
  qed (simp add: node_of_def c)
qed simp

lemma find_job_apply:
  "find_job (apply_call x c) ns n = (case find_job c ns n of
     Some j \<Rightarrow> Some j
   | None \<Rightarrow> (case x of CCreateJob j None \<Rightarrow> if jb_ns j = ns \<and> jb_name j = n then Some j else None | _ \<Rightarrow> None))"
proof -
  have app: "find P (xs @ [y]) = (case find P xs of Some z \<Rightarrow> Some z | None \<Rightarrow> if P y then Some y else None)"
    for P :: "job \<Rightarrow> bool" and xs y
    by (induction xs) auto
  show ?thesis
    by (induction x c rule: apply_call.induct) (auto simp: find_job_def app split: option.split)
qed

lemma find_job_kept: "find_job c ns n = Some j \<Longrightarrow> find_job (replay c h) ns n = Some j"
  by (induction h arbitrary: c) (simp_all add: find_job_apply)

section \<open>The API server\<close>

text \<open>What is relied on: a read that succeeds shows the stored objects, the answer NotFound to a lookup means
  that there is no such object, a created Job is stored as sent, and the answer to an accepted patch is the
  stored node after it. Every call may fail at any time. The set \<open>B\<close> only keeps book: it holds at least the
  names of the Jobs whose lookup fails otherwise than with NotFound (a time-out, a conflict, a refused
  connection). Every server that honours the other clauses honours this one for some \<open>B\<close>; what is proved of
  a node whose Job is outside \<open>B\<close> holds whatever the lookups of other Jobs answer.\<close>

locale api_server =
  fixes p :: platform and c :: cluster and B :: "string set"
  assumes get_job_found: "srv_get_job (pf_reads p) h ns n = Inr j \<Longrightarrow> find_job (replay c h) ns n = Some j"
    and get_job_missing: "srv_get_job (pf_reads p) h ns n = Inl e \<Longrightarrow> ekind e = NotFound \<Longrightarrow>
      find_job (replay c h) ns n = None"
    and get_job_failing: "srv_get_job (pf_reads p) h ns n = Inl e \<Longrightarrow> ekind e \<noteq> NotFound \<Longrightarrow> n \<in> B"
    and list_nodes: "srv_list_nodes (pf_reads p) h = Inr nds \<Longrightarrow> nds = cl_nodes (replay c h)"
    and list_pods: "srv_list_pods (pf_reads p) h None [] = Inr pds \<Longrightarrow> pds = cl_pods (replay c h)"
    and list_jobs: "srv_list_jobs (pf_reads p) h ns sel = Inr js \<Longrightarrow>
      js = filter (\<lambda>j. jb_ns j = ns \<and> list_all (\<lambda>(k, v). jb_labels j k = Some v) sel) (cl_jobs (replay c h))"
    and create_job: "srv_create_job (pf_writes p) h j = Inr j' \<Longrightarrow> j' = j"
    and patch_node: "srv_patch_node (pf_writes p) h base new = Inr nd \<Longrightarrow>
      nd_name new = nd_name base \<and>
      (\<exists>cur. node_of (replay c h) (nd_name base) = Some cur \<and> nd = merge_node base new cur)"
begin

lemma keeps_names: "keeps_names p"
  by (auto simp: keeps_names_def dest!: patch_node node_of_name)

end

text \<open>A server that keeps the objects in memory and never fails without a reason. Everything that the
  contract leaves open is as on the platform \<open>q\<close>.\<close>

definition mem_server :: "platform \<Rightarrow> cluster \<Rightarrow> platform" where
  "mem_server q c = q\<lparr>
     pf_reads := (pf_reads q)\<lparr>
       srv_get_job := (\<lambda>h ns n. case find_job (replay c h) ns n of
         None \<Rightarrow> Inl (Err NotFound ''jobs.batch not found'') | Some j \<Rightarrow> Inr j),
       srv_list_nodes := (\<lambda>h. Inr (cl_nodes (replay c h))),
       srv_list_pods := (\<lambda>h ns sel. Inr (filter (\<lambda>pd. (ns = None \<or> ns = Some (pd_ns pd)) \<and>
         list_all (\<lambda>(k, v). pd_labels pd k = Some v) sel) (cl_pods (replay c h)))),
       srv_list_jobs := (\<lambda>h ns sel. Inr (filter (\<lambda>j. jb_ns j = ns \<and>
         list_all (\<lambda>(k, v). jb_labels j k = Some v) sel) (cl_jobs (replay c h))))\<rparr>,
     pf_writes := (pf_writes q)\<lparr>
       srv_create_job := (\<lambda>h j. if find_job (replay c h) (jb_ns j) (jb_name j) = None then Inr j
         else Inl (Err AlreadyExists ''jobs.batch already exists'')),
       srv_patch_node := (\<lambda>h base new. case node_of (replay c h) (nd_name base) of
         None \<Rightarrow> Inl (Err NotFound ''nodes not found'')
       | Some cur \<Rightarrow> if nd_name new = nd_name base then Inr (merge_node base new cur)
           else Inl (Err OtherErr ''metadata.name is immutable'')),
       srv_evict := (\<lambda>h ns n. Inr ())\<rparr>\<rparr>"

interpretation mem: api_server "mem_server q c" c B for q c B
  by unfold_locales (auto simp: mem_server_def split: option.splits if_splits)

end
