(* ===== verification/Phases.thy ===== *)
theory Phases
  imports Cluster FirmwareGaps
begin

text \<open>
  The roll-out of a firmware policy as a state machine per node. The phase of a node is read off the
  cluster; an observation reports it, and every call of a reconcile is one that the phase of its node
  allows.
\<close>

section \<open>The phase of a node\<close>

datatype flash_phase = PhCordon | PhExternal | PhDrain | PhReady | PhFlash | PhUncordon | PhDone | PhFailed

definition policy_job :: "string \<Rightarrow> fw_policy \<Rightarrow> cluster \<Rightarrow> string \<Rightarrow> job option" where
  "policy_job opns cr c n = find_job c opns (jobName cr n (fs_version (fp_spec cr)))"

definition to_drain :: "string \<Rightarrow> fw_policy \<Rightarrow> pod list \<Rightarrow> string \<Rightarrow> pod list" where
  "to_drain opns cr pods n =
     filter (drainable n opns (fd_force (fu_drain (fs_upgrade (fp_spec cr)))) (Some PodUsesTenstorrentDevice)) pods"

definition held :: "fw_policy \<Rightarrow> node \<Rightarrow> bool" where
  "held cr nd \<longleftrightarrow> nd_unsched nd \<and> sget (nd_annos nd) AnnoCordonedBy = fp_name cr"

definition phase_of :: "string \<Rightarrow> fw_policy \<Rightarrow> cluster \<Rightarrow> node \<Rightarrow> flash_phase" where
  "phase_of opns cr c nd =
     (case policy_job opns cr c (nd_name nd) of
        Some j \<Rightarrow>
          (if jobFinished j = (True, True) then
             (if drainEnabled cr \<and> sget (nd_annos nd) AnnoCordonedBy = fp_name cr then PhUncordon else PhDone)
           else if jobFinished j = (True, False) then PhFailed else PhFlash)
      | None \<Rightarrow>
          (if \<not> drainEnabled cr then PhReady
           else if \<not> nd_unsched nd then PhCordon
           else if \<not> held cr nd then PhExternal
           else if to_drain opns cr (cl_pods c) (nd_name nd) \<noteq> [] then PhDrain else PhReady))"

definition phase :: "string \<Rightarrow> fw_policy \<Rightarrow> cluster \<Rightarrow> string \<Rightarrow> flash_phase option" where
  "phase opns cr c n = map_option (phase_of opns cr c) (node_of c n)"

text \<open>The states in which a node of a phase is reported. A drain shows as failed once it has taken too
  long, and a ready node as draining when its pods could not be listed.\<close>

fun reported :: "flash_phase \<Rightarrow> node_state set" where
  "reported PhCordon = {NodeStateCordoning}"
| "reported PhExternal = {NodeStatePending}"
| "reported PhDrain = {NodeStateDraining, NodeStateFailed}"
| "reported PhReady = {NodeStatePending, NodeStateDraining}"
| "reported PhFlash = {NodeStateFlashing}"
| "reported PhUncordon = {NodeStateUncordoning}"
| "reported PhDone = {NodeStateDone}"
| "reported PhFailed = {NodeStateFailed}"

definition reports :: "flash_phase \<Rightarrow> node_status \<Rightarrow> bool" where
  "reports ph x \<longleftrightarrow> ns_state x \<in> reported ph \<and> (ph = PhExternal \<longrightarrow> hands_off x) \<and>
     (ph \<in> {PhCordon, PhUncordon} \<or> ph = PhReady \<and> ns_state x = NodeStatePending \<longrightarrow> \<not> hands_off x)"

text \<open>A node is blind when the lookup of its Job may fail. It is then seen as pending, whatever its phase.\<close>

definition blind :: "string set \<Rightarrow> fw_policy \<Rightarrow> string \<Rightarrow> bool" where
  "blind B cr n \<longleftrightarrow> jobName cr n (fs_version (fp_spec cr)) \<in> B"

definition tells :: "bool \<Rightarrow> flash_phase \<Rightarrow> node_status \<Rightarrow> bool" where
  "tells b ph x \<longleftrightarrow> reports ph x \<or> b \<and> ns_state x = NodeStatePending"

lemma not_blind [simp]: "\<not> blind {} cr n" "tells False = reports"
  by (auto simp: blind_def tells_def fun_eq_iff)

lemma no_message: "[] \<noteq> MessageNodeConflict" "[] \<noteq> MessageExternalCordon"
  by (simp_all add: const_defs)

context api_server begin

lemma observe_drain_reports:
  assumes "replay c (hist s) = c"
  shows "ns_name (result_of (observe_drain p cr nd) s) = nd_name nd \<and>
    reports (if to_drain (operatorNamespace p) cr (cl_pods c) (nd_name nd) \<noteq> [] then PhDrain else PhReady)
      (result_of (observe_drain p cr nd) s)"
  using assms list_pods [of "hist s"]
  by (auto simp: observe_drain_def listDevicePodsOnNode_def ListDevicePodsOnNode_def list_pods_def
      select_pods_eq base_status_def reports_def hands_off_def to_drain_def no_message split: sum.split)

lemma observe_job_name: "ns_name (result_of (observe_job p cr nd j) s) = nd_name nd"
  by (auto simp: observe_job_def base_status_def Let_def split: prod.split)

lemma observe_job_reports:
  assumes "policy_job (operatorNamespace p) cr c (nd_name nd) = Some j"
  shows "reports (phase_of (operatorNamespace p) cr c nd) (result_of (observe_job p cr nd j) s)"
  using assms
  by (cases "jobFinished j") (auto simp: phase_of_def observe_job_state reports_def observe_job_def
      base_status_def hands_off_def no_message Let_def)

text \<open>An observation of an unchanged cluster reports the phase, if the Job can be looked up.\<close>

lemma observe_reports:
  assumes "replay c (hist s) = c"
  shows "ns_name (result_of (observeNode p cr nd) s) = nd_name nd \<and>
    tells (blind B cr (nd_name nd)) (phase_of (operatorNamespace p) cr c nd) (result_of (observeNode p cr nd) s)"
proof -
  let ?n = "jobName cr (nd_name nd) (fs_version (fp_spec cr))"
  let ?s = "s\<lparr>hist := hist s @ [CGetJob (operatorNamespace p) ?n]\<rparr>"
  have quiet: "replay c (hist ?s) = c" using assms by simp
  consider e where "srv_get_job (pf_reads p) (hist s) (operatorNamespace p) ?n = Inl e" "ekind e \<noteq> NotFound"
    | e where "srv_get_job (pf_reads p) (hist s) (operatorNamespace p) ?n = Inl e" "ekind e = NotFound"
    | j where "srv_get_job (pf_reads p) (hist s) (operatorNamespace p) ?n = Inr j"
    by (cases "srv_get_job (pf_reads p) (hist s) (operatorNamespace p) ?n") auto
  then show ?thesis
  proof cases
    case (1 e)
    then have "blind B cr (nd_name nd)" using get_job_failing [OF 1] by (simp add: blind_def)
    then show ?thesis using 1 by (simp add: observeNode_cases Let_def base_status_def tells_def)
  next
    case (2 e)
    note Inl = 2(1)
    have e: "ekind e = NotFound" "policy_job (operatorNamespace p) cr c (nd_name nd) = None"
      using get_job_missing [OF 2] 2(2) assms by (simp_all add: policy_job_def)
    show ?thesis
    proof (cases "drainEnabled cr \<and> held cr nd")
      case True
      then show ?thesis
        using Inl e observe_drain_reports [OF quiet, of cr nd]
        by (simp add: observeNode_cases Let_def phase_of_def held_def tells_def split: if_splits)
    next
      case False
      then show ?thesis
        using Inl e
        by (auto simp: observeNode_cases Let_def phase_of_def held_def base_status_def reports_def
            hands_off_def no_message tells_def)
    qed
  next
    case (3 j)
    then have j: "policy_job (operatorNamespace p) cr c (nd_name nd) = Some j"
      using get_job_found [OF 3] assms by (simp add: policy_job_def)
    show ?thesis
      using 3 observe_job_reports [OF j] by (simp add: observeNode_cases Let_def observe_job_name tells_def)
  qed
qed

end

section \<open>The calls a phase allows\<close>

definition cordon_of :: "node \<Rightarrow> bool \<times> string option" where
  "cordon_of nd = (nd_unsched nd, nd_annos nd AnnoCordonedBy)"

text \<open>What may happen to the cordon of a node, by its phase.\<close>

fun cordon_move :: "fw_policy \<Rightarrow> flash_phase \<Rightarrow> (bool \<times> string option) \<Rightarrow> bool" where
  "cordon_move cr PhCordon x = (x = (True, Some (fp_name cr)))"
| "cordon_move cr PhUncordon x = (x = (False, None))"
| "cordon_move cr _ x = False"

definition may_flash :: "string \<Rightarrow> string set \<Rightarrow> fw_policy \<Rightarrow> cluster \<Rightarrow> string \<Rightarrow> bool" where
  "may_flash opns B cr c n \<longleftrightarrow> (\<exists>ph. phase opns cr c n = Some ph \<and> (ph = PhReady \<or> blind B cr n))"

lemma may_flash_ready [simp]: "may_flash opns {} cr c n \<longleftrightarrow> phase opns cr c n = Some PhReady"
  by (simp add: may_flash_def)

fun step_call :: "string \<Rightarrow> string set \<Rightarrow> fw_policy \<Rightarrow> cluster \<Rightarrow> call \<Rightarrow> bool" where
  "step_call opns B cr c (CCreateJob j e) =
     (\<exists>n q. may_flash opns B cr c n \<and> operatorNamespace q = opns \<and>
        j = setOwnerRef (buildFlashJob q cr n (defaultFlasherImageFromEnv q)) cr)"
| "step_call opns B cr c (CPatchNode base new e) =
     (nd_name new = nd_name base \<and>
      (cordon_of new = cordon_of base \<or>
       (\<exists>nd. node_of c (nd_name base) = Some nd \<and> cordon_of base = cordon_of nd \<and>
          cordon_move cr (phase_of opns cr c nd) (cordon_of new))))"
| "step_call opns B cr c _ = True"

lemma step_call_benign:
  assumes "node_patch L A False base new" "AnnoCordonedBy \<notin> A"
  shows "step_call opns B cr c (CPatchNode base new e)"
  using assms by (auto simp: node_patch_def cordon_of_def)

lemma step_call_read: "read_call x \<Longrightarrow> step_call opns B cr c x"
  by (cases x) simp_all

lemma cordon_keys [simp]:
  "AnnoCordonedBy \<noteq> AnnoDesiredVersion" "AnnoCordonedBy \<noteq> AnnoLastFlashJob" "AnnoCordonedBy \<noteq> AnnoCurrentVersion"
  "AnnoCordonedBy \<noteq> AnnoCordonedAt"
  by (simp_all add: const_defs)

lemma step_spawn:
  assumes "may_flash (operatorNamespace p) B cr c (nd_name node)"
  shows "issues (step_call (operatorNamespace p) B cr c) (spawnFlashJob p cr node ns)"
  unfolding spawnFlashJob_def Let_def
  by (intro frame_rules issues_annotateNode issues_labelNode)
    (use assms in \<open>auto elim!: step_call_benign simp del: step_call.simps(2)\<close>)

lemma step_advance_state:
  assumes "node_of c (nd_name node) = Some nd" "cordon_of node = cordon_of nd"
    "tells (blind B cr (nd_name node)) (phase_of (operatorNamespace p) cr c nd) ns" "\<not> hands_off ns"
  shows "issues (step_call (operatorNamespace p) B cr c) (advance_state p cr node ns)"
proof (cases "ns_state ns")
  case NodeStatePending
  then have "phase_of (operatorNamespace p) cr c nd = PhReady \<or> blind B cr (nd_name node)"
    using assms(3,4) by (cases "phase_of (operatorNamespace p) cr c nd") (auto simp: reports_def tells_def)
  then have "may_flash (operatorNamespace p) B cr c (nd_name node)"
    using assms(1) by (auto simp: may_flash_def phase_def)
  from step_spawn [OF this] show ?thesis
    using NodeStatePending by (auto simp: advance_state_def)
next
  case NodeStateCordoning
  then have "phase_of (operatorNamespace p) cr c nd = PhCordon"
    using assms(3) by (cases "phase_of (operatorNamespace p) cr c nd") (auto simp: reports_def tells_def)
  then have "issues (step_call (operatorNamespace p) B cr c) (cordonNode p node (fp_name cr))"
    unfolding cordonNode_def
    by (intro issues_CordonNode) (use assms in \<open>auto simp: cordon_patch_def cordon_of_def firmwareCordonOpts_def\<close>)
  then show ?thesis
    using NodeStateCordoning by (auto simp: advance_state_def intro!: frame_rules)
next
  case NodeStateUncordoning
  then have "phase_of (operatorNamespace p) cr c nd = PhUncordon"
    using assms(3) by (cases "phase_of (operatorNamespace p) cr c nd") (auto simp: reports_def tells_def)
  then have "issues (step_call (operatorNamespace p) B cr c) (uncordonNode p node (fp_name cr))"
    unfolding uncordonNode_def
    by (intro issues_UncordonNode) (use assms in \<open>auto simp: uncordon_patch_def cordon_of_def firmwareCordonOpts_def\<close>)
  then show ?thesis
    using NodeStateUncordoning by (auto simp: advance_state_def intro!: frame_rules)
next
  case NodeStateDraining
  then show ?thesis
    by (auto simp: advance_state_def intro!: frame_rules issues_evict_device_pods)
qed (auto simp: advance_state_def intro!: frame_rules)

end
