(* ===== verification/PhaseSteps.thy ===== *)
theory PhaseSteps
  imports Phases
begin

text \<open>
  One reconcile moves the phases of the nodes along the state machine: every call it makes is one the
  phase of the node allows, and the calls change the phases by single steps.
\<close>

section \<open>Runs from one state\<close>

lemmas issued_bind = issue.bind_at
lemmas issued_case_sum = issue.case_sum_at
lemmas issued_case_prod = issue.case_prod_at

lemma issued_replay: "issued read_call s t \<Longrightarrow> replay c (hist t) = replay c (hist s)"
  by (auto simp: issued_def replay_reads)

lemma issued_keeps: "issues P m \<Longrightarrow> issued P s (final_of m s)"
  by (rule keepsD)

lemma issues_step_read: "issues read_call m \<Longrightarrow> issues (step_call opns B cr c) m"
  by (erule issues_mono) (rule step_call_read)

section \<open>The advance of one node\<close>

text \<open>The statuses of a pass, and the nodes it works on, agree with the cluster it started from.\<close>

definition pass_ok :: "string \<Rightarrow> string set \<Rightarrow> fw_policy \<Rightarrow> cluster \<Rightarrow> node list \<Rightarrow> node_status list \<Rightarrow> call list \<Rightarrow> bool" where
  "pass_ok opns B cr c owned nss h \<longleftrightarrow> distinct (map ns_name (filter (\<lambda>ns. \<not> hands_off ns) nss)) \<and>
     (\<forall>ns \<in> set nss. hands_off ns \<or> (\<exists>nd. node_of c (ns_name ns) = Some nd \<and>
        findNode owned (ns_name ns) = Some nd \<and> node_of (replay c h) (ns_name ns) = Some nd \<and>
        tells (blind B cr (ns_name ns)) (phase_of opns cr c nd) ns))"

definition unowned_pass :: "string \<Rightarrow> cluster \<Rightarrow> node_status list \<Rightarrow> bool" where
  "unowned_pass y c nss \<longleftrightarrow> (\<forall>ns \<in> set nss. \<not> hands_off ns \<longrightarrow>
     (\<forall>nd. node_of c (ns_name ns) = Some nd \<longrightarrow> sget (nd_labels nd) LabelOwnerCR \<in> {[], y}))"

definition matches :: "platform \<Rightarrow> (labels \<Rightarrow> bool) \<Rightarrow> node \<Rightarrow> bool" where
  "matches p sel n \<longleftrightarrow> sel (nd_labels n) \<and> sget (nd_labels n) LabelSkip \<noteq> ''true'' \<and>
     (requireTenstorrentLabel p \<longrightarrow> sget (nd_labels n) LabelTenstorrentPresent = ''true'')"

lemma filter_matched_filter: "filter_matched p sel nds = filter (matches p sel) nds"
  by (induction nds) (auto simp: Let_def matches_def)

text \<open>The pass sees every matched node that nobody else owns.\<close>

definition pass_sees :: "platform \<Rightarrow> string set \<Rightarrow> cluster \<Rightarrow> fw_policy \<Rightarrow> node_status list \<Rightarrow> bool" where
  "pass_sees p B c cr nss \<longleftrightarrow> (\<forall>sel nd. lib_selector (pf_lib p) (EffectiveNodeAffinity (fp_spec cr)) = Inr sel \<longrightarrow>
     nd \<in> set (cl_nodes c) \<longrightarrow> matches p sel nd \<longrightarrow> sget (nd_labels nd) LabelOwnerCR \<in> {[], fp_name cr} \<longrightarrow>
     (\<exists>x \<in> set nss. ns_name x = nd_name nd \<and>
        tells (blind B cr (nd_name nd)) (phase_of (operatorNamespace p) cr c nd) x))"

text \<open>Everything after the advance only reports.\<close>

definition after_pass ::
  "platform \<Rightarrow> fw_policy \<Rightarrow> instant \<Rightarrow> string list \<Rightarrow> bool \<Rightarrow> node_status list \<times> node list \<Rightarrow> (rresult \<times> err option) io" where
  "after_pass p cr t keys hlt = (\<lambda>(nss, owned). do {
     nss \<leftarrow> stamp_all p cr (prev_status (ft_nodes (fp_status cr))) t (map (explain cr hlt) nss);
     (summary, owned) \<leftarrow> summarize p cr owned (zero_summary (length nss)) nss;
     finish_reconcile p cr keys summary (sort_key ns_name nss)
   })"

lemma roll_out_after_pass:
  "roll_out p cr t owned nss jobs = do {
     metric (MSet FirmwareFlashJobsInFlight [fp_name cr] (int (countInFlightJobs jobs)));
     keys \<leftarrow> recordFlashJobMetrics (fp_name cr) jobs;
     r \<leftarrow> advance_pass p cr (\<not> autoUpgrade cr \<or> fs_paused (fp_spec cr) \<or> halted cr nss)
       (maxParallel cr - int (countInFlightJobs jobs)) owned nss;
     after_pass p cr t keys (halted cr nss) r
   }"
  by (simp add: roll_out_def after_pass_def Let_def split_def)

lemma report_read: "read_call x \<Longrightarrow> report_call x"
  by (cases x) simp_all

lemma report_after_pass: "issues report_call (after_pass p cr t keys hlt r)"
  unfolding after_pass_def by (intro frame_rules issues_summarize issues_finish_reconcile; simp)

lemma step_call_report: "report_call x \<Longrightarrow> step_call opns B cr c x"
proof (cases x)
  case (CPatchNode base new e)
  then show "report_call x \<Longrightarrow> step_call opns B cr c x"
    by (simp only: report_call.simps publish_patch_def)
      (rule step_call_benign [OF node_patch_mono [OF _ order.refl order.refl]], assumption, simp_all)
qed simp_all

lemma step_after_pass: "issues (step_call opns B cr c) (after_pass p cr t keys hlt r)"
  by (rule issues_mono [OF report_after_pass]) (rule step_call_report)

lemma recordFlashJobMetrics_hist: "hist (final_of (recordFlashJobMetrics n jobs) s) = hist s"
  using issued_keeps [OF issues_recordFlashJobMetrics [of "\<lambda>_. False" n jobs], of s]
  by (auto simp: issued_def list_all_iff)

context api_server begin

lemma replay_keeps_others:
  assumes "issued (writes_to N) s t" "n \<notin> N"
  shows "node_of (replay c (hist t)) n = node_of (replay c (hist s)) n"
proof -
  have "node_of (replay c' h) n = node_of c' n" if "list_all (writes_to N) h" for h c'
    using that
  proof (induction h arbitrary: c')
    case (Cons x h)
    have "node_of (apply_call x c') n = node_of c' n"
    proof (cases "\<exists>base new. x = CPatchNode base new None")
      case True
      then show ?thesis using Cons.prems assms(2) by (auto simp: node_of_patch simp del: apply_call.simps)
    qed (use node_of_other in blast)
    with Cons show ?case by simp
  qed simp
  then show ?thesis using assms(1) by (auto simp: issued_def)
qed

text \<open>Claiming leaves the cordon as it is.\<close>

lemma claim_keeps_cordon:
  assumes "result_of (claimOwnership p node cr') s = (None, cn)"
    "node_of (replay c (hist s)) (nd_name node) = Some cur" "cordon_of cur = cordon_of node"
  shows "nd_name cn = nd_name node \<and> cordon_of cn = cordon_of node"
proof (cases "sget (nd_labels node) LabelOwnerCR = cr'")
  case False
  then have "srv_patch_node (pf_writes p) (hist s) node
      (node\<lparr>nd_labels := put_all (nd_labels node) [(LabelOwnerCR, cr')]\<rparr>) = Inr cn"
    using assms(1) by (auto simp: claimOwnership_def labelNode_def patch_node_def split: sum.splits)
  from patch_node [OF this] show ?thesis
    using assms(2,3) node_of_name [OF assms(2)] by (auto simp: merge_node_def merge_map_def cordon_of_def)
qed (use assms(1) in \<open>simp add: claimOwnership_def\<close>)

lemma step_advance:
  assumes "node_of c (nd_name node) = Some nd" "cordon_of node = cordon_of nd"
    "node_of (replay c (hist s)) (nd_name node) = Some cur" "cordon_of cur = cordon_of node"
    "tells (blind B cr (nd_name node)) (phase_of (operatorNamespace p) cr c nd) ns" "\<not> hands_off ns"
  shows "issued (step_call (operatorNamespace p) B cr c) s (final_of (advanceNode p cr node ns) s)"
proof -
  obtain e cn where r: "result_of (claimOwnership p node (fp_name cr)) s = (e, cn)" by (meson surj_pair)
  have first: "issues (step_call (operatorNamespace p) B cr c) (claimOwnership p node (fp_name cr))"
    by (rule issues_claimOwnership) (rule step_call_benign, assumption, simp)
  have second: "issues (step_call (operatorNamespace p) B cr c) (advance_state p cr cn ns)" if "e = None"
    by (rule step_advance_state)
      (use claim_keeps_cordon [OF r [unfolded that] assms(3,4)] assms in auto)
  show ?thesis
    unfolding advanceNode_def
    by (rule issued_bind [OF issued_keeps [OF first]])
      (use r second in \<open>auto intro!: issued_keeps issued_refl split: option.splits\<close>)
qed

lemma advance_node_name:
  "nd_name (fst (snd (snd (result_of (advanceNode p cr node ns) s)))) = nd_name node"
proof -
  note names = labelNode_name [OF keeps_names] annotateNode_name [OF keeps_names]
    claimOwnership_name [OF keeps_names] patch_name [OF keeps_names]
  have spawn: "nd_name (fst (snd (snd (result_of (spawnFlashJob p cr n ns) t)))) = nd_name n" for n t
    using names by (auto simp: spawnFlashJob_def Let_def split_beta split: sum.split option.split)
  have cordon: "nd_name (snd (result_of (CordonNode p n opts) t)) = nd_name n" for n opts t
    by (auto simp: CordonNode_def Let_def names)
  have uncordon: "nd_name (snd (result_of (UncordonNode p n opts) t)) = nd_name n" for n opts t
    by (auto simp: UncordonNode_def names)
  have state: "nd_name (fst (snd (snd (result_of (advance_state p cr n ns) t)))) = nd_name n" for n t
    using spawn [of n t]
    by (auto simp: advance_state_def cordonNode_def uncordonNode_def cordon uncordon split_beta
        split: node_state.split option.split sum.split)
  show ?thesis
    by (auto simp: advanceNode_def split_beta state names split: option.split)
qed

text \<open>One round of the loop: its calls are allowed, and the rest of the list still agrees.\<close>

lemma pass_round:
  assumes "pass_ok (operatorNamespace p) B cr c owned (ns # rest) (hist s)" "\<not> waits capacity owned ns"
    "findNode owned (ns_name ns) = Some node" "result_of (advanceNode p cr node ns) s = (adv, e, node', ns')"
    "t = final_of (advanceNode p cr node ns) s"
  shows "issued (step_call (operatorNamespace p) B cr c) s t"
    "pass_ok (operatorNamespace p) B cr c (store_node owned (ns_name ns) node') rest (hist t)"
    "node_of c (ns_name ns) = Some node" "node_of (replay c (hist s)) (ns_name ns) = Some node"
    "tells (blind B cr (ns_name ns)) (phase_of (operatorNamespace p) cr c node) ns" "\<not> hands_off ns"
proof -
  show hands: "\<not> hands_off ns" using assms(2) by (auto simp: waits_def hands_off_def)
  show node: "node_of c (ns_name ns) = Some node" "node_of (replay c (hist s)) (ns_name ns) = Some node"
    "tells (blind B cr (ns_name ns)) (phase_of (operatorNamespace p) cr c node) ns"
    using assms(1,3) hands by (auto simp: pass_ok_def)
  have name: "nd_name node = ns_name ns" using assms(3) findNode_name by auto
  show "issued (step_call (operatorNamespace p) B cr c) s t"
    unfolding assms(5) by (rule step_advance) (use node name hands in auto)
  have writes: "issued (writes_to {ns_name ns}) s t"
    unfolding assms(5) by (rule issued_keeps [OF writes_to_advance [OF keeps_names]]) (simp add: name)
  have name': "nd_name node' = ns_name ns"
    using advance_node_name [of cr node ns s] assms(4) name by simp
  show "pass_ok (operatorNamespace p) B cr c (store_node owned (ns_name ns) node') rest (hist t)"
    using assms(1) hands replay_keeps_others [OF writes] findNode_store [OF assms(3) name']
    by (auto simp: pass_ok_def image_iff)
qed

lemma pass_ok_tail: "pass_ok opns B cr c owned (ns # rest) h \<Longrightarrow> pass_ok opns B cr c owned rest h"
  by (auto simp: pass_ok_def split: if_splits)

lemma step_advance_pass:
  assumes "pass_ok (operatorNamespace p) B cr c owned nss (hist s)"
  shows "issued (step_call (operatorNamespace p) B cr c) s
    (final_of (advance_pass p cr stop capacity owned nss) s)"
proof (cases stop)
  case True
  then show ?thesis using advance_pass_stop [of p cr capacity owned nss s] by (simp add: final_of_def issued_refl)
next
  case False
  have "issued (step_call (operatorNamespace p) B cr c) s
    (final_of (advance_pass p cr False capacity owned nss) s)"
    using assms
  proof (induction capacity owned nss s rule: advance_pass_induct [where p = p and cr = cr])
    case (waits capacity owned ns rest s)
    then show ?case using pass_ok_tail by (simp add: advance_pass_waits del: advance_pass.simps)
  next
    case (goes capacity owned ns rest s node adv e node' ns' t)
    note round = pass_round [OF goes.prems goes(1-4)]
    from round(1) goes(5) [OF round(2)] show ?case
      using advance_pass_goes(1) [OF goes(1) _ _ refl, of p cr s adv e node' ns' t rest] goes(2-4)
      by (simp add: issued_trans del: advance_pass.simps)
  qed (simp add: issued_refl)
  with False show ?thesis by simp
qed

text \<open>The observation of a quiet cluster, and what the passes before and after the advance do.\<close>

lemma observe_all_reports:
  assumes "replay c (hist s) = c"
  shows "list_all2 (\<lambda>nd x. ns_name x = nd_name nd \<and> tells (blind B cr (nd_name nd)) (phase_of (operatorNamespace p) cr c nd) x)
    nds (result_of (observe_all p cr nds) s)"
  using assms
proof (induction nds arbitrary: s)
  case (Cons nd nds)
  have "issued read_call s (final_of (observeNode p cr nd) s)"
    by (rule issued_keeps [OF issues_observeNode])
  from issued_replay [OF this] Cons show ?case by (simp add: observe_reports)
qed simp

text \<open>The nodes of a pass belong to the policy or to nobody.\<close>

lemma observed_unowned:
  assumes "distinct (map nd_name (cl_nodes c))" "owned = filter Q (cl_nodes c)"
    "list_all2 (\<lambda>nd x. ns_name x = nd_name nd \<and> tells (blind B cr (nd_name nd)) (phase_of (operatorNamespace p) cr c nd) x) owned obs"
    "\<forall>nd \<in> set owned. sget (nd_labels nd) LabelOwnerCR \<in> {[], fp_name cr}"
  shows "unowned_pass (fp_name cr) c (obs @ map conflict_status conflicts)"
proof -
  have "sget (nd_labels nd) LabelOwnerCR \<in> {[], fp_name cr}" if x: "x \<in> set obs" "node_of c (ns_name x) = Some nd" for x nd
  proof -
    obtain i where i: "i < length obs" "x = obs ! i" using x(1) by (auto simp: in_set_conv_nth)
    then have "owned ! i \<in> set owned" "ns_name x = nd_name (owned ! i)" using assms(3) by (auto simp: list_all2_conv_all_nth)
    moreover from this have "node_of c (nd_name (owned ! i)) = Some (owned ! i)"
      using node_of_distinct [OF assms(1)] assms(2) by auto
    ultimately show ?thesis using x(2) assms(4) by auto
  qed
  then show ?thesis
    by (auto simp: unowned_pass_def hands_off_def conflict_status_def)
qed

lemma observed_pass_ok:
  assumes "distinct (map nd_name (cl_nodes c))" "owned = filter Q (cl_nodes c)"
    "list_all2 (\<lambda>nd x. ns_name x = nd_name nd \<and> tells (blind B cr (nd_name nd)) (phase_of (operatorNamespace p) cr c nd) x) owned obs"
    "replay c h = c"
  shows "pass_ok (operatorNamespace p) B cr c owned (obs @ map conflict_status conflicts) h"
proof -
  have off: "hands_off (conflict_status nd)" for nd
    by (simp add: hands_off_def conflict_status_def)
  have names: "map ns_name obs = map nd_name owned"
    using assms(3) by (induction rule: list_all2_induct) simp_all
  have found: "nd \<in> set nds \<Longrightarrow> distinct (map nd_name nds) \<Longrightarrow> findNode nds (nd_name nd) = Some nd" for nd nds
    by (induction nds) (auto simp: image_iff)
  have dist: "distinct (map nd_name owned)"
    unfolding assms(2) using assms(1) by (rule distinct_map_filter)
  have "\<exists>nd. node_of c (ns_name x) = Some nd \<and> findNode owned (ns_name x) = Some nd \<and>
      tells (blind B cr (ns_name x)) (phase_of (operatorNamespace p) cr c nd) x" if "x \<in> set obs" for x
  proof -
    obtain i where i: "i < length obs" "x = obs ! i" using \<open>x \<in> set obs\<close> by (auto simp: in_set_conv_nth)
    define nd where "nd = owned ! i"
    have nd: "nd \<in> set owned" "ns_name x = nd_name nd" "tells (blind B cr (nd_name nd)) (phase_of (operatorNamespace p) cr c nd) x"
      using assms(3) i by (auto simp: list_all2_conv_all_nth nd_def)
    moreover have "nd \<in> set (cl_nodes c)" using nd(1) assms(2) by simp
    ultimately show ?thesis
      using found [OF nd(1) dist] node_of_distinct [OF assms(1)] by auto
  qed
  moreover have "filter (\<lambda>ns. \<not> hands_off ns) (obs @ map conflict_status conflicts) = filter (\<lambda>ns. \<not> hands_off ns) obs"
    by (simp add: off)
  moreover have "distinct (map ns_name (filter (\<lambda>ns. \<not> hands_off ns) obs))"
    by (rule distinct_map_filter) (simp add: names dist)
  ultimately show ?thesis
    unfolding pass_ok_def assms(4) by (auto simp: off)
qed

text \<open>A reconcile is its reads, one advance pass over nodes it owns or nobody owns, and its report; so a
  relation on the runs of these three parts is one on the runs of the reconcile.\<close>

lemma reconcile_by_seen_pass:
  assumes quiet: "replay c (hist s) = c" and dist: "distinct (map nd_name (cl_nodes c))" and frame: "frame R"
    and reports: "\<And>s t. issued report_call s t \<Longrightarrow> R s t"
    and pass: "\<And>stop capacity owned nss s. pass_ok (operatorNamespace p) B cr c owned nss (hist s) \<Longrightarrow>
      unowned_pass (fp_name cr) c nss \<Longrightarrow> pass_sees p B c cr nss \<Longrightarrow>
      stop = (\<not> autoUpgrade cr \<or> fs_paused (fp_spec cr) \<or> halted cr nss) \<Longrightarrow>
      R s (final_of (advance_pass p cr stop capacity owned nss) s)"
  shows "R s (final_of (reconcile_cr p cr) s)"
proof -
  have reads: "issues read_call (matchedNodes p cr)" "issues read_call (now p)"
    "issues read_call (observe_all p cr nds)" "issues read_call (jobsForCR p cr)" for nds
    by (auto intro!: frame_rules issues_observe_all)
  have report: "issues report_call m \<Longrightarrow> R s (final_of m s)" for m :: "'a io" and s
    by (rule reports) (rule issued_keeps)
  have read: "issues read_call m \<Longrightarrow> R s (final_of m s)" for m :: "'a io" and s
    by (rule report, erule issues_mono) (rule report_read)
  note step = reads [THEN read]
  note q = reads [THEN issued_keeps, THEN issued_replay]
  have start: "pass_ok (operatorNamespace p) B cr c owned (obs @ map conflict_status conflicts) h \<and>
      unowned_pass (fp_name cr) c (obs @ map conflict_status conflicts) \<and>
      pass_sees p B c cr (obs @ map conflict_status conflicts)"
    if m: "result_of (matchedNodes p cr) s = Inr matched"
      and part: "partitionByOwnership matched (fp_name cr) = (owned, conflicts)"
      and obs: "obs = result_of (observe_all p cr owned) s'" "replay c (hist s') = c" and h: "replay c h = c"
    for matched owned conflicts obs s' h
  proof -
    obtain Q where "matched = filter Q (cl_nodes c)"
      using m quiet
      by (auto simp: matchedNodes_def list_nodes_def filter_matched_filter split: sum.splits dest!: list_nodes)
    with part obtain Q' where o: "owned = filter Q' (cl_nodes c)"
      and own: "\<forall>nd \<in> set owned. sget (nd_labels nd) LabelOwnerCR \<in> {[], fp_name cr}"
      by (auto simp: partition_filter)
    have live: "list_all2 (\<lambda>nd x. ns_name x = nd_name nd \<and> tells (blind B cr (nd_name nd)) (phase_of (operatorNamespace p) cr c nd) x) owned obs"
      using obs by (auto intro: observe_all_reports)
    have "\<exists>x \<in> set obs. ns_name x = nd_name nd \<and> tells (blind B cr (nd_name nd)) (phase_of (operatorNamespace p) cr c nd) x"
      if "lib_selector (pf_lib p) (EffectiveNodeAffinity (fp_spec cr)) = Inr sel" "nd \<in> set (cl_nodes c)"
        "matches p sel nd" "sget (nd_labels nd) LabelOwnerCR \<in> {[], fp_name cr}" for sel nd
    proof -
      have "nd \<in> set owned"
        using m part that quiet
        by (auto simp: matchedNodes_def list_nodes_def filter_matched_filter partition_filter split: sum.splits
            dest!: list_nodes)
      then obtain i where i: "i < length owned" "owned ! i = nd" by (auto simp: in_set_conv_nth)
      with live show ?thesis by (intro bexI [of _ "obs ! i"]) (auto simp: list_all2_conv_all_nth)
    qed
    then have "pass_sees p B c cr (obs @ map conflict_status conflicts)" unfolding pass_sees_def set_append by blast
    then show ?thesis
      using observed_pass_ok [OF dist o live h] observed_unowned [OF dist o live own] by blast
  qed
  show ?thesis
    unfolding reconcile_cr_def roll_out_after_pass Let_def
    apply (rule frame.bind_at [OF frame step(1)])
    apply (rule frame.case_sum_at [OF frame])
     apply (intro report frame_rules)
    apply (rule frame.case_prod_at [OF frame])
    apply (rule frame.bind_at [OF frame step(2)])
    apply (rule frame.bind_at [OF frame step(3)])
    apply (rule frame.bind_at [OF frame step(4)])
    apply (rule frame.case_sum_at [OF frame])
     apply (intro report frame_rules)
    apply (rule frame.bind_at [OF frame report [OF issues_metric]])
    apply (rule frame.bind_at [OF frame report [OF issues_recordFlashJobMetrics]])
    apply (rule frame.bind_at [OF frame pass])
        apply (rule start [THEN conjunct1], assumption, assumption, rule refl; simp add: q quiet recordFlashJobMetrics_hist)
       apply (rule start [THEN conjunct2, THEN conjunct1, of _ _ _ _ _ "hist s"], assumption, assumption, rule refl;
        simp add: q quiet)
      apply (rule start [THEN conjunct2, THEN conjunct2, of _ _ _ _ _ "hist s"], assumption, assumption, rule refl;
        simp add: q quiet)
     apply (rule refl)
    apply (rule report [OF report_after_pass])
    done
qed

lemma reconcile_by_pass:
  assumes "replay c (hist s) = c" "distinct (map nd_name (cl_nodes c))" "frame R"
    "\<And>s t. issued report_call s t \<Longrightarrow> R s t"
    "\<And>stop capacity owned nss s. pass_ok (operatorNamespace p) B cr c owned nss (hist s) \<Longrightarrow>
      unowned_pass (fp_name cr) c nss \<Longrightarrow> R s (final_of (advance_pass p cr stop capacity owned nss) s)"
  shows "R s (final_of (reconcile_cr p cr) s)"
  by (rule reconcile_by_seen_pass [OF assms(1-3)]) (rule assms(4,5), assumption+)+

text \<open>Every call of a reconcile is one the phase of its node allows.\<close>

lemma step_reconcile:
  assumes "replay c (hist s) = c" "distinct (map nd_name (cl_nodes c))"
  shows "issued (step_call (operatorNamespace p) B cr c) s (final_of (reconcile_cr p cr) s)"
proof (rule reconcile_by_pass [OF assms issue.frame_axioms])
  show "issued (step_call (operatorNamespace p) B cr c) s t" if "issued report_call s t" for s t
    using that by (rule issued_mono) (rule step_call_report)
qed (rule step_advance_pass)

end

end
