(* ===== verification/PhaseMoves.thy ===== *)
theory PhaseMoves
  imports PhaseSteps
begin

text \<open>
  What the calls of a reconcile do to the phases of the nodes: the abstract state machine of a
  roll-out, and the refinement that one reconcile, with any server that honours the contract and
  whatever fails, moves every node along it by at most one step. The one failure that leads off the
  machine is that of the lookup of a Job, and it does so for the node of that Job alone.
\<close>

section \<open>The state machine\<close>

inductive phase_step :: "flash_phase \<Rightarrow> flash_phase \<Rightarrow> bool" where
  cordon_then_drain: "phase_step PhCordon PhDrain"
| cordon_then_ready: "phase_step PhCordon PhReady"
| start_flash: "phase_step PhReady PhFlash"
| uncordon: "phase_step PhUncordon PhDone"

text \<open>A blind node may be flashed from any phase without a Job.\<close>

definition blind_start :: "flash_phase \<Rightarrow> flash_phase \<Rightarrow> bool" where
  "blind_start ph ph' \<longleftrightarrow> ph \<in> {PhCordon, PhExternal, PhDrain} \<and> ph' = PhFlash"

inductive_cases phase_step_to_flash: "phase_step ph PhFlash"
inductive_cases phase_step_from_flash: "phase_step PhFlash ph"

inductive_simps phase_step_simps:
  "phase_step PhCordon ph" "phase_step PhExternal ph" "phase_step PhDrain ph" "phase_step PhReady ph"
  "phase_step PhFlash ph" "phase_step PhUncordon ph" "phase_step PhDone ph" "phase_step PhFailed ph"

code_pred phase_step .

abbreviation phase_moves :: "flash_phase \<Rightarrow> flash_phase \<Rightarrow> bool" where
  "phase_moves ph ph' \<equiv> ph' = ph \<or> phase_step ph ph'"

section \<open>The cordons\<close>

definition cordon_ok :: "string \<Rightarrow> fw_policy \<Rightarrow> cluster \<Rightarrow> node \<Rightarrow> (bool \<times> string option) \<Rightarrow> bool" where
  "cordon_ok opns cr c nd x \<longleftrightarrow> x = cordon_of nd \<or> cordon_move cr (phase_of opns cr c nd) x"

lemma cordon_move_unique: "cordon_move cr ph x \<Longrightarrow> cordon_move cr ph y \<Longrightarrow> x = y"
  by (cases ph) simp_all

lemma merge_cordon_same: "cordon_of new = cordon_of base \<Longrightarrow> cordon_of (merge_node base new cur) = cordon_of cur"
  by (simp add: cordon_of_def merge_node_def merge_map_def)

lemma merge_cordon_target:
  "cordon_of cur = cordon_of base \<or> cordon_of cur = cordon_of new \<Longrightarrow>
   cordon_of (merge_node base new cur) = cordon_of new"
  by (auto simp: cordon_of_def merge_node_def merge_map_def)

lemma step_call_cordon:
  assumes "step_call opns B cr c x" "node_of c n = Some nd" "node_of c' n = Some cur"
    "cordon_ok opns cr c nd (cordon_of cur)"
  shows "\<exists>cur'. node_of (apply_call x c') n = Some cur' \<and> cordon_ok opns cr c nd (cordon_of cur')"
proof (cases "\<exists>base new. x = CPatchNode base new None \<and> nd_name base = n")
  case True
  then obtain base new where x: "x = CPatchNode base new None" "nd_name base = n" by blast
  have "cordon_ok opns cr c nd (cordon_of (merge_node base new cur))"
  proof (cases "cordon_of new = cordon_of base")
    case True
    then show ?thesis using merge_cordon_same assms(4) by simp
  next
    case False
    then have t: "cordon_of base = cordon_of nd" "cordon_move cr (phase_of opns cr c nd) (cordon_of new)"
      using assms(1,2) x by auto
    with assms(4) have "cordon_of cur = cordon_of base \<or> cordon_of cur = cordon_of new"
      by (auto simp: cordon_ok_def dest: cordon_move_unique [OF t(2)])
    then show ?thesis using merge_cordon_target t by (simp add: cordon_ok_def)
  qed
  then show ?thesis using x assms(3) by (simp add: node_of_patch del: apply_call.simps)
next
  case False
  then have "node_of (apply_call x c') n = node_of c' n"
    by (cases "\<exists>base new. x = CPatchNode base new None")
      (auto simp: node_of_patch simp del: apply_call.simps intro: node_of_other)
  with assms show ?thesis by simp
qed

lemma replay_cordon:
  assumes "list_all (step_call opns B cr c) h" "node_of c n = Some nd"
  shows "\<exists>nd'. node_of (replay c h) n = Some nd' \<and> cordon_ok opns cr c nd (cordon_of nd')"
proof -
  have "\<exists>nd'. node_of (replay c' h) n = Some nd' \<and> cordon_ok opns cr c nd (cordon_of nd')"
    if "node_of c' n = Some cur" "cordon_ok opns cr c nd (cordon_of cur)" for c' cur
    using that assms(1)
  proof (induction h arbitrary: c' cur)
    case (Cons x h)
    then show ?case using step_call_cordon [OF _ assms(2) Cons.prems(1,2), where x = x and B = B] by auto
  qed auto
  then show ?thesis using assms(2) by (auto simp: cordon_ok_def)
qed

section \<open>The Jobs\<close>

text \<open>The Job a reconcile creates for a node.\<close>

definition flash_job :: "string \<Rightarrow> fw_policy \<Rightarrow> string \<Rightarrow> job \<Rightarrow> bool" where
  "flash_job opns cr n j \<longleftrightarrow> (\<exists>q. operatorNamespace q = opns \<and>
     j = setOwnerRef (buildFlashJob q cr n (defaultFlasherImageFromEnv q)) cr)"

lemma flash_job_facts:
  assumes "flash_job opns cr n j"
  shows "jb_ns j = opns" "jb_name j = jobName cr n (fs_version (fp_spec cr))"
    "jobFinished j = (False, False)" "jb_labels j JobLabelCR = Some (fp_name cr)" "jb_labels j JobLabelNode = Some n"
  using assms
  by (auto simp: flash_job_def setOwnerRef_def buildFlashJob_def jobFinished_def zero_job_status_def
      job_labels_def const_defs)

lemma step_call_job: "step_call opns B cr c (CCreateJob j e) \<longleftrightarrow>
    (\<exists>n. may_flash opns B cr c n \<and> flash_job opns cr n j)"
  by (auto simp: flash_job_def)

text \<open>The Jobs of the cluster only grow, and only by flash Jobs of nodes that were ready, or blind.\<close>

lemma replay_jobs:
  assumes "list_all (step_call opns B cr c) h"
  shows "\<exists>js. cl_jobs (replay c h) = cl_jobs c @ js \<and>
    (\<forall>j \<in> set js. \<exists>n. may_flash opns B cr c n \<and> flash_job opns cr n j)"
proof -
  have "\<exists>js. cl_jobs (replay c' h) = cl_jobs c' @ js \<and>
    (\<forall>j \<in> set js. \<exists>n. may_flash opns B cr c n \<and> flash_job opns cr n j)" for c'
    using assms
  proof (induction h arbitrary: c')
    case (Cons x h)
    have one: "\<exists>js. cl_jobs (apply_call x c') = cl_jobs c' @ js \<and>
      (\<forall>j \<in> set js. \<exists>n. may_flash opns B cr c n \<and> flash_job opns cr n j)"
      using Cons.prems
      by (induction x c' rule: apply_call.induct) (auto simp: step_call_job simp del: step_call.simps)
    then obtain js where js: "cl_jobs (apply_call x c') = cl_jobs c' @ js"
      "\<forall>j \<in> set js. \<exists>n. may_flash opns B cr c n \<and> flash_job opns cr n j" by blast
    from Cons obtain js' where "cl_jobs (replay (apply_call x c') h) = cl_jobs (apply_call x c') @ js'"
      "\<forall>j \<in> set js'. \<exists>n. may_flash opns B cr c n \<and> flash_job opns cr n j"
      by (metis list.pred_inject(2))
    with js show ?case by (intro exI [of _ "js @ js'"]) auto
  qed simp
  then show ?thesis by blast
qed

definition distinct_jobs :: "fw_policy \<Rightarrow> cluster \<Rightarrow> bool" where
  "distinct_jobs cr c \<longleftrightarrow>
     inj_on (\<lambda>n. jobName cr n (fs_version (fp_spec cr))) (nd_name ` set (cl_nodes c))"

lemma phase_node: "phase opns cr c n = Some ph \<Longrightarrow> n \<in> nd_name ` set (cl_nodes c)"
  by (auto simp: phase_def dest: node_of_mem node_of_name)

lemma may_flash_node: "may_flash opns B cr c n \<Longrightarrow> n \<in> nd_name ` set (cl_nodes c)"
  by (auto simp: may_flash_def dest: phase_node)

lemma replay_policy_job:
  assumes "list_all (step_call opns B cr c) h" "distinct_jobs cr c" "n \<in> nd_name ` set (cl_nodes c)"
  shows "policy_job opns cr (replay c h) n = policy_job opns cr c n \<or>
    policy_job opns cr c n = None \<and> may_flash opns B cr c n \<and>
    (\<exists>j. policy_job opns cr (replay c h) n = Some j \<and> flash_job opns cr n j)"
proof -
  obtain js where js: "cl_jobs (replay c h) = cl_jobs c @ js"
    "\<forall>j \<in> set js. \<exists>n. may_flash opns B cr c n \<and> flash_job opns cr n j"
    using replay_jobs [OF assms(1)] by blast
  show ?thesis
  proof (cases "policy_job opns cr c n")
    case None
    then have eq: "policy_job opns cr (replay c h) n =
        find (\<lambda>j. jb_ns j = opns \<and> jb_name j = jobName cr n (fs_version (fp_spec cr))) js"
      by (simp add: policy_job_def find_job_def js(1) find_append)
    have "may_flash opns B cr c n \<and> flash_job opns cr n j"
      if "j \<in> set js" "jb_name j = jobName cr n (fs_version (fp_spec cr))" for j
    proof -
      obtain m where m: "may_flash opns B cr c m" "flash_job opns cr m j" using js(2) \<open>j \<in> set js\<close> by blast
      then have "m = n"
        using flash_job_facts(2) [OF m(2)] that(2) may_flash_node [OF m(1)] assms(2,3)
        by (auto simp: distinct_jobs_def inj_on_def)
      with m show ?thesis by simp
    qed
    moreover have "j \<in> set js \<and> jb_name j = jobName cr n (fs_version (fp_spec cr))"
      if "policy_job opns cr (replay c h) n = Some j" for j
      using that by (auto simp: eq find_Some_iff)
    ultimately show ?thesis
      using None by (cases "policy_job opns cr (replay c h) n") (simp_all, metis)
  qed (simp add: policy_job_def find_job_kept)
qed

section \<open>The phases\<close>

lemma phase_of_ready_cordon: "phase_of opns cr c nd = PhReady \<Longrightarrow> policy_job opns cr c (nd_name nd) = None"
  by (auto simp: phase_of_def split: option.splits if_splits)

lemma phase_of_cong:
  assumes "nd_name nd' = nd_name nd" "cordon_of nd' = cordon_of nd"
    "policy_job opns cr c' (nd_name nd) = policy_job opns cr c (nd_name nd)" "cl_pods c' = cl_pods c"
  shows "phase_of opns cr c' nd' = phase_of opns cr c nd"
proof -
  have "nd_unsched nd' = nd_unsched nd" "sget (nd_annos nd') AnnoCordonedBy = sget (nd_annos nd) AnnoCordonedBy"
    using assms(2) by (simp_all add: cordon_of_def sget_def)
  then show ?thesis using assms(1,3,4) by (simp only: phase_of_def held_def)
qed

lemma replay_phase:
  assumes "list_all (step_call opns B cr c) h" "distinct_jobs cr c" "fp_name cr \<noteq> []"
    "phase opns cr c n = Some ph"
  shows "\<exists>ph'. phase opns cr (replay c h) n = Some ph' \<and>
    (phase_moves ph ph' \<or> blind B cr n \<and> blind_start ph ph')"
proof -
  obtain nd where nd: "node_of c n = Some nd" and ph: "ph = phase_of opns cr c nd" and name: "nd_name nd = n"
    using assms(4) node_of_name by (auto simp: phase_def)
  obtain nd' where nd': "node_of (replay c h) n = Some nd'" "cordon_ok opns cr c nd (cordon_of nd')"
    using replay_cordon [OF assms(1) nd] by blast
  have name': "nd_name nd' = n" using node_of_name nd'(1) by blast
  note job = replay_policy_job [OF assms(1,2) phase_node [OF assms(4)]]
  have "phase_moves ph (phase_of opns cr (replay c h) nd') \<or>
    blind B cr n \<and> blind_start ph (phase_of opns cr (replay c h) nd')"
  proof (cases "policy_job opns cr (replay c h) n = policy_job opns cr c n")
    case same: True
    show ?thesis
    proof (cases "cordon_of nd' = cordon_of nd")
      case True
      then show ?thesis using same ph name name' phase_of_cong by simp
    next
      case False
      then have move: "cordon_move cr ph (cordon_of nd')" using nd'(2) ph by (simp add: cordon_ok_def)
      then consider "ph = PhCordon" "cordon_of nd' = (True, Some (fp_name cr))"
        | "ph = PhUncordon" "cordon_of nd' = (False, None)"
        by (cases ph) simp_all
      then show ?thesis
        by cases
          (use ph same name name' assms(3) in \<open>auto simp: phase_of_def phase_step_simps cordon_of_def held_def
            sget_def split: option.splits if_splits\<close>)
    qed
  next
    case False
    then obtain j where j: "policy_job opns cr (replay c h) n = Some j" "flash_job opns cr n j"
      and may: "policy_job opns cr c n = None" "ph = PhReady \<or> blind B cr n"
      using job assms(4) by (auto simp: may_flash_def)
    have "phase_of opns cr (replay c h) nd' = PhFlash"
      using name' j(1) flash_job_facts(3) [OF j(2)] by (simp add: phase_of_def)
    moreover have "ph \<in> {PhCordon, PhExternal, PhDrain, PhReady}" using may(1) name by (simp add: ph phase_of_def)
    ultimately show ?thesis using may(2) by (auto simp: blind_start_def phase_step_simps)
  qed
  then show ?thesis using nd'(1) by (simp add: phase_def)
qed


end
