(* ===== verification/RollOutReach.thy ===== *)
theory RollOutReach
  imports PhaseMoves
begin

text \<open>
  Runs of the firmware controller against a cluster that changes on its own: reconciles of one policy,
  each with any server that honours the contract and any failures, alternate with steps of the
  environment. The invariants hold in every reachable cluster.
\<close>

section \<open>The policy over time\<close>

text \<open>The status and the metadata of the policy may change between reconciles, its name and
  specification are fixed.\<close>

definition same_policy :: "fw_policy \<Rightarrow> fw_policy \<Rightarrow> bool" where
  "same_policy cr cr' \<longleftrightarrow> fp_name cr' = fp_name cr \<and> fp_spec cr' = fp_spec cr"

lemma same_policy_phase:
  assumes "same_policy cr cr'"
  shows "policy_job opns cr' = policy_job opns cr" "to_drain opns cr' = to_drain opns cr"
    "phase opns cr' = phase opns cr" "phase_of opns cr' = phase_of opns cr" "held cr' = held cr"
    "maxParallel cr' = maxParallel cr" "distinct_jobs cr' = distinct_jobs cr"
    "cordon_ok opns cr' = cordon_ok opns cr"
proof -
  have name: "jobName cr' = jobName cr" using assms by (intro ext) (simp add: same_policy_def jobName_def)
  show job: "policy_job opns cr' = policy_job opns cr" and drain: "to_drain opns cr' = to_drain opns cr"
    and held: "held cr' = held cr" and "maxParallel cr' = maxParallel cr" "distinct_jobs cr' = distinct_jobs cr"
    using assms by (auto intro!: ext simp: policy_job_def to_drain_def held_def maxParallel_def
        distinct_jobs_def same_policy_def name)
  have en: "drainEnabled cr' = drainEnabled cr" using assms by (simp add: drainEnabled_def same_policy_def)
  show ph: "phase_of opns cr' = phase_of opns cr"
    using assms by (intro ext) (simp only: phase_of_def job drain held en same_policy_def)
  then show "phase opns cr' = phase opns cr" by (intro ext) (simp add: phase_def)
  have "cordon_move cr' ph x = cordon_move cr ph x" for ph x
    using assms by (cases ph) (simp_all add: same_policy_def)
  then show "cordon_ok opns cr' = cordon_ok opns cr" by (intro ext) (simp add: cordon_ok_def ph)
qed

section \<open>Reachable clusters\<close>

definition job_key :: "job \<Rightarrow> string \<times> string" where
  "job_key j = (jb_ns j, jb_name j)"

text \<open>The Jobs that count for the policy: those that carry its label, and those under the names it uses.\<close>

definition labelled :: "string \<Rightarrow> fw_policy \<Rightarrow> job \<Rightarrow> bool" where
  "labelled opns cr j \<longleftrightarrow> jb_ns j = opns \<and> jb_labels j JobLabelCR = Some (fp_name cr)"

definition named :: "string \<Rightarrow> fw_policy \<Rightarrow> string set \<Rightarrow> job \<Rightarrow> bool" where
  "named opns cr N j \<longleftrightarrow> jb_ns j = opns \<and> jb_name j \<in> (\<lambda>n. jobName cr n (fs_version (fp_spec cr))) ` N"

definition wf_cluster :: "string set \<Rightarrow> cluster \<Rightarrow> bool" where
  "wf_cluster N c \<longleftrightarrow> distinct (map nd_name (cl_nodes c)) \<and> nd_name ` set (cl_nodes c) \<subseteq> N \<and>
     distinct (map job_key (cl_jobs c))"

text \<open>What the rest of the cluster may do: run Jobs, collect them, create others; add and remove nodes, but no
  node under a name for which a Job exists; change nodes in any way but undoing the policy's cordon;
  start and stop pods, but no device pod on a cordoned node; a Job that has ended keeps its outcome.\<close>

definition env_step :: "string \<Rightarrow> fw_policy \<Rightarrow> string set \<Rightarrow> cluster \<Rightarrow> cluster \<Rightarrow> bool" where
  "env_step opns cr N c c' \<longleftrightarrow> wf_cluster N c' \<and>
     (\<forall>nd' \<in> set (cl_nodes c').
        (\<exists>nd \<in> set (cl_nodes c). nd_name nd = nd_name nd' \<and> (held cr nd \<longrightarrow> held cr nd')) \<or>
        policy_job opns cr c (nd_name nd') = None) \<and>
     (\<forall>nd' \<in> set (cl_nodes c'). held cr nd' \<longrightarrow>
        to_drain opns cr (cl_pods c) (nd_name nd') = [] \<longrightarrow> to_drain opns cr (cl_pods c') (nd_name nd') = []) \<and>
     (\<forall>j' \<in> set (cl_jobs c'). labelled opns cr j' \<or> named opns cr N j' \<longrightarrow>
        (\<exists>j \<in> set (cl_jobs c). job_key j = job_key j' \<and> jb_labels j = jb_labels j' \<and>
           (fst (jobFinished j) \<longrightarrow> jobFinished j' = jobFinished j)))"

text \<open>The runs, with the names \<open>B\<close> of the Jobs whose lookup failed in some reconcile otherwise than with NotFound.\<close>

inductive reach :: "string \<Rightarrow> fw_policy \<Rightarrow> string set \<Rightarrow> string set \<Rightarrow> cluster \<Rightarrow> bool" for opns cr N B where
  start: "wf_cluster N c \<Longrightarrow> list_all (\<lambda>j. \<not> labelled opns cr j \<and> \<not> named opns cr N j) (cl_jobs c) \<Longrightarrow>
    reach opns cr N B c"
| reconcile: "reach opns cr N B c \<Longrightarrow> api_server p c B \<Longrightarrow> operatorNamespace p = opns \<Longrightarrow> hist s = [] \<Longrightarrow>
    (\<And>cr'. srv_get_fw (pf_reads p) [] (fp_name cr) = Inr cr' \<Longrightarrow> same_policy cr cr') \<Longrightarrow>
    reach opns cr N B (replay c (hist (final_of (FirmwareReconcile p (fp_name cr)) s)))"
| env: "reach opns cr N B c \<Longrightarrow> env_step opns cr N c c' \<Longrightarrow> reach opns cr N B c'"

section \<open>The reconcile as a step\<close>

text \<open>What a reconcile of the policy can do to the cluster: nothing, or the calls of \<open>reconcile_cr\<close>.\<close>

lemma FirmwareReconcile_runs:
  assumes "hist s = []" "\<And>cr'. srv_get_fw (pf_reads p) [] (fp_name cr) = Inr cr' \<Longrightarrow> same_policy cr cr'"
  shows "list_all read_call (hist (final_of (FirmwareReconcile p (fp_name cr)) s)) \<or>
    (\<exists>cr' s'. same_policy cr cr' \<and> list_all read_call (hist s') \<and>
       hist (final_of (FirmwareReconcile p (fp_name cr)) s) = hist (final_of (reconcile_cr p cr') s'))"
proof -
  have gone: "hist (final_of (DeleteFirmwarePolicySeries n) t) = hist t"
    "hist (final_of (events_Forget n) t) = hist t" for n t
    using issuesD [of "\<lambda>_. False" "DeleteFirmwarePolicySeries n" t] issuesD [of "\<lambda>_. False" "events_Forget n" t]
    by (auto simp: list_all_iff DeleteFirmwarePolicySeries_def intro!: frame_rules)
  let ?s = "s\<lparr>hist := [CGetFw (fp_name cr)]\<rparr>"
  show ?thesis
  proof (cases "srv_get_fw (pf_reads p) [] (fp_name cr)")
    case (Inl e)
    then show ?thesis by (simp add: FirmwareReconcile_def get_fw_def assms(1) gone)
  next
    case (Inr cr')
    show ?thesis
    proof (cases "fp_deleted cr' = None")
      case True
      then show ?thesis
        using assms(2) [OF Inr] Inr
        by (intro disjI2 exI [of _ cr'] exI [of _ ?s]) (simp add: FirmwareReconcile_def get_fw_def assms(1))
    qed (use Inr in \<open>simp add: FirmwareReconcile_def get_fw_def assms(1) gone\<close>)
  qed
qed

lemma FirmwareReconcile_calls:
  assumes "hist s = []" "\<And>cr'. srv_get_fw (pf_reads p) [] (fp_name cr) = Inr cr' \<Longrightarrow> same_policy cr cr'"
  shows "replay c (hist (final_of (FirmwareReconcile p (fp_name cr)) s)) = c \<or>
    (\<exists>cr' s'. same_policy cr cr' \<and> list_all read_call (hist s') \<and>
       hist (final_of (FirmwareReconcile p (fp_name cr)) s) = hist (final_of (reconcile_cr p cr') s'))"
  using FirmwareReconcile_runs [OF assms] replay_reads by blast

section \<open>What a reconcile preserves\<close>

lemma apply_call_jobs: "\<exists>js. cl_jobs (apply_call x c) = cl_jobs c @ js \<and> length js \<le> (if job_created x then 1 else 0)"
  by (induction x c rule: apply_call.induct) auto

lemma replay_jobs_grow:
  "\<exists>js. cl_jobs (replay c h) = cl_jobs c @ js \<and> length js \<le> length (filter job_created h)"
proof (induction h arbitrary: c)
  case (Cons x h)
  obtain js where js: "cl_jobs (apply_call x c) = cl_jobs c @ js" "length js \<le> (if job_created x then 1 else 0)"
    using apply_call_jobs by blast
  obtain js' where "cl_jobs (replay (apply_call x c) h) = cl_jobs (apply_call x c) @ js'"
    "length js' \<le> length (filter job_created h)"
    using Cons by blast
  with js show ?case by (intro exI [of _ "js @ js'"]) (auto split: if_splits)
qed simp

lemma apply_call_keys: "distinct (map job_key (cl_jobs c)) \<Longrightarrow> distinct (map job_key (cl_jobs (apply_call x c)))"
  by (induction x c rule: apply_call.induct) (auto simp: find_job_def find_None_iff job_key_def)

lemma replay_wf: "wf_cluster N c \<Longrightarrow> wf_cluster N (replay c h)"
proof -
  have "distinct (map job_key (cl_jobs c)) \<Longrightarrow> distinct (map job_key (cl_jobs (replay c h)))"
    by (induction h arbitrary: c) (simp_all add: apply_call_keys)
  moreover have "nd_name ` set (cl_nodes (replay c h)) = nd_name ` set (cl_nodes c)"
    by (metis image_set replay_names)
  ultimately show "wf_cluster N c \<Longrightarrow> wf_cluster N (replay c h)"
    by (simp add: wf_cluster_def)
qed

lemma find_job_key: "distinct (map job_key (cl_jobs c)) \<Longrightarrow> j \<in> set (cl_jobs c) \<Longrightarrow>
  find_job c (jb_ns j) (jb_name j) = Some j"
proof (induction "cl_jobs c" arbitrary: c)
  case (Cons x xs)
  then have c: "cl_jobs c = x # xs" by simp
  show ?case
  proof (cases "j = x")
    case False
    then have "j \<in> set xs" "job_key j \<noteq> job_key x" using Cons.prems c by (auto simp: image_iff)
    then show ?thesis
      using Cons.hyps(1) [of "c\<lparr>cl_jobs := xs\<rparr>"] Cons.prems c by (auto simp: find_job_def job_key_def)
  qed (simp add: find_job_def c)
qed simp

lemma node_of_exists: "n \<in> nd_name ` set (cl_nodes c) \<Longrightarrow> \<exists>nd. node_of c n = Some nd"
  by (cases "node_of c n") (auto simp: node_of_def find_None_iff)

text \<open>The names of the nodes determine the names of their Jobs.\<close>

abbreviation names_ok :: "fw_policy \<Rightarrow> string set \<Rightarrow> bool" where
  "names_ok cr N \<equiv> fp_name cr \<noteq> [] \<and> inj_on (\<lambda>n. jobName cr n (fs_version (fp_spec cr))) N"

lemma names_distinct_jobs: "names_ok cr N \<Longrightarrow> wf_cluster N c \<Longrightarrow> distinct_jobs cr c"
  by (auto simp: distinct_jobs_def wf_cluster_def intro: inj_on_subset)

text \<open>A reconcile of the policy, as the calls its phases allow.\<close>

lemma reconcile_step_calls:
  assumes "api_server p c B" "operatorNamespace p = opns" "hist s = []" "wf_cluster N c"
    "\<And>cr'. srv_get_fw (pf_reads p) [] (fp_name cr) = Inr cr' \<Longrightarrow> same_policy cr cr'"
  obtains cr' h where "same_policy cr cr'" "list_all (step_call opns B cr' c) h"
    "replay c (hist (final_of (FirmwareReconcile p (fp_name cr)) s)) = replay c h"
proof -
  consider "replay c (hist (final_of (FirmwareReconcile p (fp_name cr)) s)) = c"
    | cr' s' where "same_policy cr cr'" "list_all read_call (hist s')"
      "hist (final_of (FirmwareReconcile p (fp_name cr)) s) = hist (final_of (reconcile_cr p cr') s')"
    using FirmwareReconcile_calls [OF assms(3), of p cr c] assms(5) by blast
  then show thesis
  proof cases
    case 1
    then show ?thesis using that [of cr "[]"] by (simp add: same_policy_def)
  next
    case 2
    have q: "replay c (hist s') = c" using 2(2) by (rule replay_reads)
    obtain h where "hist (final_of (reconcile_cr p cr') s') = hist s' @ h" "list_all (step_call opns B cr' c) h"
      using api_server.step_reconcile [OF assms(1) q, of cr'] assms(2,4) by (auto simp: issued_def wf_cluster_def)
    with 2 q show ?thesis using that [of cr' h] by simp
  qed
qed

section \<open>Flashes happen on drained nodes\<close>

definition flash_inv :: "string \<Rightarrow> string set \<Rightarrow> fw_policy \<Rightarrow> cluster \<Rightarrow> bool" where
  "flash_inv opns B cr c \<longleftrightarrow> (\<forall>n nd j. \<not> blind B cr n \<longrightarrow> node_of c n = Some nd \<longrightarrow> policy_job opns cr c n = Some j \<longrightarrow>
     \<not> fst (jobFinished j) \<longrightarrow> held cr nd \<and> to_drain opns cr (cl_pods c) n = [])"

lemma held_cordon: "cordon_of nd' = cordon_of nd \<Longrightarrow> held cr nd' = held cr nd"
  by (auto simp: held_def cordon_of_def sget_def)

lemma phase_of_flash:
  "policy_job opns cr c (nd_name nd) = Some j \<Longrightarrow> \<not> fst (jobFinished j) \<Longrightarrow> phase_of opns cr c nd = PhFlash"
  by (cases "jobFinished j") (simp add: phase_of_def)

lemma replay_flash_inv:
  assumes "list_all (step_call opns B cr c) h" "distinct_jobs cr c" "drainEnabled cr" "flash_inv opns B cr c"
  shows "flash_inv opns B cr (replay c h)"
  unfolding flash_inv_def
proof (intro allI impI)
  fix n nd' j
  assume see: "\<not> blind B cr n"
    and n: "node_of (replay c h) n = Some nd'" "policy_job opns cr (replay c h) n = Some j" "\<not> fst (jobFinished j)"
  have "n \<in> nd_name ` set (cl_nodes (replay c h))" using n(1) node_of_mem node_of_name by blast
  then have names: "n \<in> nd_name ` set (cl_nodes c)" by (metis image_set replay_names)
  then obtain nd where nd: "node_of c n = Some nd" using node_of_exists by blast
  have name: "nd_name nd = n" using node_of_name nd by blast
  have cordon: "cordon_ok opns cr c nd (cordon_of nd')" using replay_cordon [OF assms(1) nd] n(1) by auto
  from replay_policy_job [OF assms(1,2) names]
  have "held cr nd \<and> to_drain opns cr (cl_pods c) n = [] \<and> cordon_of nd' = cordon_of nd"
  proof
    assume "policy_job opns cr (replay c h) n = policy_job opns cr c n"
    then have j: "policy_job opns cr c n = Some j" using n(2) by simp
    then have "phase_of opns cr c nd = PhFlash"
      using n(3) by (intro phase_of_flash) (simp_all add: name)
    then show ?thesis using see j assms(4) nd n cordon by (auto simp: flash_inv_def cordon_ok_def)
  next
    assume "policy_job opns cr c n = None \<and> may_flash opns B cr c n \<and>
      (\<exists>j. policy_job opns cr (replay c h) n = Some j \<and> flash_job opns cr n j)"
    then have "policy_job opns cr c n = None" "phase_of opns cr c nd = PhReady"
      using nd see by (auto simp: phase_def may_flash_def)
    moreover from this have "held cr nd \<and> to_drain opns cr (cl_pods c) n = []"
      using assms(3) name by (simp add: phase_of_def split: if_splits)
    ultimately show ?thesis using cordon by (simp add: cordon_ok_def)
  qed
  then show "held cr nd' \<and> to_drain opns cr (cl_pods (replay c h)) n = []" using held_cordon [of nd' nd] by simp
qed

lemma same_blind: "same_policy cr cr' \<Longrightarrow> blind B cr' = blind B cr"
  by (intro ext) (simp add: blind_def same_policy_def jobName_def)

lemma flash_inv_same: "same_policy cr cr' \<Longrightarrow> flash_inv opns B cr' = flash_inv opns B cr"
  by (intro ext) (simp add: flash_inv_def same_policy_phase same_blind)

lemma same_drainEnabled: "same_policy cr cr' \<Longrightarrow> drainEnabled cr' = drainEnabled cr"
  by (simp add: same_policy_def drainEnabled_def)

text \<open>A Job of the policy after a step of the environment was there before it.\<close>

lemma env_policy_job:
  assumes "env_step opns cr N c c'" "wf_cluster N c" "n \<in> N" "policy_job opns cr c' n = Some j'"
  shows "\<exists>j. policy_job opns cr c n = Some j \<and> (fst (jobFinished j) \<longrightarrow> jobFinished j' = jobFinished j)"
proof -
  have j': "j' \<in> set (cl_jobs c')" "jb_ns j' = opns" "jb_name j' = jobName cr n (fs_version (fp_spec cr))"
    using assms(4) by (auto simp: policy_job_def find_job_def find_Some_iff)
  then have "named opns cr N j'" using assms(3) by (auto simp: named_def)
  then obtain j where j: "j \<in> set (cl_jobs c)" "job_key j = job_key j'"
    "fst (jobFinished j) \<longrightarrow> jobFinished j' = jobFinished j"
    using assms(1) j'(1) by (auto simp: env_step_def)
  then show ?thesis
    using find_job_key [OF _ j(1)] assms(2) j' by (simp add: wf_cluster_def policy_job_def job_key_def)
qed

lemma env_flash_inv:
  assumes "env_step opns cr N c c'" "wf_cluster N c" "flash_inv opns B cr c"
  shows "flash_inv opns B cr c'"
  unfolding flash_inv_def
proof (intro allI impI)
  fix n nd' j'
  assume see: "\<not> blind B cr n"
    and n: "node_of c' n = Some nd'" "policy_job opns cr c' n = Some j'" "\<not> fst (jobFinished j')"
  have nd': "nd' \<in> set (cl_nodes c')" "nd_name nd' = n" using n(1) node_of_mem node_of_name by auto
  then have "n \<in> N" using assms(1) by (auto simp: env_step_def wf_cluster_def)
  then obtain j where j: "policy_job opns cr c n = Some j" "fst (jobFinished j) \<longrightarrow> jobFinished j' = jobFinished j"
    using env_policy_job [OF assms(1,2)] n(2) by blast
  then obtain nd where nd: "nd \<in> set (cl_nodes c)" "nd_name nd = n" "held cr nd \<longrightarrow> held cr nd'"
    using assms(1) nd' by (auto simp: env_step_def)
  have "node_of c n = Some nd"
    using node_of_distinct [of c nd] assms(2) nd(1,2) by (simp add: wf_cluster_def)
  then have "held cr nd" "to_drain opns cr (cl_pods c) n = []"
    using assms(3) see j n(3) by (auto simp: flash_inv_def)
  with nd(3) nd' assms(1) show "held cr nd' \<and> to_drain opns cr (cl_pods c') n = []"
    by (auto simp: env_step_def)
qed

text \<open>Without a Job of the policy nothing is being flashed.\<close>

lemma start_flash_inv:
  assumes "wf_cluster N c" "list_all (\<lambda>j. \<not> labelled opns cr j \<and> \<not> named opns cr N j) (cl_jobs c)"
  shows "flash_inv opns B cr c"
proof -
  have "policy_job opns cr c n = None" if "node_of c n = Some nd" for n nd
  proof -
    have "n \<in> N" using that assms(1) node_of_mem [OF that] node_of_name [OF that] by (auto simp: wf_cluster_def)
    then show ?thesis
      using assms(2) by (auto simp: policy_job_def find_job_def find_None_iff named_def list_all_iff)
  qed
  then show ?thesis by (simp add: flash_inv_def)
qed

lemma reach_wf: "reach opns cr N B c \<Longrightarrow> wf_cluster N c"
  by (induction rule: reach.induct) (auto simp: replay_wf env_step_def)

lemma reach_flash_inv:
  assumes "reach opns cr N B c" "names_ok cr N" "drainEnabled cr"
  shows "flash_inv opns B cr c"
  using assms(1)
proof (induction rule: reach.induct)
  case (start c)
  then show ?case by (rule start_flash_inv)
next
  case (reconcile c p s)
  note wf = reach_wf [OF reconcile(1)]
  obtain cr' h where h: "same_policy cr cr'" "list_all (step_call opns B cr' c) h"
    "replay c (hist (final_of (FirmwareReconcile p (fp_name cr)) s)) = replay c h"
    using reconcile_step_calls [OF reconcile(2-4) wf] reconcile(5) by metis
  then show ?case
    using replay_flash_inv [OF h(2)] names_distinct_jobs [OF assms(2) wf] reconcile.IH assms(3)
      same_drainEnabled [OF h(1)]
    by (simp add: flash_inv_same same_policy_phase)
next
  case (env c c')
  then show ?case using env_flash_inv reach_wf by blast
qed

text \<open>C1: With drain enabled, an unfinished flash Job of the policy runs on a node that the policy holds cordoned and
  that has no device pod left to drain, in every cluster that reconciles of the policy and steps of the
  environment can lead to, whatever calls fail on the way; except on a node whose own Job lookup failed in
  some reconcile otherwise than with NotFound (its Job name is in \<open>B\<close>). Failed lookups of the Jobs of other
  nodes do no harm to this one.\<close>

theorem flash_only_on_drained_nodes:
  assumes "reach opns cr N B c" "fp_name cr \<noteq> []" "inj_on (\<lambda>n. jobName cr n (fs_version (fp_spec cr))) N"
    "drainEnabled cr" "jobName cr n (fs_version (fp_spec cr)) \<notin> B"
    "node_of c n = Some nd" "policy_job opns cr c n = Some j" "\<not> fst (jobFinished j)"
  shows "nd_unsched nd \<and> sget (nd_annos nd) AnnoCordonedBy = fp_name cr \<and> to_drain opns cr (cl_pods c) n = []"
  using reach_flash_inv [OF assms(1)] assms(2-) by (auto simp: flash_inv_def held_def blind_def)

section \<open>The number of Jobs in flight\<close>

definition in_flight :: "string \<Rightarrow> fw_policy \<Rightarrow> cluster \<Rightarrow> nat" where
  "in_flight opns cr c = countInFlightJobs (filter (labelled opns cr) (cl_jobs c))"

lemma count_in_flight: "countInFlightJobs js = length (filter (\<lambda>j. \<not> fst (jobFinished j)) js)"
  by (induction js) (auto split: prod.split)

lemma in_flight_length: "in_flight opns cr c = length (filter (\<lambda>j. jb_ns j = opns \<and>
    jb_labels j JobLabelCR = Some (fp_name cr) \<and> \<not> fst (jobFinished j)) (cl_jobs c))"
  by (simp add: in_flight_def count_in_flight labelled_def [abs_def] conj_ac)

lemma in_flight_grow:
  "in_flight opns cr c \<le> in_flight opns cr (replay c h) \<and>
   in_flight opns cr (replay c h) \<le> in_flight opns cr c + length (filter job_created h)"
proof -
  obtain js where js: "cl_jobs (replay c h) = cl_jobs c @ js" "length js \<le> length (filter job_created h)"
    using replay_jobs_grow by blast
  have "countInFlightJobs (filter (labelled opns cr) js) \<le> length js"
    unfolding count_in_flight by (meson le_trans length_filter_le)
  moreover have "in_flight opns cr (replay c h) = in_flight opns cr c + countInFlightJobs (filter (labelled opns cr) js)"
    by (simp add: in_flight_def count_in_flight js(1) del: filter_filter)
  ultimately show ?thesis using js(2) by linarith
qed

lemma in_flight_keys:
  assumes "distinct (map job_key (cl_jobs c))"
  shows "in_flight opns cr c = card (job_key ` {j \<in> set (cl_jobs c). labelled opns cr j \<and> \<not> fst (jobFinished j)})"
proof -
  have eq: "in_flight opns cr c = length (map job_key (filter (\<lambda>j. labelled opns cr j \<and> \<not> fst (jobFinished j)) (cl_jobs c)))"
    by (simp add: in_flight_def count_in_flight conj_commute)
  have "distinct (map job_key (filter (\<lambda>j. labelled opns cr j \<and> \<not> fst (jobFinished j)) (cl_jobs c)))"
    by (rule distinct_map_filter [OF assms])
  from distinct_card [OF this] show ?thesis unfolding eq by simp
qed

lemma env_in_flight:
  assumes "env_step opns cr N c c'" "wf_cluster N c"
  shows "in_flight opns cr c' \<le> in_flight opns cr c"
proof -
  have "job_key j' \<in> job_key ` {j \<in> set (cl_jobs c). labelled opns cr j \<and> \<not> fst (jobFinished j)}"
    if "j' \<in> set (cl_jobs c')" "labelled opns cr j'" "\<not> fst (jobFinished j')" for j'
  proof -
    obtain j where "j \<in> set (cl_jobs c)" "job_key j = job_key j'" "jb_labels j = jb_labels j'"
      "fst (jobFinished j) \<longrightarrow> jobFinished j' = jobFinished j"
      using assms(1) \<open>j' \<in> set (cl_jobs c')\<close> \<open>labelled opns cr j'\<close> unfolding env_step_def by blast
    then show ?thesis
      using \<open>labelled opns cr j'\<close> \<open>\<not> fst (jobFinished j')\<close>
      by (intro image_eqI [of _ _ j]) (auto simp: labelled_def job_key_def)
  qed
  then show ?thesis
    using assms by (auto simp: env_step_def wf_cluster_def in_flight_keys intro!: card_mono)
qed

lemma labelled_same: "same_policy cr cr' \<Longrightarrow> labelled opns cr' = labelled opns cr"
  by (intro ext) (simp add: labelled_def same_policy_def)

text \<open>If every listing of the Jobs shows at least \<open>n\<close> in flight, a reconcile adds at most what \<open>maxParallel\<close> leaves.\<close>

lemma reconcile_adds:
  assumes "operatorNamespace p = opns" "hist s = []"
    "\<And>cr'. srv_get_fw (pf_reads p) [] (fp_name cr) = Inr cr' \<Longrightarrow> same_policy cr cr'"
    "\<And>h js. srv_list_jobs (pf_reads p) h opns [(JobLabelCR, fp_name cr)] = Inr js \<Longrightarrow> n \<le> countInFlightJobs js"
  shows "in_flight opns cr (replay c (hist (final_of (FirmwareReconcile p (fp_name cr)) s)))
    \<le> in_flight opns cr c + nat (maxParallel cr - int n)"
proof -
  consider "replay c (hist (final_of (FirmwareReconcile p (fp_name cr)) s)) = c"
    | cr' s' where "same_policy cr cr'" "list_all read_call (hist s')"
      "hist (final_of (FirmwareReconcile p (fp_name cr)) s) = hist (final_of (reconcile_cr p cr') s')"
    using FirmwareReconcile_calls [OF assms(2), of p cr c] assms(3) by blast
  then show ?thesis
  proof cases
    case 2
    have "jobs_created (final_of (reconcile_cr p cr') s') \<le> jobs_created s' + nat (maxParallel cr' - int n)"
      by (rule job_budget) (use assms(1,4) 2(1) in \<open>auto simp: same_policy_def\<close>)
    moreover have "jobs_created s' = 0"
      using 2(2) by (auto simp: jobs_created_def filter_empty_conv list_all_iff elim!: job_created.elims)
    ultimately have "length (filter job_created (hist (final_of (reconcile_cr p cr') s'))) \<le> nat (maxParallel cr - int n)"
      by (simp add: jobs_created_def same_policy_phase [OF 2(1)])
    then show ?thesis
      using in_flight_grow [of opns cr c "hist (final_of (reconcile_cr p cr') s')"] unfolding 2(3) by linarith
  qed simp
qed

lemma reconcile_in_flight:
  assumes "api_server p c B" "operatorNamespace p = opns" "hist s = []"
    "\<And>cr'. srv_get_fw (pf_reads p) [] (fp_name cr) = Inr cr' \<Longrightarrow> same_policy cr cr'"
  shows "in_flight opns cr (replay c (hist (final_of (FirmwareReconcile p (fp_name cr)) s)))
    \<le> max (in_flight opns cr c) (nat (maxParallel cr))"
proof -
  have shown: "in_flight opns cr c \<le> countInFlightJobs js"
    if "srv_list_jobs (pf_reads p) h opns [(JobLabelCR, fp_name cr)] = Inr js" for h js
    using api_server.list_jobs [OF assms(1) that] in_flight_grow [of opns cr c h]
    by (simp add: in_flight_def labelled_def [abs_def])
  have "in_flight opns cr (replay c (hist (final_of (FirmwareReconcile p (fp_name cr)) s)))
      \<le> in_flight opns cr c + nat (maxParallel cr - int (in_flight opns cr c))"
    by (rule reconcile_adds) (use assms(2-4) shown in blast)+
  then show ?thesis by linarith
qed

lemma reach_in_flight: "reach opns cr N B c \<Longrightarrow> in_flight opns cr c \<le> nat (maxParallel cr)"
proof (induction rule: reach.induct)
  case (start c)
  then have "filter (labelled opns cr) (cl_jobs c) = []" by (auto simp: filter_empty_conv list_all_iff)
  then show ?case by (simp add: in_flight_def)
next
  case (reconcile c p s)
  then show ?case using reconcile_in_flight [of p c B opns s cr] by fastforce
next
  case (env c c')
  then show ?case using env_in_flight reach_wf le_trans by blast
qed

text \<open>C2: In every reachable cluster at most \<open>maxParallel\<close> flash Jobs of the policy have not ended (none, when
  \<open>maxParallel\<close> is negative), whatever calls failed on the way.\<close>

theorem in_flight_bounded:
  assumes "reach opns cr N B c"
  shows "int (length (filter (\<lambda>j. jb_ns j = opns \<and> jb_labels j JobLabelCR = Some (fp_name cr) \<and>
      \<not> fst (jobFinished j)) (cl_jobs c))) \<le> max 0 (maxParallel cr)"
  using reach_in_flight [OF assms] unfolding in_flight_length by linarith

end
