(* ===== verification/RollOutLive.thy ===== *)
theory RollOutLive
  imports RollOutReach
begin

text \<open>
  Progress of a roll-out: on a server that accepts the calls, a reconcile takes every node that is to
  be cordoned or uncordoned, and at least one that is ready to flash, a step further; if the drained
  pods leave and the Jobs succeed in between, the whole cluster is done after a bounded number of rounds.
\<close>

section \<open>A server that does not fail\<close>

locale job_store =
  fixes p :: platform and c :: cluster
  assumes accepts_job: "find_job (replay c h) (jb_ns j) (jb_name j) = None \<Longrightarrow>
    srv_create_job (pf_writes p) h j = Inr j"

locale reliable_server = api_server p c "{}" + job_store p c for p c +
  assumes lists_nodes: "srv_list_nodes (pf_reads p) h = Inr (cl_nodes (replay c h))"
    and lists_pods: "srv_list_pods (pf_reads p) h None [] = Inr (cl_pods (replay c h))"
    and lists_jobs: "\<exists>js. srv_list_jobs (pf_reads p) h ns sel = Inr js"
    and accepts_patch: "node_of (replay c h) (nd_name base) = Some cur \<Longrightarrow> nd_name new = nd_name base \<Longrightarrow>
      srv_patch_node (pf_writes p) h base new = Inr (merge_node base new cur)"

interpretation mem: reliable_server "mem_server q c" c for q c
  by unfold_locales (auto simp: mem_server_def)

lemma merge_node_exact: "nd_name new = nd_name base \<Longrightarrow> merge_node base new base = new"
  by (cases new, cases base) (auto simp: merge_node_def merge_map_def)

text \<open>A cordon that has moved as its phase asks stays so.\<close>

definition reached :: "string \<Rightarrow> fw_policy \<Rightarrow> cluster \<Rightarrow> cluster \<Rightarrow> string \<Rightarrow> bool" where
  "reached opns cr c c' n \<longleftrightarrow> (\<exists>nd cur. node_of c n = Some nd \<and> node_of c' n = Some cur \<and>
     cordon_move cr (phase_of opns cr c nd) (cordon_of cur))"

lemma reached_step:
  assumes "step_call opns B cr c x" "reached opns cr c c' n"
  shows "reached opns cr c (apply_call x c') n"
proof -
  obtain nd cur where n: "node_of c n = Some nd" "node_of c' n = Some cur"
    "cordon_move cr (phase_of opns cr c nd) (cordon_of cur)"
    using assms(2) by (auto simp: reached_def)
  show ?thesis
  proof (cases "\<exists>base new. x = CPatchNode base new None \<and> nd_name base = n")
    case True
    then obtain base new where x: "x = CPatchNode base new None" "nd_name base = n" by blast
    have "cordon_of (merge_node base new cur) = cordon_of cur"
    proof (cases "cordon_of new = cordon_of base")
      case False
      then have "cordon_move cr (phase_of opns cr c nd) (cordon_of new)" using assms(1) x n(1) by auto
      from cordon_move_unique [OF this n(3)] show ?thesis by (simp add: merge_cordon_target)
    qed (rule merge_cordon_same)
    then show ?thesis using n x by (simp add: reached_def node_of_patch del: apply_call.simps)
  next
    case False
    then have "node_of (apply_call x c') n = node_of c' n"
      by (cases "\<exists>base new. x = CPatchNode base new None")
        (auto simp: node_of_patch simp del: apply_call.simps intro: node_of_other)
    with n show ?thesis by (simp add: reached_def)
  qed
qed

lemma reached_replay: "list_all (step_call opns B cr c) h \<Longrightarrow> reached opns cr c c' n \<Longrightarrow> reached opns cr c (replay c' h) n"
  by (induction h arbitrary: c') (auto intro: reached_step)

lemma reached_issued:
  "issued (step_call opns B cr c) s t \<Longrightarrow> reached opns cr c (replay c (hist s)) n \<Longrightarrow>
   reached opns cr c (replay c (hist t)) n"
  by (auto simp: issued_def reached_replay)

lemma job_issued: "issued P s t \<Longrightarrow> policy_job opns cr (replay c (hist s)) n \<noteq> None \<Longrightarrow>
   policy_job opns cr (replay c (hist t)) n \<noteq> None"
  by (auto simp: issued_def policy_job_def find_job_kept)

section \<open>Progress of one node\<close>

context job_store begin

text \<open>After a flash was started its Job is there, made now or before.\<close>

lemma spawn_stored:
  "policy_job (operatorNamespace p) cr
     (replay c (hist (final_of (spawnFlashJob p cr node ns) s))) (nd_name node) \<noteq> None"
proof -
  let ?j = "setOwnerRef (buildFlashJob p cr (nd_name node) (defaultFlasherImageFromEnv p)) cr"
  have j: "jb_ns ?j = operatorNamespace p" "jb_name ?j = jobName cr (nd_name node) (fs_version (fp_spec cr))"
    by (simp_all add: setOwnerRef_def buildFlashJob_def)
  have made: "policy_job (operatorNamespace p) cr (replay c (hist (final_of (create_job p ?j) s))) (nd_name node) \<noteq> None"
    using accepts_job [of "hist s" ?j] j
    by (auto simp: create_job_def policy_job_def find_job_apply find_job_kept err_of_def
        simp del: apply_call.simps split: option.splits sum.splits)
  have rest: "issued (\<lambda>_. True) (final_of (create_job p ?j) s) (final_of (spawnFlashJob p cr node ns) s)"
    unfolding spawnFlashJob_def Let_def final_of_bind
    by (rule issued_keeps) (intro frame_rules issues_annotateNode issues_labelNode; simp)
  show ?thesis by (rule job_issued [OF rest made])
qed

end

context reliable_server begin

lemma patch_stored:
  assumes "node_of (replay c (hist s)) (nd_name base) = Some base" "nd_name new = nd_name base"
  shows "result_of (patch_node p base new) s = (None, new)"
    "node_of (replay c (hist (final_of (patch_node p base new) s))) (nd_name base) = Some new"
  using accepts_patch [OF assms] assms
  by (simp_all add: patch_node_def node_of_patch merge_node_exact del: apply_call.simps)

lemma claim_stored:
  assumes "node_of (replay c (hist s)) (nd_name node) = Some node"
  shows "\<exists>cn. result_of (claimOwnership p node cr') s = (None, cn) \<and> nd_name cn = nd_name node \<and>
    cordon_of cn = cordon_of node \<and>
    node_of (replay c (hist (final_of (claimOwnership p node cr') s))) (nd_name node) = Some cn"
  using assms patch_stored [OF assms]
  by (auto simp: claimOwnership_def labelNode_def cordon_of_def)

lemma cordon_stored:
  assumes "node_of (replay c (hist s)) (nd_name node) = Some node" "cr' \<noteq> []"
  shows "\<exists>nd. node_of (replay c (hist (final_of (cordonNode p node cr') s))) (nd_name node) = Some nd \<and>
    cordon_of nd = (True, Some cr')"
proof (cases "nd_unsched node \<and> sget (nd_annos node) AnnoCordonedBy = cr'")
  case True
  then show ?thesis
    using assms by (auto simp: cordonNode_def CordonNode_def firmwareCordonOpts_def cordon_of_def
        dest: sget_nonempty)
next
  case False
  have quiet: "node_of (replay c (hist (s\<lparr>hist := hist s @ [CNow]\<rparr>))) (nd_name node) = Some node"
    using assms(1) by simp
  show ?thesis
    using False patch_stored(2) [OF assms(1)] patch_stored(2) [OF quiet]
    by (auto simp: cordonNode_def CordonNode_def firmwareCordonOpts_def Let_def now_def cordon_of_def)
qed

lemma uncordon_stored:
  assumes "node_of (replay c (hist s)) (nd_name node) = Some node" "sget (nd_annos node) AnnoCordonedBy = cr'"
  shows "\<exists>nd. node_of (replay c (hist (final_of (uncordonNode p node cr') s))) (nd_name node) = Some nd \<and>
    cordon_of nd = (False, None)"
  using assms patch_stored(2) [OF assms(1)]
  by (auto simp: uncordonNode_def UncordonNode_def firmwareCordonOpts_def cordon_of_def)

lemma state_phase:
  "reports ph ns \<Longrightarrow> ns_state ns = NodeStateCordoning \<Longrightarrow> ph = PhCordon"
  "reports ph ns \<Longrightarrow> ns_state ns = NodeStateUncordoning \<Longrightarrow> ph = PhUncordon"
  by (cases ph; simp add: reports_def)+

lemma advance_progress:
  assumes "node_of c n = Some nd" "node_of (replay c (hist s)) n = Some nd" "fp_name cr \<noteq> []"
    "reports (phase_of (operatorNamespace p) cr c nd) ns" "\<not> hands_off ns"
  shows "ns_state ns \<in> {NodeStateCordoning, NodeStateUncordoning} \<Longrightarrow>
      reached (operatorNamespace p) cr c (replay c (hist (final_of (advanceNode p cr nd ns) s))) n"
    "ns_state ns = NodeStatePending \<Longrightarrow>
      policy_job (operatorNamespace p) cr (replay c (hist (final_of (advanceNode p cr nd ns) s))) n \<noteq> None"
proof -
  have name: "nd_name nd = n" using assms(1) by (rule node_of_name)
  let ?t = "final_of (claimOwnership p nd (fp_name cr)) s"
  obtain cn where cn: "result_of (claimOwnership p nd (fp_name cr)) s = (None, cn)" "nd_name cn = n"
    "cordon_of cn = cordon_of nd" "node_of (replay c (hist ?t)) (nd_name cn) = Some cn"
    using claim_stored [of s nd "fp_name cr"] assms(2) name by auto
  have run: "final_of (advanceNode p cr nd ns) s = final_of (advance_state p cr cn ns) ?t"
    by (simp add: advanceNode_def cn(1))
  show "reached (operatorNamespace p) cr c (replay c (hist (final_of (advanceNode p cr nd ns) s))) n"
    if "ns_state ns \<in> {NodeStateCordoning, NodeStateUncordoning}"
  proof (cases "ns_state ns = NodeStateCordoning")
    case True
    then have "phase_of (operatorNamespace p) cr c nd = PhCordon" using assms(4) state_phase(1) by blast
    then show ?thesis
      using cordon_stored [OF cn(4) assms(3)] assms(1) True
      by (auto simp: reached_def run advance_state_def cn(2) split_beta)
  next
    case False
    with that have un: "ns_state ns = NodeStateUncordoning" by simp
    then have ph: "phase_of (operatorNamespace p) cr c nd = PhUncordon" using assms(4) state_phase(2) by blast
    then have "sget (nd_annos nd) AnnoCordonedBy = fp_name cr"
      by (auto simp: phase_of_def split: option.splits if_splits)
    then have "sget (nd_annos cn) AnnoCordonedBy = fp_name cr"
      using cn(3) by (simp add: cordon_of_def sget_def)
    from uncordon_stored [OF cn(4) this] show ?thesis
      using ph assms(1) un by (auto simp: reached_def run advance_state_def cn(2) split_beta)
  qed
  show "policy_job (operatorNamespace p) cr (replay c (hist (final_of (advanceNode p cr nd ns) s))) n \<noteq> None"
    if "ns_state ns = NodeStatePending"
    using spawn_stored [of cr cn ns ?t] that by (simp add: run advance_state_def cn(2))
qed

section \<open>Progress of the pass\<close>

lemma pass_progress:
  assumes "pass_ok (operatorNamespace p) {} cr c owned nss (hist s)" "fp_name cr \<noteq> []"
  shows "ns \<in> set nss \<Longrightarrow> ns_state ns \<in> {NodeStateCordoning, NodeStateUncordoning} \<Longrightarrow> \<not> hands_off ns \<Longrightarrow>
      reached (operatorNamespace p) cr c
        (replay c (hist (final_of (advance_pass p cr False capacity owned nss) s))) (ns_name ns)"
    and "0 < capacity \<Longrightarrow> \<exists>ns \<in> set nss. ns_state ns = NodeStatePending \<and> \<not> hands_off ns \<Longrightarrow>
      \<exists>ns \<in> set nss. ns_state ns = NodeStatePending \<and> \<not> hands_off ns \<and>
        policy_job (operatorNamespace p) cr
          (replay c (hist (final_of (advance_pass p cr False capacity owned nss) s))) (ns_name ns) \<noteq> None"
  using assms(1)
proof (induction capacity owned nss s rule: advance_pass_induct [where p = p and cr = cr])
  case (waits capacity owned x rest s)
  {
    case 1
    have "ns \<noteq> x"
      using 1 waits(1) by (auto simp: waits_def hands_off_def pass_ok_def)
    with 1 show ?case
      using waits(2) pass_ok_tail [OF 1(4)] by (simp add: advance_pass_waits [OF waits(1)] del: advance_pass.simps)
  next
    case 2
    have "\<not> (ns_state x = NodeStatePending \<and> \<not> hands_off x)"
      using 2(1,3) waits(1) by (auto simp: waits_def hands_off_def pass_ok_def)
    with 2 show ?case
      using waits(3) pass_ok_tail [OF 2(3)]
      by (simp add: advance_pass_waits [OF waits(1)] del: advance_pass.simps)
  }
next
  case (goes capacity owned x rest s node adv e node' x' t)
  have fin: "final_of (advance_pass p cr False capacity owned (x # rest)) s =
      final_of (advance_pass p cr False (spend capacity x adv x') (store_node owned (ns_name x) node') rest) t"
    using advance_pass_goes(1) [OF goes(1) _ _ refl, of p cr s adv e node' x' t rest] goes(2-4) by simp
  {
    case 1
    note round = pass_round [OF 1(4) goes(1-4)]
    have later: "issued (step_call (operatorNamespace p) {} cr c) t
        (final_of (advance_pass p cr False (spend capacity x adv x') (store_node owned (ns_name x) node') rest) t)"
      by (rule step_advance_pass [OF round(2)])
    show ?case
    proof (cases "ns = x")
      case True
      have "reached (operatorNamespace p) cr c (replay c (hist t)) (ns_name x)"
        unfolding goes(4) by (rule advance_progress(1) [OF round(3,4) assms(2) round(5) [simplified] round(6)]) (use 1(2) True in simp)
      then show ?thesis unfolding fin True by (rule reached_issued [OF later])
    next
      case False
      then show ?thesis unfolding fin using goes(5) [OF _ 1(2,3) round(2)] 1(1) by simp
    qed
  next
    case 2
    note round = pass_round [OF 2(3) goes(1-4)]
    have later: "issued (step_call (operatorNamespace p) {} cr c) t
        (final_of (advance_pass p cr False (spend capacity x adv x') (store_node owned (ns_name x) node') rest) t)"
      by (rule step_advance_pass [OF round(2)])
    show ?case
    proof (cases "ns_state x = NodeStatePending")
      case True
      have "policy_job (operatorNamespace p) cr (replay c (hist t)) (ns_name x) \<noteq> None"
        unfolding goes(4) by (rule advance_progress(2) [OF round(3,4) assms(2) round(5) [simplified] round(6) True])
      then have "policy_job (operatorNamespace p) cr (replay c (hist (final_of (advance_pass p cr False
          (spend capacity x adv x') (store_node owned (ns_name x) node') rest) t))) (ns_name x) \<noteq> None"
        by (rule job_issued [OF later])
      then show ?thesis unfolding fin using True round(6) by auto
    next
      case False
      then have "spend capacity x adv x' = capacity" by (simp add: spend_def)
      then show ?thesis unfolding fin using goes(6) [OF _ _ round(2)] 2(1,2) False by auto
    qed
  }
qed simp_all

section \<open>Progress of a reconcile\<close>

lemma observe_ready:
  assumes "replay c (hist s) = c" "phase_of (operatorNamespace p) cr c nd = PhReady"
  shows "ns_state (result_of (observeNode p cr nd) s) = NodeStatePending"
proof -
  have none: "policy_job (operatorNamespace p) cr c (nd_name nd) = None" by (rule phase_of_ready_cordon [OF assms(2)])
  have "\<exists>e. srv_get_job (pf_reads p) (hist s) (operatorNamespace p)
      (jobName cr (nd_name nd) (fs_version (fp_spec cr))) = Inl e \<and> ekind e = NotFound"
    using get_job_found [of "hist s"] get_job_failing [of "hist s"] none assms(1)
    by (cases "srv_get_job (pf_reads p) (hist s) (operatorNamespace p)
      (jobName cr (nd_name nd) (fs_version (fp_spec cr)))") (auto simp: policy_job_def, blast)
  then show ?thesis
    using assms none lists_pods
    by (auto simp: observeNode_cases Let_def phase_of_def held_def base_status_def observe_drain_def
        listDevicePodsOnNode_def ListDevicePodsOnNode_def list_pods_def select_pods_eq to_drain_def
        split: if_splits)
qed

lemma observe_all_live:
  assumes "replay c (hist s) = c"
  shows "list_all2 (\<lambda>nd x. ns_name x = nd_name nd \<and> reports (phase_of (operatorNamespace p) cr c nd) x \<and>
      (phase_of (operatorNamespace p) cr c nd = PhReady \<longrightarrow> ns_state x = NodeStatePending))
    nds (result_of (observe_all p cr nds) s)"
  using assms
proof (induction nds arbitrary: s)
  case (Cons nd nds)
  have "issued read_call s (final_of (observeNode p cr nd) s)"
    by (rule issued_keeps [OF issues_observeNode])
  from issued_replay [OF this] Cons observe_reports [OF Cons.prems, of cr nd] show ?case by (simp add: observe_ready)
qed simp

end

text \<open>The policy is to be rolled out, and the nodes are its own and wait for nothing.\<close>

definition rolling :: "fw_policy \<Rightarrow> bool" where
  "rolling cr \<longleftrightarrow> fp_name cr \<noteq> [] \<and> autoUpgrade cr \<and> \<not> fs_paused (fp_spec cr) \<and> 1 \<le> maxParallel cr"

definition calm :: "string \<Rightarrow> fw_policy \<Rightarrow> cluster \<Rightarrow> bool" where
  "calm opns cr c \<longleftrightarrow>
     (\<forall>nd \<in> set (cl_nodes c). phase_of opns cr c nd \<in> {PhCordon, PhReady, PhUncordon, PhDone})"

definition at_rest :: "string \<Rightarrow> fw_policy \<Rightarrow> cluster \<Rightarrow> bool" where
  "at_rest opns cr c \<longleftrightarrow> calm opns cr c \<and> in_flight opns cr c = 0"

definition all_matched :: "platform \<Rightarrow> fw_policy \<Rightarrow> node list \<Rightarrow> bool" where
  "all_matched p cr nds \<longleftrightarrow> (\<exists>sel. lib_selector (pf_lib p) (EffectiveNodeAffinity (fp_spec cr)) = Inr sel \<and>
     (\<forall>nd \<in> set nds. matches p sel nd \<and> sget (nd_labels nd) LabelOwnerCR \<in> {[], fp_name cr}))"

context reliable_server begin

text \<open>The reconcile runs its pass on all nodes, with the slots that no running Job takes.\<close>

lemma reconcile_passes:
  assumes "replay c (hist s) = c" "distinct (map nd_name (cl_nodes c))" "rolling cr"
    "calm (operatorNamespace p) cr c" "all_matched p cr (cl_nodes c)"
  obtains obs s' t where "replay c (hist s') = c"
    "pass_ok (operatorNamespace p) {} cr c (cl_nodes c) obs (hist s')"
    "list_all2 (\<lambda>nd x. ns_name x = nd_name nd \<and> reports (phase_of (operatorNamespace p) cr c nd) x \<and>
      (phase_of (operatorNamespace p) cr c nd = PhReady \<longrightarrow> ns_state x = NodeStatePending)) (cl_nodes c) obs"
    "t = final_of (advance_pass p cr False (maxParallel cr - int (in_flight (operatorNamespace p) cr c))
       (cl_nodes c) obs) s'"
    "issued (step_call (operatorNamespace p) {} cr c) t (final_of (reconcile_cr p cr) s)"
proof -
  obtain sel where sel: "lib_selector (pf_lib p) (EffectiveNodeAffinity (fp_spec cr)) = Inr sel"
    "\<forall>nd \<in> set (cl_nodes c). matches p sel nd" "\<forall>nd \<in> set (cl_nodes c). sget (nd_labels nd) LabelOwnerCR \<in> {[], fp_name cr}"
    using assms(5) by (auto simp: all_matched_def)
  have m: "result_of (matchedNodes p cr) s = Inr (cl_nodes c)"
    using sel(1,2) assms(1) by (simp add: matchedNodes_def list_nodes_def lists_nodes filter_matched_filter)
  have part: "partitionByOwnership (cl_nodes c) (fp_name cr) = (cl_nodes c, [])"
    using sel(3) by (auto simp: partition_filter filter_empty_conv)
  define s1 where "s1 = final_of (now p) (final_of (matchedNodes p cr) s)"
  define obs where "obs = result_of (observe_all p cr (cl_nodes c)) s1"
  define s2 where "s2 = final_of (observe_all p cr (cl_nodes c)) s1"
  define s3 where "s3 = final_of (jobsForCR p cr) s2"
  have reads: "issues read_call (matchedNodes p cr)" "issues read_call (now p)"
    "issues read_call (observe_all p cr nds)" "issues read_call (jobsForCR p cr)" for nds
    by (auto intro!: frame_rules issues_observe_all)
  note quiet = reads [THEN issued_keeps, THEN issued_replay]
  have q1: "replay c (hist s1) = c" by (simp add: s1_def quiet assms(1))
  then have q2: "replay c (hist s2) = c" by (simp add: s2_def quiet)
  then have q3: "replay c (hist s3) = c" by (simp add: s3_def quiet)
  have live: "list_all2 (\<lambda>nd x. ns_name x = nd_name nd \<and> reports (phase_of (operatorNamespace p) cr c nd) x \<and>
      (phase_of (operatorNamespace p) cr c nd = PhReady \<longrightarrow> ns_state x = NodeStatePending)) (cl_nodes c) obs"
    unfolding obs_def by (rule observe_all_live [OF q1])
  have ok: "pass_ok (operatorNamespace p) {} cr c (cl_nodes c) obs h" if "replay c h = c" for h
    using observed_pass_ok [of "cl_nodes c" "\<lambda>_. True" cr obs h "[]"] assms(2) that live
    by (simp add: list_all2_conv_all_nth)
  obtain js where js: "result_of (jobsForCR p cr) s2 = Inr js"
    using lists_jobs [of "hist s2" "operatorNamespace p" "[(JobLabelCR, fp_name cr)]"]
    by (auto simp: jobsForCR_def list_jobs_def)
  then have "js = filter (labelled (operatorNamespace p) cr) (cl_jobs c)"
    using list_jobs [of "hist s2" "operatorNamespace p" "[(JobLabelCR, fp_name cr)]" js] q2
    by (simp add: jobsForCR_def list_jobs_def labelled_def [abs_def])
  then have free: "countInFlightJobs js = in_flight (operatorNamespace p) cr c" by (simp add: in_flight_def)
  have "ns_state x \<noteq> NodeStateFailed" if "x \<in> set obs" for x
  proof -
    obtain i where i: "i < length obs" "x = obs ! i" using \<open>x \<in> set obs\<close> by (auto simp: in_set_conv_nth)
    then have "cl_nodes c ! i \<in> set (cl_nodes c)" "reports (phase_of (operatorNamespace p) cr c (cl_nodes c ! i)) x"
      using live by (auto simp: list_all2_conv_all_nth)
    then show ?thesis using assms(4) by (fastforce simp: calm_def reports_def)
  qed
  then have run: "\<not> halted cr obs" by (auto simp: halted_def list_ex_iff)
  let ?m = "metric (MSet FirmwareFlashJobsInFlight [fp_name cr] (int (countInFlightJobs js)))"
  define s4 where "s4 = final_of (recordFlashJobMetrics (fp_name cr) js) (final_of ?m s3)"
  have q4: "replay c (hist s4) = c" by (simp add: s4_def recordFlashJobMetrics_hist q3)
  let ?pass = "advance_pass p cr False (maxParallel cr - int (in_flight (operatorNamespace p) cr c)) (cl_nodes c) obs"
  have "final_of (reconcile_cr p cr) s = final_of (roll_out p cr (result_of (now p) (final_of (matchedNodes p cr) s))
      (cl_nodes c) obs js) s3"
    using js by (simp add: reconcile_cr_def m part Let_def obs_def s1_def s2_def s3_def)
  also have "\<dots> = final_of (after_pass p cr (result_of (now p) (final_of (matchedNodes p cr) s))
      (result_of (recordFlashJobMetrics (fp_name cr) js) (final_of ?m s3)) (halted cr obs) (result_of ?pass s4)) (final_of ?pass s4)"
    using assms(3) free run by (simp add: roll_out_after_pass s4_def rolling_def)
  finally have "issued (step_call (operatorNamespace p) {} cr c) (final_of ?pass s4) (final_of (reconcile_cr p cr) s)"
    by (simp only:) (rule issued_keeps [OF step_after_pass])
  then show thesis using that [OF q4 ok [OF q4] live refl] by blast
qed

lemma live_status:
  assumes "list_all2 (\<lambda>nd x. ns_name x = nd_name nd \<and> reports (phase_of opns cr c nd) x \<and>
      (phase_of opns cr c nd = PhReady \<longrightarrow> ns_state x = NodeStatePending)) (cl_nodes c) obs"
    "phase opns cr c n = Some ph" "distinct (map nd_name (cl_nodes c))"
  obtains x where "x \<in> set obs" "ns_name x = n" "reports ph x" "ph = PhReady \<Longrightarrow> ns_state x = NodeStatePending"
proof -
  obtain nd where nd: "node_of c n = Some nd" "phase_of opns cr c nd = ph" using assms(2) by (auto simp: phase_def)
  then obtain i where i: "i < length (cl_nodes c)" "cl_nodes c ! i = nd"
    using node_of_mem [OF nd(1)] by (auto simp: in_set_conv_nth)
  show thesis
    using that [of "obs ! i"] assms(1) i nd node_of_name [OF nd(1)] by (auto simp: list_all2_conv_all_nth)
qed

text \<open>Every cordon moves, and a ready node gets its Job.\<close>

lemma reconcile_progress:
  assumes "replay c (hist s) = c" "distinct (map nd_name (cl_nodes c))" "rolling cr"
    "calm (operatorNamespace p) cr c" "all_matched p cr (cl_nodes c)"
  shows "phase (operatorNamespace p) cr c n = Some ph \<Longrightarrow> ph \<in> {PhCordon, PhUncordon} \<Longrightarrow>
      reached (operatorNamespace p) cr c (replay c (hist (final_of (reconcile_cr p cr) s))) n"
    and "phase (operatorNamespace p) cr c n = Some PhReady \<Longrightarrow>
      int (in_flight (operatorNamespace p) cr c) < maxParallel cr \<Longrightarrow>
      \<exists>m. phase (operatorNamespace p) cr c m = Some PhReady \<and>
        policy_job (operatorNamespace p) cr (replay c (hist (final_of (reconcile_cr p cr) s))) m \<noteq> None"
proof -
  obtain obs s' t where q: "replay c (hist s') = c"
    and ok: "pass_ok (operatorNamespace p) {} cr c (cl_nodes c) obs (hist s')"
    and live: "list_all2 (\<lambda>nd x. ns_name x = nd_name nd \<and> reports (phase_of (operatorNamespace p) cr c nd) x \<and>
      (phase_of (operatorNamespace p) cr c nd = PhReady \<longrightarrow> ns_state x = NodeStatePending)) (cl_nodes c) obs"
    and t: "t = final_of (advance_pass p cr False (maxParallel cr - int (in_flight (operatorNamespace p) cr c))
       (cl_nodes c) obs) s'"
    and rest: "issued (step_call (operatorNamespace p) {} cr c) t (final_of (reconcile_cr p cr) s)"
    by (rule reconcile_passes [OF assms])
  have cr: "fp_name cr \<noteq> []" using assms(3) by (simp add: rolling_def)
  note pass = pass_progress [OF ok cr, where capacity = "maxParallel cr - int (in_flight (operatorNamespace p) cr c)",
      folded t]
  show "reached (operatorNamespace p) cr c (replay c (hist (final_of (reconcile_cr p cr) s))) n"
    if ph: "phase (operatorNamespace p) cr c n = Some ph" "ph \<in> {PhCordon, PhUncordon}"
  proof -
    obtain x where x: "x \<in> set obs" "ns_name x = n" "reports ph x"
      by (rule live_status [OF live ph(1) assms(2)])
    then have st: "ns_state x \<in> {NodeStateCordoning, NodeStateUncordoning}" using ph(2) by (auto simp: reports_def)
    have "\<not> hands_off x" using x(3) ph(2) by (auto simp: reports_def)
    from reached_issued [OF rest pass(1) [OF x(1) st this]] show ?thesis by (simp add: x(2))
  qed
  show "\<exists>m. phase (operatorNamespace p) cr c m = Some PhReady \<and>
      policy_job (operatorNamespace p) cr (replay c (hist (final_of (reconcile_cr p cr) s))) m \<noteq> None"
    if ph: "phase (operatorNamespace p) cr c n = Some PhReady"
      and slot: "int (in_flight (operatorNamespace p) cr c) < maxParallel cr"
  proof -
    obtain x where x: "x \<in> set obs" "ns_name x = n" "reports PhReady x" "ns_state x = NodeStatePending"
      by (rule live_status [OF live ph assms(2)]) simp
    then have "\<exists>x \<in> set obs. ns_state x = NodeStatePending \<and> \<not> hands_off x" by (auto simp: reports_def)
    from pass(2) [OF _ this] slot obtain y where y: "y \<in> set obs" "ns_state y = NodeStatePending" "\<not> hands_off y"
      "policy_job (operatorNamespace p) cr (replay c (hist t)) (ns_name y) \<noteq> None" by auto
    obtain nd where nd: "node_of c (ns_name y) = Some nd" "reports (phase_of (operatorNamespace p) cr c nd) y"
      using ok y(1,3) by (auto simp: pass_ok_def)
    then have "phase_of (operatorNamespace p) cr c nd = PhReady"
      using y(2,3) by (cases "phase_of (operatorNamespace p) cr c nd") (auto simp: reports_def)
    with nd(1) have "phase (operatorNamespace p) cr c (ns_name y) = Some PhReady" by (simp add: phase_def)
    with job_issued [OF rest y(4)] show ?thesis by blast
  qed
qed

end

end
