(* ===== verification/RollOutDone.thy ===== *)
theory RollOutDone
  imports RollOutLive
begin

text \<open>
  A roll-out comes to its end. A round is one reconcile on a server that does not fail, after which the
  device pods have left the nodes held by the policy and the Jobs have ended successfully; the rank of
  the cluster falls with every round until all nodes are done.
\<close>

section \<open>Rounds\<close>

text \<open>Nodes that the policy matches, whatever it writes to its own labels, and that no other policy owns.\<close>

definition claimable :: "fw_policy \<Rightarrow> (labels \<Rightarrow> bool) \<Rightarrow> node \<Rightarrow> bool" where
  "claimable cr sel nd \<longleftrightarrow> (\<forall>l. (\<forall>k. k \<notin> firmware_labels \<longrightarrow> l k = nd_labels nd k) \<longrightarrow> sel l) \<and>
     sget (nd_labels nd) LabelSkip \<noteq> ''true'' \<and> sget (nd_labels nd) LabelTenstorrentPresent = ''true'' \<and>
     sget (nd_labels nd) LabelOwnerCR \<in> {[], fp_name cr}"

definition job_settles :: "job \<Rightarrow> job \<Rightarrow> bool" where
  "job_settles j j' \<longleftrightarrow> job_key j' = job_key j \<and>
     jobFinished j' = (if fst (jobFinished j) then jobFinished j else (True, True))"

definition settles :: "string \<Rightarrow> fw_policy \<Rightarrow> cluster \<Rightarrow> cluster \<Rightarrow> bool" where
  "settles opns cr c c' \<longleftrightarrow> cl_nodes c' = cl_nodes c \<and> list_all2 job_settles (cl_jobs c) (cl_jobs c') \<and>
     (\<forall>nd \<in> set (cl_nodes c). held cr nd \<longrightarrow> to_drain opns cr (cl_pods c') (nd_name nd) = [])"

definition fair_round :: "string \<Rightarrow> fw_policy \<Rightarrow> (labels \<Rightarrow> bool) \<Rightarrow> cluster \<Rightarrow> cluster \<Rightarrow> bool" where
  "fair_round opns cr sel c c' \<longleftrightarrow> (\<exists>p s cr'. reliable_server p c \<and> operatorNamespace p = opns \<and> hist s = [] \<and>
     srv_get_fw (pf_reads p) [] (fp_name cr) = Inr cr' \<and> same_policy cr cr' \<and> fp_deleted cr' = None \<and>
     lib_selector (pf_lib p) (EffectiveNodeAffinity (fp_spec cr)) = Inr sel \<and>
     settles opns cr (replay c (hist (final_of (FirmwareReconcile p (fp_name cr)) s))) c')"

section \<open>The labels\<close>

text \<open>Of the labels, a reconcile writes only its own, and claims a node only for its policy.\<close>

fun label_call :: "fw_policy \<Rightarrow> call \<Rightarrow> bool" where
  "label_call cr (CPatchNode base new e) =
     ((\<forall>k. k \<notin> firmware_labels \<longrightarrow> nd_labels new k = nd_labels base k) \<and>
      nd_labels new LabelOwnerCR \<in> {nd_labels base LabelOwnerCR, Some (fp_name cr)})"
| "label_call cr _ = True"

lemma owner_labels [simp]: "LabelOwnerCR \<noteq> LabelUpgradeState" "LabelOwnerCR \<noteq> LabelFWVersion"
  "LabelSkip \<notin> firmware_labels" "LabelTenstorrentPresent \<notin> firmware_labels"
  by (simp_all add: const_defs firmware_labels_def)

lemma label_read: "read_call x \<Longrightarrow> label_call cr x"
  by (cases x) simp_all

lemma label_reconcile: "issues (label_call cr) (reconcile_cr p cr)"
proof -
  have claim: "issues (label_call cr) (claimOwnership p node (fp_name cr))" for node
    unfolding claimOwnership_def labelNode_def
    by (intro frame_rules) (auto simp: firmware_labels_def)
  have advance: "issues (label_call cr) (advanceNode p cr node ns)" for node ns
    unfolding advanceNode_def
    by (intro frame_rules claim issues_advance_state)
      (auto simp: node_patch_def cordon_patch_def uncordon_patch_def firmware_labels_def)
  have roll: "issues (label_call cr) (roll_out p cr t owned nss jobs)" for t owned nss jobs
    unfolding roll_out_def Let_def
    by (intro frame_rules issues_advance_pass advance issues_summarize issues_finish_reconcile)
      (auto simp: publish_patch_def node_patch_def firmware_labels_def)
  show ?thesis
    unfolding reconcile_cr_def Let_def
    by (intro frame_rules issues_observe_all roll label_read) simp_all
qed

lemma claimable_merge:
  assumes "label_call cr (CPatchNode base new e)" "claimable cr sel nd"
  shows "claimable cr sel (merge_node base new nd)"
proof -
  have same: "nd_labels (merge_node base new nd) k = nd_labels nd k" if "k \<notin> firmware_labels" for k
    using assms(1) that by (simp add: merge_node_def merge_map_def)
  have "sget (nd_labels (merge_node base new nd)) k = sget (nd_labels nd) k" if "k \<notin> firmware_labels" for k
    using same [OF that] by (simp add: sget_def)
  moreover have "nd_labels (merge_node base new nd) LabelOwnerCR \<in> {nd_labels nd LabelOwnerCR, Some (fp_name cr)}"
    using assms(1) by (auto simp: merge_node_def merge_map_def)
  ultimately show ?thesis
    using assms(2) same by (auto simp: claimable_def) (auto simp: sget_def)
qed

lemma claimable_replay:
  assumes "list_all (label_call cr) h" "\<forall>nd \<in> set (cl_nodes c). claimable cr sel nd"
  shows "\<forall>nd \<in> set (cl_nodes (replay c h)). claimable cr sel nd"
  using assms
proof (induction h arbitrary: c)
  case (Cons x h)
  have "\<forall>nd \<in> set (cl_nodes (apply_call x c)). claimable cr sel nd"
    using Cons.prems
    by (induction x c rule: apply_call.induct) (auto simp del: label_call.simps intro: claimable_merge)
  with Cons show ?case by simp
qed simp

lemma claimable_matched:
  assumes "lib_selector (pf_lib p) (EffectiveNodeAffinity (fp_spec cr)) = Inr sel"
    "\<forall>nd \<in> set nds. claimable cr sel nd"
  shows "all_matched p cr nds"
  using assms by (auto simp: all_matched_def claimable_def matches_def)

section \<open>What settling does\<close>

lemma find_job_settles:
  assumes "list_all2 job_settles (cl_jobs c) (cl_jobs c')"
  shows "rel_option job_settles (find_job c ns n) (find_job c' ns n)"
proof -
  have "rel_option job_settles (find (\<lambda>j. jb_ns j = ns \<and> jb_name j = n) js) (find (\<lambda>j. jb_ns j = ns \<and> jb_name j = n) js')"
    if "list_all2 job_settles js js'" for js js'
    using that by (induction rule: list_all2_induct) (auto simp: job_settles_def job_key_def)
  with assms show ?thesis by (simp add: find_job_def)
qed

lemma settled_in_flight: "settles opns cr c c' \<Longrightarrow> in_flight opns cr c' = 0"
proof -
  have "fst (jobFinished j')" if "list_all2 job_settles js js'" "j' \<in> set js'" for js js' j'
    using that by (induction rule: list_all2_induct) (auto simp: job_settles_def)
  then show "settles opns cr c c' \<Longrightarrow> in_flight opns cr c' = 0"
    by (auto simp: settles_def in_flight_def count_in_flight filter_empty_conv)
qed

lemma settle_phase:
  assumes "settles opns cr c c'" "phase opns cr c n = Some ph"
  shows "\<exists>ph'. phase opns cr c' n = Some ph' \<and> (ph = PhDrain \<longrightarrow> ph' = PhReady) \<and>
    (ph = PhFlash \<longrightarrow> ph' \<in> {PhUncordon, PhDone}) \<and> (ph \<notin> {PhDrain, PhFlash} \<longrightarrow> ph' = ph)"
proof -
  obtain nd where nd: "node_of c n = Some nd" "phase_of opns cr c nd = ph" using assms(2) by (auto simp: phase_def)
  have name: "nd_name nd = n" by (rule node_of_name [OF nd(1)])
  have nd': "node_of c' n = Some nd" using nd(1) assms(1) by (simp add: settles_def node_of_def)
  have drained: "to_drain opns cr (cl_pods c') n = []" if "held cr nd"
    using assms(1) node_of_mem [OF nd(1)] name that by (auto simp: settles_def)
  have rel: "rel_option job_settles (policy_job opns cr c n) (policy_job opns cr c' n)"
    using assms(1) by (simp add: settles_def policy_job_def find_job_settles)
  show ?thesis
  proof (cases "policy_job opns cr c n")
    case None
    then have "policy_job opns cr c' n = None" using rel by simp
    then show ?thesis
      using None nd nd' name drained by (auto simp: phase_def phase_of_def split: if_splits)
  next
    case (Some j)
    then obtain j' where j': "policy_job opns cr c' n = Some j'" "job_settles j j'" using rel by (cases "policy_job opns cr c' n") auto
    then show ?thesis
      using Some nd nd' name by (cases "jobFinished j") (auto simp: phase_def phase_of_def job_settles_def)
  qed
qed

section \<open>One round\<close>

fun weight :: "flash_phase \<Rightarrow> nat" where
  "weight PhCordon = 3"
| "weight PhReady = 2"
| "weight PhUncordon = 1"
| "weight _ = 0"

definition rank :: "string \<Rightarrow> fw_policy \<Rightarrow> cluster \<Rightarrow> nat" where
  "rank opns cr c = sum_list (map (\<lambda>n. weight (the (phase opns cr c n))) (map nd_name (cl_nodes c)))"

lemma sum_list_less:
  fixes f g :: "'a \<Rightarrow> nat"
  assumes "\<And>x. x \<in> set xs \<Longrightarrow> f x \<le> g x" "\<exists>x \<in> set xs. f x < g x"
  shows "sum_list (map f xs) < sum_list (map g xs)"
  using assms
proof (induction xs)
  case (Cons x xs)
  have le: "sum_list (map f xs) \<le> sum_list (map g xs)" by (rule sum_list_mono) (use Cons in simp)
  show ?case
  proof (cases "f x < g x")
    case True
    then show ?thesis using le by simp
  next
    case False
    then have "sum_list (map f xs) < sum_list (map g xs)" "f x \<le> g x" using Cons by auto
    then show ?thesis by simp
  qed
qed simp

definition ready_cluster :: "string \<Rightarrow> fw_policy \<Rightarrow> (labels \<Rightarrow> bool) \<Rightarrow> string set \<Rightarrow> cluster \<Rightarrow> bool" where
  "ready_cluster opns cr sel N c \<longleftrightarrow> at_rest opns cr c \<and> distinct (map nd_name (cl_nodes c)) \<and>
     nd_name ` set (cl_nodes c) \<subseteq> N \<and> (\<forall>nd \<in> set (cl_nodes c). claimable cr sel nd)"

lemma rolling_same: "same_policy cr cr' \<Longrightarrow> rolling cr' = rolling cr"
  by (simp add: rolling_def autoUpgrade_def same_policy_def maxParallel_def)

lemma reached_phase:
  assumes "reached opns cr c c' n" "phase opns cr c n = Some ph" "fp_name cr \<noteq> []"
  shows "phase opns cr c' n \<noteq> Some ph"
proof
  assume same: "phase opns cr c' n = Some ph"
  obtain nd cur where n: "node_of c n = Some nd" "node_of c' n = Some cur"
    "cordon_move cr (phase_of opns cr c nd) (cordon_of cur)"
    using assms(1) by (auto simp: reached_def)
  have ph: "phase_of opns cr c nd = ph" "phase_of opns cr c' cur = ph" using assms(2) same n by (auto simp: phase_def)
  then consider "ph = PhCordon" "nd_unsched cur"
    | "ph = PhUncordon" "nd_annos cur AnnoCordonedBy = None"
    using n(3) by (cases ph) (auto simp: cordon_of_def)
  then show False
    by cases (use ph(2) assms(3) in \<open>auto simp: phase_of_def sget_def split: option.splits if_splits\<close>)
qed

text \<open>What one reconcile does to a cluster at rest.\<close>

lemma round_reconcile:
  assumes "ready_cluster opns cr sel N c" "rolling cr" "inj_on (\<lambda>n. jobName cr n (fs_version (fp_spec cr))) N"
    "reliable_server p c" "operatorNamespace p = opns" "hist s = []"
    "srv_get_fw (pf_reads p) [] (fp_name cr) = Inr cr'" "same_policy cr cr'" "fp_deleted cr' = None"
    "lib_selector (pf_lib p) (EffectiveNodeAffinity (fp_spec cr)) = Inr sel"
    "c1 = replay c (hist (final_of (FirmwareReconcile p (fp_name cr)) s))"
  shows "\<And>n ph. phase opns cr c n = Some ph \<Longrightarrow> \<exists>ph'. phase opns cr c1 n = Some ph' \<and> phase_moves ph ph' \<and>
      (ph \<in> {PhCordon, PhUncordon} \<longrightarrow> ph' \<noteq> ph)"
    and "\<And>n. phase opns cr c n = Some PhReady \<Longrightarrow>
      \<exists>m. phase opns cr c m = Some PhReady \<and> phase opns cr c1 m = Some PhFlash"
    and "map nd_name (cl_nodes c1) = map nd_name (cl_nodes c)"
    and "\<forall>nd \<in> set (cl_nodes c1). claimable cr sel nd"
proof -
  let ?s = "s\<lparr>hist := [CGetFw (fp_name cr)]\<rparr>"
  have fin: "final_of (FirmwareReconcile p (fp_name cr)) s = final_of (reconcile_cr p cr') ?s"
    using assms(6,7,9) by (simp add: FirmwareReconcile_def get_fw_def)
  have q: "replay c (hist ?s) = c" by simp
  have dist: "distinct (map nd_name (cl_nodes c))" using assms(1) by (simp add: ready_cluster_def)
  note same = same_policy_phase [OF assms(8)]
  have spec: "fp_name cr' = fp_name cr" "fp_spec cr' = fp_spec cr" using assms(8) by (simp_all add: same_policy_def)
  have roll: "rolling cr'" using assms(2,8) by (simp add: rolling_same)
  have rest: "calm (operatorNamespace p) cr' c"
    using assms(1,5) by (simp add: ready_cluster_def at_rest_def calm_def same)
  have slot: "int (in_flight (operatorNamespace p) cr' c) < maxParallel cr'"
    using assms(1,5) labelled_same [OF assms(8)] roll
    by (simp add: ready_cluster_def at_rest_def in_flight_def rolling_def)
  have matched: "all_matched p cr' (cl_nodes c)"
    using claimable_matched [OF assms(10)] assms(1) by (simp add: ready_cluster_def all_matched_def spec)
  have api: "api_server p c {}" using assms(4) by (rule reliable_server.axioms)
  have dj: "distinct_jobs cr' c"
    using assms(1,3) by (auto simp: same ready_cluster_def distinct_jobs_def intro: inj_on_subset)
  note progress = reliable_server.reconcile_progress [OF assms(4) q dist roll rest matched, folded fin assms(11)]
  have name: "fp_name cr' \<noteq> []" using roll by (simp add: rolling_def)
  have moves: "\<exists>ph'. phase opns cr c1 n = Some ph' \<and> phase_moves ph ph'" if "phase opns cr c n = Some ph" for n ph
  proof -
    obtain h where h: "hist (final_of (reconcile_cr p cr') ?s) = hist ?s @ h"
      "list_all (step_call (operatorNamespace p) {} cr' c) h"
      using api_server.step_reconcile [OF api q dist, of cr'] by (auto simp: issued_def)
    from replay_phase [OF h(2) dj name] that show ?thesis
      by (simp add: assms(11) fin h(1) same assms(5) q [simplified])
  qed
  show "\<exists>ph'. phase opns cr c1 n = Some ph' \<and> phase_moves ph ph' \<and> (ph \<in> {PhCordon, PhUncordon} \<longrightarrow> ph' \<noteq> ph)"
    if "phase opns cr c n = Some ph" for n ph
    using moves [OF that] progress(1) [of n ph] that reached_phase [of "operatorNamespace p" cr' c c1 n ph] name
    by (auto simp: same assms(5))
  show "\<exists>m. phase opns cr c m = Some PhReady \<and> phase opns cr c1 m = Some PhFlash"
    if "phase opns cr c n = Some PhReady" for n
  proof -
    obtain m where m: "phase opns cr c m = Some PhReady" "policy_job opns cr c1 m \<noteq> None"
      using progress(2) [of n] slot \<open>phase opns cr c n = Some PhReady\<close> by (auto simp: same assms(5))
    then obtain ph' where ph': "phase opns cr c1 m = Some ph'" "phase_moves PhReady ph'" using moves by blast
    obtain nd where "node_of c1 m = Some nd" "phase_of opns cr c1 nd = ph'" "nd_name nd = m"
      using ph'(1) node_of_name by (auto simp: phase_def)
    then have "ph' \<noteq> PhReady" using m(2) phase_of_ready_cordon [of opns cr c1 nd] by auto
    with ph' m show ?thesis by (auto simp: phase_step_simps)
  qed
  show "map nd_name (cl_nodes c1) = map nd_name (cl_nodes c)" by (simp add: assms(11))
  obtain h where h: "hist (final_of (reconcile_cr p cr') ?s) = hist ?s @ h" "list_all (label_call cr') h"
    using issuesD [OF label_reconcile] by blast
  have "label_call cr' = label_call cr"
  proof
    show "label_call cr' x = label_call cr x" for x by (cases x) (simp_all add: spec)
  qed
  then show "\<forall>nd \<in> set (cl_nodes c1). claimable cr sel nd"
    using claimable_replay [of cr h c sel] h assms(1) by (simp add: assms(11) fin ready_cluster_def)
qed

text \<open>A round: a cluster at rest is at rest again, and its rank has fallen unless it was done.\<close>

lemma fair_round_rank:
  assumes "fair_round opns cr sel c c'" "ready_cluster opns cr sel N c" "rolling cr"
    "inj_on (\<lambda>n. jobName cr n (fs_version (fp_spec cr))) N"
  shows "ready_cluster opns cr sel N c'" "rank opns cr c' < rank opns cr c \<or> rank opns cr c' = 0"
    "map nd_name (cl_nodes c') = map nd_name (cl_nodes c)"
proof -
  obtain p s cr' c1 where r: "reliable_server p c" "operatorNamespace p = opns" "hist s = []"
    "srv_get_fw (pf_reads p) [] (fp_name cr) = Inr cr'" "same_policy cr cr'" "fp_deleted cr' = None"
    "lib_selector (pf_lib p) (EffectiveNodeAffinity (fp_spec cr)) = Inr sel"
    "c1 = replay c (hist (final_of (FirmwareReconcile p (fp_name cr)) s))" "settles opns cr c1 c'"
    using assms(1) unfolding fair_round_def by blast
  note step = round_reconcile [OF assms(2-4) r(1-8)]
  have nodes: "cl_nodes c' = cl_nodes c1" using r(9) by (simp add: settles_def)
  show names: "map nd_name (cl_nodes c') = map nd_name (cl_nodes c)" using nodes step(3) by simp
  have set_names: "nd_name ` set (cl_nodes c') = nd_name ` set (cl_nodes c)" using names by (metis image_set)
  have evolve: "\<exists>ph'. phase opns cr c' n = Some ph' \<and> ph' \<in> {PhCordon, PhReady, PhUncordon, PhDone} \<and>
      weight ph' \<le> weight ph \<and> (ph \<in> {PhCordon, PhUncordon} \<longrightarrow> weight ph' < weight ph) \<and>
      (phase opns cr c1 n = Some PhFlash \<longrightarrow> ph = PhReady \<longrightarrow> weight ph' < weight ph)"
    if "phase opns cr c n = Some ph" for n ph
  proof -
    obtain nd where "node_of c n = Some nd" "phase_of opns cr c nd = ph" using \<open>phase opns cr c n = Some ph\<close> by (auto simp: phase_def)
    then have ph: "ph \<in> {PhCordon, PhReady, PhUncordon, PhDone}"
      using assms(2) node_of_mem by (auto simp: ready_cluster_def at_rest_def calm_def)
    obtain ph1 where ph1: "phase opns cr c1 n = Some ph1" "phase_moves ph ph1" "ph \<in> {PhCordon, PhUncordon} \<longrightarrow> ph1 \<noteq> ph"
      using step(1) [OF \<open>phase opns cr c n = Some ph\<close>] by blast
    obtain ph' where "phase opns cr c' n = Some ph'" "ph1 = PhDrain \<longrightarrow> ph' = PhReady"
      "ph1 = PhFlash \<longrightarrow> ph' \<in> {PhUncordon, PhDone}" "ph1 \<notin> {PhDrain, PhFlash} \<longrightarrow> ph' = ph1"
      using settle_phase [OF r(9) ph1(1)] by blast
    with ph ph1 show ?thesis by (auto simp: phase_step_simps)
  qed
  have known: "\<exists>ph. phase opns cr c n = Some ph" if "n \<in> nd_name ` set (cl_nodes c)" for n
    using node_of_exists [OF that] by (auto simp: phase_def)
  show "ready_cluster opns cr sel N c'"
  proof -
    have dist: "distinct (map nd_name (cl_nodes c'))" using assms(2) by (simp add: ready_cluster_def names)
    have "phase_of opns cr c' nd \<in> {PhCordon, PhReady, PhUncordon, PhDone}" if "nd \<in> set (cl_nodes c')" for nd
    proof -
      have "nd_name nd \<in> nd_name ` set (cl_nodes c)" using \<open>nd \<in> set (cl_nodes c')\<close> set_names by blast
      from known [OF this] evolve have "\<exists>ph'. phase opns cr c' (nd_name nd) = Some ph' \<and>
        ph' \<in> {PhCordon, PhReady, PhUncordon, PhDone}" by blast
      then show ?thesis using node_of_distinct [OF dist \<open>nd \<in> set (cl_nodes c')\<close>] by (auto simp: phase_def)
    qed
    then show ?thesis
      using assms(2) dist step(4) settled_in_flight [OF r(9)] set_names
      by (simp add: ready_cluster_def at_rest_def calm_def nodes)
  qed
  have le: "weight (the (phase opns cr c' n)) \<le> weight (the (phase opns cr c n))"
    if "n \<in> set (map nd_name (cl_nodes c))" for n
  proof -
    have "n \<in> nd_name ` set (cl_nodes c)" using that by simp
    from known [OF this] obtain ph where ph: "phase opns cr c n = Some ph" by blast
    from evolve [OF ph] ph show ?thesis by auto
  qed
  show "rank opns cr c' < rank opns cr c \<or> rank opns cr c' = 0"
  proof (cases "rank opns cr c = 0")
    case True
    moreover have "rank opns cr c' \<le> rank opns cr c" unfolding rank_def names by (rule sum_list_mono) (rule le)
    ultimately show ?thesis by simp
  next
    case False
    then obtain n where n: "n \<in> nd_name ` set (cl_nodes c)" "weight (the (phase opns cr c n)) \<noteq> 0"
      by (auto simp: rank_def)
    obtain ph where ph: "phase opns cr c n = Some ph" using known [OF n(1)] by blast
    then have ph: "phase opns cr c n = Some ph" "weight ph \<noteq> 0" using n(2) by simp_all
    have "\<exists>m \<in> set (map nd_name (cl_nodes c)). weight (the (phase opns cr c' m)) < weight (the (phase opns cr c m))"
    proof (cases "ph = PhReady")
      case True
      then obtain m where m: "phase opns cr c m = Some PhReady" "phase opns cr c1 m = Some PhFlash"
        using step(2) ph(1) by blast
      from evolve [OF m(1)] m phase_node [OF m(1)] show ?thesis by (intro bexI [of _ m]) auto
    next
      case False
      then have "ph \<in> {PhCordon, PhUncordon}" using ph(2) by (cases ph) simp_all
      with evolve [OF ph(1)] ph(1) n(1) show ?thesis by (intro bexI [of _ n]) auto
    qed
    then show ?thesis unfolding rank_def names by (intro disjI1 sum_list_less le)
  qed
qed

section \<open>The end of a roll-out\<close>

lemma rounds_rank:
  assumes "(fair_round opns cr sel ^^ k) c c'" "ready_cluster opns cr sel N c" "rolling cr"
    "inj_on (\<lambda>n. jobName cr n (fs_version (fp_spec cr))) N"
  shows "ready_cluster opns cr sel N c' \<and> rank opns cr c' \<le> rank opns cr c - k"
  using assms(1)
proof (induction k arbitrary: c')
  case (Suc k)
  then obtain c1 where c1: "(fair_round opns cr sel ^^ k) c c1" "fair_round opns cr sel c1 c'" by auto
  from Suc.IH [OF c1(1)] fair_round_rank [OF c1(2) _ assms(3,4)] show ?case by fastforce
qed (use assms(2) in simp)

lemma rank_bound: "rank opns cr c \<le> 3 * length (cl_nodes c)"
proof -
  have "weight ph \<le> 3" for ph by (cases ph) simp_all
  then have "sum_list (map (\<lambda>n. weight (the (phase opns cr c n))) ns) \<le> 3 * length ns" for ns
    by (induction ns) (simp_all add: add_le_mono)
  from this [of "map nd_name (cl_nodes c)"] show ?thesis by (simp add: rank_def)
qed

text \<open>C4: A roll-out ends. If a firmware policy is not paused and lets at least one node flash at a time, and
  every node of the cluster is its own and to be cordoned, ready, to be uncordoned or done, then after
  three rounds per node all nodes are done, whatever \<open>maxParallel\<close> is: in a round the policy is
  reconciled once on a server that does not fail, the device pods leave the nodes it holds, and the
  Jobs end successfully.\<close>

theorem rollout_completes:
  assumes "(fair_round opns cr sel ^^ k) c c'" "3 * length (cl_nodes c) \<le> k"
    "rolling cr" "at_rest opns cr c" "distinct (map nd_name (cl_nodes c))"
    "inj_on (\<lambda>n. jobName cr n (fs_version (fp_spec cr))) (nd_name ` set (cl_nodes c))"
    "\<forall>nd \<in> set (cl_nodes c). claimable cr sel nd"
  shows "\<forall>nd \<in> set (cl_nodes c'). phase_of opns cr c' nd = PhDone"
proof
  fix nd
  assume nd: "nd \<in> set (cl_nodes c')"
  have "ready_cluster opns cr sel (nd_name ` set (cl_nodes c)) c" using assms(4,5,7) by (simp add: ready_cluster_def)
  from rounds_rank [OF assms(1) this assms(3,6)]
  have ready: "ready_cluster opns cr sel (nd_name ` set (cl_nodes c)) c'" and "rank opns cr c' = 0"
    using rank_bound [of opns cr c] assms(2) by auto
  then have "weight (the (phase opns cr c' (nd_name nd))) = 0" using nd by (auto simp: rank_def)
  then show "phase_of opns cr c' nd = PhDone"
    using ready nd node_of_distinct [of c' nd] by (auto simp: ready_cluster_def at_rest_def calm_def phase_def)
qed

end
