(* ===== verification/RollOutCases.thy ===== *)
theory RollOutCases
  imports RollOutDone
begin

text \<open>
  The roll-out on concrete clusters of one node, and what happens to it when the version of the policy
  changes while a node is being flashed.
\<close>

section \<open>A change of version during a flash\<close>

text \<open>C35: The name of the flash Job contains the version, and only the Job of the current version is looked
  up. If the version of a policy changes while the Job of the old one still runs on a cordoned and
  drained node, the next reconcile sees that node as ready and, with a free slot left by
  \<open>maxParallel\<close>, starts a second Job on it: two flashes of one device run at the same time.\<close>

theorem version_change_flashes_twice:
  assumes "reliable_server p c" "replay c (hist s) = c" "rolling cr" "all_matched p cr (cl_nodes c)"
    "cl_nodes c = [nd]" "phase_of (operatorNamespace p) cr c nd = PhReady"
    "j \<in> set (cl_jobs c)" "\<not> fst (jobFinished j)" "jb_labels j JobLabelNode = Some (nd_name nd)"
    "int (in_flight (operatorNamespace p) cr c) < maxParallel cr"
    "c' = replay c (hist (final_of (reconcile_cr p cr) s))"
  shows "\<exists>j'. j \<in> set (cl_jobs c') \<and> j' \<in> set (cl_jobs c') \<and>
    jb_name j' = jobName cr (nd_name nd) (fs_version (fp_spec cr)) \<and> j' \<notin> set (cl_jobs c) \<and>
    \<not> fst (jobFinished j') \<and> jb_labels j' JobLabelNode = Some (nd_name nd)"
proof -
  let ?o = "operatorNamespace p"
  have api: "api_server p c {}" using assms(1) by (rule reliable_server.axioms)
  have ph: "phase ?o cr c n = Some q \<longleftrightarrow> n = nd_name nd \<and> q = PhReady" for n q
    using assms(5,6) by (auto simp: phase_def node_of_def)
  have calm: "calm ?o cr c" using assms(5,6) by (simp add: calm_def)
  have dist: "distinct (map nd_name (cl_nodes c))" using assms(5) by simp
  have "policy_job ?o cr c' (nd_name nd) \<noteq> None"
    using reliable_server.reconcile_progress(2) [OF assms(1,2) dist assms(3) calm assms(4) _ assms(10), of "nd_name nd"]
    unfolding assms(11) by (auto simp: ph)
  moreover obtain h where h: "hist (final_of (reconcile_cr p cr) s) = hist s @ h" "list_all (step_call ?o {} cr c) h"
    using api_server.step_reconcile [OF api assms(2) dist, of cr] by (auto simp: issued_def)
  moreover have c': "c' = replay c h" by (simp add: assms(11) h(1) assms(2))
  moreover have none: "policy_job ?o cr c (nd_name nd) = None" by (rule phase_of_ready_cordon [OF assms(6)])
  ultimately obtain j' where j': "policy_job ?o cr c' (nd_name nd) = Some j'" "flash_job ?o cr (nd_name nd) j'"
    using replay_policy_job [OF h(2), of "nd_name nd"] assms(5) by (auto simp: distinct_jobs_def)
  have "j' \<in> set (cl_jobs c')" "jb_ns j' = ?o" "jb_name j' = jobName cr (nd_name nd) (fs_version (fp_spec cr))"
    using j'(1) by (auto simp: policy_job_def find_job_def find_Some_iff)
  moreover from this none have "j' \<notin> set (cl_jobs c)" by (auto simp: policy_job_def find_job_def find_None_iff)
  moreover have "j \<in> set (cl_jobs c')" using replay_jobs [OF h(2)] assms(7) c' by auto
  ultimately show ?thesis using flash_job_facts [OF j'(2)] by auto
qed

section \<open>A cluster of one node\<close>

definition fresh_cluster :: "node \<Rightarrow> cluster" where
  "fresh_cluster nd = \<lparr>cl_nodes = [nd], cl_pods = [], cl_jobs = []\<rparr>"

definition held_node :: node where
  "held_node = (plain_node ''n1'')\<lparr>nd_unsched := True, nd_annos := [AnnoCordonedBy \<mapsto> ''fw'']\<rparr>"

definition live_server :: "fw_policy \<Rightarrow> cluster \<Rightarrow> platform" where
  "live_server cr c = mem_server ((testbed [] [] [] [])\<lparr>pf_reads :=
     (pf_reads (testbed [] [] [] []))\<lparr>srv_get_fw := \<lambda>h n. Inr cr\<rparr>\<rparr>) c"

abbreviation default_ns :: string where
  "default_ns \<equiv> ''tt-k8s-driver-manager-system''"

lemma live_server_reliable: "reliable_server (live_server cr c) c"
  unfolding live_server_def by (rule mem.reliable_server_axioms)

lemma live_server_fields [simp]:
  "operatorNamespace (live_server cr c) = default_ns" "requireTenstorrentLabel (live_server cr c)"
  "srv_get_fw (pf_reads (live_server cr c)) h n = Inr cr"
  "lib_selector (pf_lib (live_server cr c)) ls = Inr (\<lambda>l. True)"
  by (simp_all add: live_server_def mem_server_def operatorNamespace_def requireTenstorrentLabel_def os_getenv_def)

lemma fresh_phase:
  "phase_of default_ns (plain_fw ''fw'') (fresh_cluster (plain_node ''n1'')) (plain_node ''n1'') = PhCordon"
  "phase_of default_ns (plain_fw ''fw'') (fresh_cluster held_node) held_node = PhReady"
  by (simp_all add: phase_of_def policy_job_def find_job_def fresh_cluster_def drainEnabled_def held_node_def
      held_def to_drain_def plain_fw_def plain_node_def)

lemma plain_rolling: "rolling (plain_fw ''fw'')" "maxParallel (plain_fw ''fw'') = 1"
  by (simp_all add: rolling_def plain_fw_def autoUpgrade_def maxParallel_def)

lemma held_matched: "all_matched (live_server cr c) (plain_fw ''fw'') [held_node]"
  by (simp add: all_matched_def matches_def held_node_def plain_node_def sget_def const_defs)


text \<open>From a cordoned and drained node the controller reaches a cluster in which the node is flashed.\<close>

definition flashing_cluster :: cluster where
  "flashing_cluster = replay (fresh_cluster held_node)
     (hist (final_of (FirmwareReconcile (live_server (plain_fw ''fw'') (fresh_cluster held_node)) ''fw'') init_sys))"

lemma held_name: "nd_name held_node = ''n1''"
  by (simp add: held_node_def plain_node_def)

lemma flashing_cluster_job:
  "\<exists>nd j. node_of flashing_cluster ''n1'' = Some nd \<and>
     policy_job default_ns (plain_fw ''fw'') flashing_cluster ''n1'' = Some j \<and> \<not> fst (jobFinished j)"
proof -
  let ?cr = "plain_fw ''fw''" and ?c = "fresh_cluster held_node"
  have ready: "ready_cluster default_ns ?cr (\<lambda>l. True) {''n1''} ?c"
    using fresh_phase(2) held_name
    by (simp add: ready_cluster_def at_rest_def calm_def fresh_cluster_def in_flight_def claimable_def)
      (simp add: held_node_def plain_node_def sget_def const_defs)
  have cr: "same_policy ?cr ?cr" "fp_deleted ?cr = None" "fp_name ?cr = ''fw''"
    by (simp_all add: same_policy_def plain_fw_def)
  have ph: "phase default_ns ?cr ?c n = Some q \<longleftrightarrow> n = ''n1'' \<and> q = PhReady" for n q
    using fresh_phase(2) held_name by (auto simp: phase_def node_of_def fresh_cluster_def)
  have "phase default_ns ?cr flashing_cluster ''n1'' = Some PhFlash"
    using round_reconcile(2) [OF ready plain_rolling(1) _ live_server_reliable _ _ _ cr(1,2) _ refl, of ?cr init_sys "''n1''"]
    by (auto simp: ph init_sys_def flashing_cluster_def cr(3))
  then obtain nd where nd: "node_of flashing_cluster ''n1'' = Some nd"
    "phase_of default_ns ?cr flashing_cluster nd = PhFlash" "nd_name nd = ''n1''"
    using node_of_name by (auto simp: phase_def)
  then obtain j where "policy_job default_ns ?cr flashing_cluster ''n1'' = Some j" "\<not> fst (jobFinished j)"
    by (cases "policy_job default_ns ?cr flashing_cluster ''n1''")
      (auto simp: phase_of_def split: if_splits, metis (full_types) prod.collapse)
  with nd(1) show ?thesis by blast
qed

lemma one_node_flashing:
  "\<exists>c nd j. reach default_ns (plain_fw ''fw'') {''n1''} {} c \<and> node_of c ''n1'' = Some nd \<and>
     policy_job default_ns (plain_fw ''fw'') c ''n1'' = Some j \<and> \<not> fst (jobFinished j)"
proof -
  let ?cr = "plain_fw ''fw''" and ?c = "fresh_cluster held_node"
  have cr: "same_policy ?cr ?cr" "fp_name ?cr = ''fw''" by (simp_all add: same_policy_def plain_fw_def)
  have "reach default_ns ?cr {''n1''} {} ?c"
    by (rule reach.start) (simp_all add: wf_cluster_def fresh_cluster_def held_name)
  then have "reach default_ns ?cr {''n1''} {} (replay ?c (hist (final_of (FirmwareReconcile (live_server ?cr ?c) (fp_name ?cr)) init_sys)))"
    by (rule reach.reconcile [OF _ reliable_server.axioms(1) [OF live_server_reliable]])
      (simp_all add: init_sys_def cr(1))
  then show ?thesis using flashing_cluster_job by (auto simp: flashing_cluster_def cr(2))
qed

lemma flash_only_on_drained_nodes_witness:
  "\<exists>c nd. node_of c ''n1'' = Some nd \<and> policy_job default_ns (plain_fw ''fw'') c ''n1'' \<noteq> None \<and> nd_unsched nd \<and>
     sget (nd_annos nd) AnnoCordonedBy = ''fw'' \<and> to_drain default_ns (plain_fw ''fw'') (cl_pods c) ''n1'' = []"
proof -
  obtain c nd j where c: "reach default_ns (plain_fw ''fw'') {''n1''} {} c" "node_of c ''n1'' = Some nd"
    "policy_job default_ns (plain_fw ''fw'') c ''n1'' = Some j" "\<not> fst (jobFinished j)"
    using one_node_flashing by blast
  have "fp_name (plain_fw ''fw'') = ''fw''" "drainEnabled (plain_fw ''fw'')"
    by (simp_all add: plain_fw_def drainEnabled_def)
  with flash_only_on_drained_nodes [OF c(1) _ _ _ _ c(2-4)] c(2,3) show ?thesis by auto
qed

lemma in_flight_bounded_witness:
  "\<exists>c. reach default_ns (plain_fw ''fw'') {''n1''} {} c \<and> cl_jobs c \<noteq> [] \<and>
     length (filter (\<lambda>j. jb_ns j = default_ns \<and> jb_labels j JobLabelCR = Some ''fw'' \<and> \<not> fst (jobFinished j))
       (cl_jobs c)) \<le> 1"
proof -
  obtain c j where c: "reach default_ns (plain_fw ''fw'') {''n1''} {} c"
    "policy_job default_ns (plain_fw ''fw'') c ''n1'' = Some j"
    using one_node_flashing by blast
  then have "cl_jobs c \<noteq> []" by (auto simp: policy_job_def find_job_def)
  moreover have "fp_name (plain_fw ''fw'') = ''fw''" by (simp add: plain_fw_def)
  ultimately show ?thesis
    using in_flight_bounded [OF c(1)] c(1) plain_rolling(2) by auto
qed

section \<open>Rounds can be run\<close>

lemma settles_exists: "\<exists>c'. settles opns cr c c'"
proof -
  define done_job where "done_job j = (if fst (jobFinished j) then j else j\<lparr>jb_status := (jb_status j)\<lparr>js_conds :=
    [\<lparr>jc_type = JobComplete, jc_status = ConditionTrue, jc_time = 0\<rparr>]\<rparr>\<rparr>)" for j
  have "job_settles j (done_job j)" for j
    by (simp add: done_job_def job_settles_def job_key_def jobFinished_def)
  then have "list_all2 job_settles js (map done_job js)" for js
    by (simp add: list_all2_map2 list_all2_refl)
  then show ?thesis
    by (intro exI [of _ "c\<lparr>cl_pods := [], cl_jobs := map done_job (cl_jobs c)\<rparr>"])
      (simp add: settles_def to_drain_def)
qed

lemma fair_round_exists:
  assumes "fp_deleted cr = None"
  shows "\<exists>c'. fair_round default_ns cr (\<lambda>l. True) c c'"
proof -
  obtain c' where "settles default_ns cr
      (replay c (hist (final_of (FirmwareReconcile (live_server cr c) (fp_name cr)) init_sys))) c'"
    using settles_exists by blast
  then have "fair_round default_ns cr (\<lambda>l. True) c c'"
    unfolding fair_round_def using live_server_reliable [of cr c] assms
    by (intro exI [of _ "live_server cr c"] exI [of _ init_sys] exI [of _ cr])
      (simp add: same_policy_def init_sys_def)
  then show ?thesis ..
qed

lemma fair_rounds_exist: "fp_deleted cr = None \<Longrightarrow> \<exists>c'. (fair_round default_ns cr (\<lambda>l. True) ^^ k) c c'"
proof (induction k)
  case (Suc k)
  then obtain c1 where "(fair_round default_ns cr (\<lambda>l. True) ^^ k) c c1" by blast
  moreover obtain c' where "fair_round default_ns cr (\<lambda>l. True) c1 c'" using fair_round_exists Suc.prems by blast
  ultimately show ?case by auto
qed auto

lemma rollout_completes_witness:
  "\<exists>c'. (fair_round default_ns (plain_fw ''fw'') (\<lambda>l. True) ^^ 3) (fresh_cluster (plain_node ''n1'')) c' \<and>
     (\<forall>nd \<in> set (cl_nodes c'). phase_of default_ns (plain_fw ''fw'') c' nd = PhDone)"
proof -
  let ?cr = "plain_fw ''fw''" and ?c = "fresh_cluster (plain_node ''n1'')"
  have del: "fp_deleted ?cr = None" by (simp add: plain_fw_def)
  obtain c' where c': "(fair_round default_ns ?cr (\<lambda>l. True) ^^ 3) ?c c'" using fair_rounds_exist [OF del] by blast
  have "at_rest default_ns ?cr ?c" "\<forall>nd \<in> set (cl_nodes ?c). claimable ?cr (\<lambda>l. True) nd"
    using fresh_phase(1)
    by (simp_all add: at_rest_def calm_def fresh_cluster_def in_flight_def claimable_def)
      (simp add: plain_node_def sget_def const_defs)
  with rollout_completes [OF c' _ plain_rolling(1)] c' show ?thesis
    by (auto simp: fresh_cluster_def)
qed

lemma version_change_flashes_twice_witness:
  "\<exists>j'. jb_name j' = jobName ((plain_fw ''fw'')\<lparr>fp_spec := (fp_spec (plain_fw ''fw''))\<lparr>fs_upgrade :=
      (fs_upgrade (fp_spec (plain_fw ''fw'')))\<lparr>fu_max_parallel := 2\<rparr>\<rparr>\<rparr>) ''n1'' ''19.8.0'' \<and>
    \<not> fst (jobFinished j') \<and> jb_labels j' JobLabelNode = Some ''n1''"
proof -
  define cr where "cr = (plain_fw ''fw'')\<lparr>fp_spec := (fp_spec (plain_fw ''fw''))\<lparr>fs_upgrade :=
      (fs_upgrade (fp_spec (plain_fw ''fw'')))\<lparr>fu_max_parallel := 2\<rparr>\<rparr>\<rparr>"
  define old where "old = buildFlashJob (live_server cr (fresh_cluster held_node))
    (cr\<lparr>fp_spec := (fp_spec cr)\<lparr>fs_version := ''19.7''\<rparr>\<rparr>) ''n1'' ''image''"
  define c where "c = (fresh_cluster held_node)\<lparr>cl_jobs := [old]\<rparr>"
  have v: "fs_version (fp_spec cr) = ''19.8.0''" "fp_name cr = ''fw''" by (simp_all add: cr_def plain_fw_def)
  have "length (jb_name old) \<noteq> length (jobName cr ''n1'' ''19.8.0'')"
    by (simp add: old_def buildFlashJob_def length_jobName v)
  then have none: "policy_job default_ns cr c ''n1'' = None"
    by (auto simp: policy_job_def find_job_def c_def v)
  have name: "nd_name held_node = ''n1''" by (simp add: held_node_def plain_node_def)
  have ph: "phase_of default_ns cr c held_node = PhReady"
  proof -
    have "drainEnabled cr" "held cr held_node" "nd_unsched held_node"
      by (simp_all add: cr_def drainEnabled_def plain_fw_def held_node_def held_def)
    moreover have "to_drain default_ns cr (cl_pods c) ''n1'' = []" by (simp add: c_def fresh_cluster_def to_drain_def)
    ultimately show ?thesis by (simp add: phase_of_def none name)
  qed
  have old: "\<not> fst (jobFinished old)" "jb_labels old JobLabelNode = Some ''n1''"
    by (simp_all add: old_def buildFlashJob_def job_labels_def jobFinished_def zero_job_status_def const_defs)
  have roll: "rolling cr" "maxParallel cr = 2"
    by (simp_all add: rolling_def cr_def plain_fw_def autoUpgrade_def maxParallel_def)
  have fl: "in_flight default_ns cr c \<le> 1" by (simp add: in_flight_def c_def count_in_flight)
  have mat: "all_matched (live_server cr c) cr [held_node]"
    by (simp add: all_matched_def matches_def held_node_def plain_node_def sget_def const_defs)
  have one: "cl_nodes c = [held_node]" "old \<in> set (cl_jobs c)" by (simp_all add: c_def fresh_cluster_def)
  show ?thesis
    using version_change_flashes_twice [OF live_server_reliable [of cr c], of init_sys cr held_node old]
      ph old roll fl mat one name v
    by (auto simp: init_sys_def simp flip: cr_def)
qed

end
