(* ===== verification/RollOutHalt.thy ===== *)
theory RollOutHalt
  imports RollOutCases
begin

text \<open>
  What stops a roll-out: a paused policy, one without automatic upgrades, and a failed flash under
  \<open>haltOnFailure\<close>. A reconcile then leaves the phase of every node as it is, on a server that may fail any
  call; a halt only needs the failed Job to be found.
\<close>

section \<open>Calls that only report\<close>

lemma report_apply:
  assumes "report_call x" "node_of c n = Some nd"
  shows "\<exists>nd'. node_of (apply_call x c) n = Some nd' \<and> cordon_of nd' = cordon_of nd"
proof (cases "\<exists>base new. x = CPatchNode base new None \<and> nd_name base = n")
  case True
  then obtain base new where x: "x = CPatchNode base new None" "nd_name base = n" by blast
  then have "cordon_of new = cordon_of base"
    using assms(1) by (auto simp: publish_patch_def node_patch_def cordon_of_def const_defs)
  then show ?thesis using assms(2) x by (simp add: node_of_patch merge_cordon_same del: apply_call.simps)
next
  case False
  then have "node_of (apply_call x c) n = node_of c n"
    by (cases "\<exists>base new. x = CPatchNode base new None")
      (auto simp: node_of_patch simp del: apply_call.simps intro: node_of_other)
  then show ?thesis using assms(2) by simp
qed

lemma report_replay:
  assumes "list_all report_call h"
  shows "cl_jobs (replay c h) = cl_jobs c"
    "node_of c n = Some nd \<Longrightarrow> \<exists>nd'. node_of (replay c h) n = Some nd' \<and> cordon_of nd' = cordon_of nd"
proof -
  show "cl_jobs (replay c h) = cl_jobs c"
    using assms
  proof (induction h arbitrary: c)
    case (Cons x h)
    have "cl_jobs (apply_call x c) = cl_jobs c"
      using Cons.prems by (induction x c rule: apply_call.induct) auto
    with Cons show ?case by simp
  qed simp
  show "node_of c n = Some nd \<Longrightarrow> \<exists>nd'. node_of (replay c h) n = Some nd' \<and> cordon_of nd' = cordon_of nd"
    using assms
  proof (induction h arbitrary: c nd)
    case (Cons x h)
    then obtain nd1 where "node_of (apply_call x c) n = Some nd1" "cordon_of nd1 = cordon_of nd"
      using report_apply [of x c n nd] by auto
    with Cons.IH [of "apply_call x c" nd1] Cons.prems show ?case by auto
  qed simp
qed

lemma phase_of_same:
  assumes "cl_jobs c' = cl_jobs c" "cl_pods c' = cl_pods c" "nd_name nd' = nd_name nd" "cordon_of nd' = cordon_of nd"
  shows "phase_of opns cr c' nd' = phase_of opns cr c nd"
proof -
  have "policy_job opns cr c' = policy_job opns cr c" by (intro ext) (simp add: policy_job_def find_job_def assms(1))
  moreover have "sget (nd_annos nd') AnnoCordonedBy = sget (nd_annos nd) AnnoCordonedBy" "nd_unsched nd' = nd_unsched nd"
    using assms(4) by (simp_all add: cordon_of_def sget_def)
  ultimately show ?thesis by (simp only: phase_of_def held_def assms(2,3))
qed

section \<open>Stopped\<close>

text \<open>A node that the policy matches and may own, with a flash that failed and a Job whose lookup does not fail.\<close>

definition flash_failed :: "platform \<Rightarrow> string set \<Rightarrow> fw_policy \<Rightarrow> cluster \<Rightarrow> bool" where
  "flash_failed p B cr c \<longleftrightarrow> (\<exists>sel nd. lib_selector (pf_lib p) (EffectiveNodeAffinity (fp_spec cr)) = Inr sel \<and>
     nd \<in> set (cl_nodes c) \<and> matches p sel nd \<and> sget (nd_labels nd) LabelOwnerCR \<in> {[], fp_name cr} \<and>
     phase_of (operatorNamespace p) cr c nd = PhFailed \<and> jobName cr (nd_name nd) (fs_version (fp_spec cr)) \<notin> B)"

definition stopped :: "platform \<Rightarrow> string set \<Rightarrow> fw_policy \<Rightarrow> cluster \<Rightarrow> bool" where
  "stopped p B cr c \<longleftrightarrow> fs_paused (fp_spec cr) \<or> \<not> autoUpgrade cr \<or> haltOnFailure cr \<and> flash_failed p B cr c"

context api_server begin

lemma stopped_reconcile:
  assumes "replay c (hist s) = c" "distinct (map nd_name (cl_nodes c))" "stopped p B cr c"
  shows "issued report_call s (final_of (reconcile_cr p cr) s)"
proof (rule reconcile_by_seen_pass [OF assms(1,2) issue.frame_axioms])
  fix stop capacity owned nss and s :: sys
  assume sees: "pass_sees p B c cr nss" and stop: "stop = (\<not> autoUpgrade cr \<or> fs_paused (fp_spec cr) \<or> halted cr nss)"
  have "halted cr nss" if "haltOnFailure cr" "flash_failed p B cr c"
    using that sees unfolding flash_failed_def pass_sees_def halted_def list_ex_iff reports_def tells_def blind_def by fastforce
  then have stop using assms(3) stop by (auto simp: stopped_def)
  then show "issued report_call s (final_of (advance_pass p cr stop capacity owned nss) s)"
    using advance_pass_stop [of p cr capacity owned nss s] by (simp add: final_of_def issued_refl)
qed

end

text \<open>C16: A stopped roll-out stands still. While the policy is paused or has automatic upgrades off, whatever calls
  fail, and while it has a failed flash under \<open>haltOnFailure\<close> on a node that it matches, whatever calls fail
  but the lookup of that node's Job (its name is outside \<open>B\<close>), a reconcile creates no Job, evicts nothing and
  leaves every node in the phase it is in; the status and the labels are still published. This holds for
  finished nodes too, which stay closed.\<close>

theorem stopped_rollout_stands_still:
  assumes "api_server p c B" "distinct (map nd_name (cl_nodes c))" "hist s = []"
    "srv_get_fw (pf_reads p) [] name = Inr cr" "fp_deleted cr = None" "stopped p B cr c"
    "h = hist (final_of (FirmwareReconcile p name) s)" "node_of c n = Some nd"
  shows "cl_jobs (replay c h) = cl_jobs c \<and> (\<forall>ns m e. CEvict ns m e \<notin> set h) \<and>
    (\<exists>nd'. node_of (replay c h) n = Some nd' \<and> nd_unsched nd' = nd_unsched nd \<and>
       phase_of (operatorNamespace p) cr (replay c h) nd' = phase_of (operatorNamespace p) cr c nd)"
proof -
  let ?s = "s\<lparr>hist := [CGetFw name]\<rparr>"
  have run: "final_of (FirmwareReconcile p name) s = final_of (reconcile_cr p cr) ?s"
    using assms(3-5) by (simp add: FirmwareReconcile_def get_fw_def)
  have "issued report_call ?s (final_of (reconcile_cr p cr) ?s)"
    by (rule api_server.stopped_reconcile [OF assms(1) _ assms(2,6)]) simp
  then have h: "list_all report_call h" unfolding assms(7) run by (auto simp: issued_def)
  obtain nd' where nd': "node_of (replay c h) n = Some nd'" "cordon_of nd' = cordon_of nd"
    using report_replay(2) [OF h assms(8)] by blast
  have "phase_of (operatorNamespace p) cr (replay c h) nd' = phase_of (operatorNamespace p) cr c nd"
    by (rule phase_of_same) (use report_replay(1) [OF h] nd' node_of_name assms(8) in auto)
  moreover have "CEvict ns m e \<notin> set h" for ns m e using h by (auto simp: list_all_iff)
  ultimately show ?thesis using nd' report_replay(1) [OF h] by (auto simp: cordon_of_def)
qed

section \<open>A failed flash beside a node that waits\<close>

text \<open>Two nodes of which the first has a failed flash. The second is not cordoned by a reconcile.\<close>

definition failed_cluster :: cluster where
  "failed_cluster = \<lparr>cl_nodes = [plain_node ''n1'', plain_node ''n2''], cl_pods = [],
     cl_jobs = [(plain_job (jobName (plain_fw ''fw'') ''n1'' (fs_version (fp_spec (plain_fw ''fw'')))))
       \<lparr>jb_ns := default_ns, jb_status := zero_job_status
         \<lparr>js_conds := [\<lparr>jc_type = JobFailed, jc_status = ConditionTrue, jc_time = 0\<rparr>]\<rparr>\<rparr>]\<rparr>"

lemma failed_cluster_nodes:
  "node_of failed_cluster ''n1'' = Some (plain_node ''n1'')" "node_of failed_cluster ''n2'' = Some (plain_node ''n2'')"
  "distinct (map nd_name (cl_nodes failed_cluster))"
  by (simp_all add: node_of_def failed_cluster_def plain_node_def)

lemma failed_cluster_phase:
  "phase_of default_ns (plain_fw ''fw'') failed_cluster (plain_node ''n1'') = PhFailed"
  by (simp add: phase_of_def policy_job_def find_job_def failed_cluster_def plain_node_def jobFinished_def
      plain_job_def const_defs)

lemma failed_stopped:
  "stopped (live_server (plain_fw ''fw'') failed_cluster) {} (plain_fw ''fw'') failed_cluster"
proof -
  have "flash_failed (live_server (plain_fw ''fw'') failed_cluster) {} (plain_fw ''fw'') failed_cluster"
    unfolding flash_failed_def using failed_cluster_phase
    by (intro exI [of _ "\<lambda>l. True"] exI [of _ "plain_node ''n1''"])
      (simp add: failed_cluster_def matches_def plain_node_def sget_def const_defs)
  then show ?thesis by (simp add: stopped_def haltOnFailure_def plain_fw_def)
qed

lemma stopped_rollout_stands_still_witness:
  "\<exists>nd'. node_of (replay failed_cluster (hist (final_of
     (FirmwareReconcile (live_server (plain_fw ''fw'') failed_cluster) ''fw'') init_sys))) ''n2'' = Some nd' \<and>
     \<not> nd_unsched nd'"
proof -
  have "fp_deleted (plain_fw ''fw'') = None" "\<not> nd_unsched (plain_node ''n2'')" "hist init_sys = []"
    by (simp_all add: plain_fw_def plain_node_def init_sys_def)
  with stopped_rollout_stands_still [OF reliable_server.axioms(1) [OF live_server_reliable] failed_cluster_nodes(3) _ _ _
      failed_stopped refl failed_cluster_nodes(2), of init_sys "''fw''"] show ?thesis by auto
qed

end
