(* ===== verification/CacheReads.thy ===== *)
theory CacheReads
  imports RollOutReach "HOL-Library.Multiset"
begin

text \<open>
  The firmware controller on the client that the manager hands out, whose reads come from informer caches: a
  read shows the cluster as it was some time ago, each kind of object with a lag of its own, in any order.
  Writes go to the API server. This is weaker than \<open>api_server\<close>, where a read shows the stored objects. What
  remains is that a flash runs only on a drained node, if the Pods are no older than the Nodes, and that
  \<open>maxParallel\<close> is kept, if the Jobs are no older than the last reconcile.
\<close>

section \<open>Reads from caches\<close>

text \<open>The reads of a reconcile are answered from earlier clusters: \<open>VN\<close> for the Nodes, \<open>VJ\<close> for the Jobs,
  \<open>VP\<close> for the Pods. The answer to a patch is some version of the node. As in \<open>api_server\<close>, \<open>B\<close> holds the names
  of the Jobs whose lookup fails otherwise than with NotFound.\<close>

locale cached_server =
  fixes p :: platform and VN VJ VP :: "cluster set" and B :: "string set"
  assumes get_job_found: "srv_get_job (pf_reads p) h ns n = Inr j \<Longrightarrow> \<exists>v \<in> VJ. find_job v ns n = Some j"
    and get_job_missing: "srv_get_job (pf_reads p) h ns n = Inl e \<Longrightarrow> ekind e = NotFound \<Longrightarrow>
      \<exists>v \<in> VJ. find_job v ns n = None"
    and get_job_failing: "srv_get_job (pf_reads p) h ns n = Inl e \<Longrightarrow> ekind e \<noteq> NotFound \<Longrightarrow> n \<in> B"
    and list_nodes: "srv_list_nodes (pf_reads p) h = Inr nds \<Longrightarrow> \<exists>v \<in> VN. mset nds = mset (cl_nodes v)"
    and list_pods: "srv_list_pods (pf_reads p) h None [] = Inr pds \<Longrightarrow> \<exists>v \<in> VP. mset pds = mset (cl_pods v)"
    and list_jobs: "srv_list_jobs (pf_reads p) h ns sel = Inr js \<Longrightarrow> \<exists>v \<in> VJ. mset js =
      mset (filter (\<lambda>j. jb_ns j = ns \<and> list_all (\<lambda>(k, v). jb_labels j k = Some v) sel) (cl_jobs v))"
    and create_job: "srv_create_job (pf_writes p) h j = Inr j' \<Longrightarrow> j' = j"
    and patch_node: "srv_patch_node (pf_writes p) h base new = Inr nd \<Longrightarrow> nd_name nd = nd_name new"
begin

lemma keeps_names: "keeps_names p"
  by (auto simp: keeps_names_def dest: patch_node)

end

section \<open>The calls of a reconcile\<close>

text \<open>What the caches have shown about a node before it is flashed, and before it is opened.\<close>

definition seen_ready :: "string \<Rightarrow> fw_policy \<Rightarrow> string set \<Rightarrow> cluster set \<Rightarrow> cluster set \<Rightarrow> string \<Rightarrow> bool" where
  "seen_ready opns cr B VN VP n \<longleftrightarrow> (\<exists>vn \<in> VN. \<exists>nd \<in> set (cl_nodes vn). nd_name nd = n \<and>
     (drainEnabled cr \<and> \<not> blind B cr n \<longrightarrow> held cr nd \<and> (\<exists>vp \<in> VP. to_drain opns cr (cl_pods vp) n = [])))"

definition seen_flashed :: "string \<Rightarrow> fw_policy \<Rightarrow> cluster set \<Rightarrow> cluster set \<Rightarrow> string \<Rightarrow> bool" where
  "seen_flashed opns cr VN VJ n \<longleftrightarrow> (\<exists>vn \<in> VN. n \<in> nd_name ` set (cl_nodes vn)) \<and>
     (\<exists>vj \<in> VJ. \<exists>j. policy_job opns cr vj n = Some j \<and> fst (jobFinished j))"

fun lag_call :: "string \<Rightarrow> fw_policy \<Rightarrow> string set \<Rightarrow> cluster set \<Rightarrow> cluster set \<Rightarrow> cluster set \<Rightarrow> call \<Rightarrow> bool" where
  "lag_call opns cr B VN VJ VP (CCreateJob j e) = (\<exists>n. seen_ready opns cr B VN VP n \<and> flash_job opns cr n j)"
| "lag_call opns cr B VN VJ VP (CPatchNode base new e) =
     (cordon_of new = cordon_of base \<or> cordon_of new = (True, Some (fp_name cr)) \<or>
      seen_flashed opns cr VN VJ (nd_name base))"
| "lag_call opns cr B VN VJ VP _ = True"

lemma lag_call_benign:
  "node_patch L A False base new \<Longrightarrow> AnnoCordonedBy \<notin> A \<Longrightarrow> lag_call opns cr B VN VJ VP (CPatchNode base new e)"
  by (auto simp: node_patch_def cordon_of_def)

lemma lag_call_report: "report_call x \<Longrightarrow> lag_call opns cr B VN VJ VP x"
proof (cases x)
  case (CPatchNode base new e)
  then show "report_call x \<Longrightarrow> lag_call opns cr B VN VJ VP x"
    by (simp only: report_call.simps publish_patch_def)
      (rule lag_call_benign [OF node_patch_mono [OF _ order.refl order.refl]], assumption, simp_all)
qed simp_all

definition lag_status :: "string \<Rightarrow> fw_policy \<Rightarrow> string set \<Rightarrow> cluster set \<Rightarrow> cluster set \<Rightarrow> cluster set \<Rightarrow> node_status \<Rightarrow> bool" where
  "lag_status opns cr B VN VJ VP x \<longleftrightarrow> \<not> hands_off x \<longrightarrow>
     (ns_state x = NodeStatePending \<longrightarrow> seen_ready opns cr B VN VP (ns_name x)) \<and>
     (ns_state x = NodeStateUncordoning \<longrightarrow> seen_flashed opns cr VN VJ (ns_name x))"

lemma lag_advance_state:
  assumes "ns_state ns = NodeStatePending \<Longrightarrow> seen_ready (operatorNamespace p) cr B VN VP (nd_name node)"
    "ns_state ns = NodeStateUncordoning \<Longrightarrow> seen_flashed (operatorNamespace p) cr VN VJ (nd_name node)"
  shows "issues (lag_call (operatorNamespace p) cr B VN VJ VP) (advance_state p cr node ns)"
proof (cases "ns_state ns")
  case NodeStatePending
  have "issues (lag_call (operatorNamespace p) cr B VN VJ VP) (spawnFlashJob p cr node ns)"
    unfolding spawnFlashJob_def Let_def
    by (intro frame_rules issues_annotateNode issues_labelNode)
      (use assms NodeStatePending in \<open>auto elim!: lag_call_benign simp: flash_job_def simp del: lag_call.simps(2)\<close>)
  then show ?thesis using NodeStatePending by (auto simp: advance_state_def)
next
  case NodeStateCordoning
  have "issues (lag_call (operatorNamespace p) cr B VN VJ VP) (cordonNode p node (fp_name cr))"
    unfolding cordonNode_def
    by (intro issues_CordonNode) (auto simp: cordon_patch_def cordon_of_def firmwareCordonOpts_def)
  then show ?thesis
    using NodeStateCordoning by (auto simp: advance_state_def intro!: frame_rules)
next
  case NodeStateUncordoning
  have "issues (lag_call (operatorNamespace p) cr B VN VJ VP) (uncordonNode p node (fp_name cr))"
    unfolding uncordonNode_def
    by (intro issues_UncordonNode) (use assms NodeStateUncordoning in auto)
  then show ?thesis
    using NodeStateUncordoning by (auto simp: advance_state_def intro!: frame_rules)
next
  case NodeStateDraining
  then show ?thesis
    by (auto simp: advance_state_def intro!: frame_rules issues_evict_device_pods)
qed (auto simp: advance_state_def intro!: frame_rules)

lemma observed_names: "map ns_name (result_of (observe_all p cr nds) s) = map nd_name nds"
proof -
  have drain: "ns_name (result_of (observe_drain p cr nd) s) = nd_name nd" for nd s
    by (auto simp: observe_drain_def base_status_def split: sum.split)
  have job: "ns_name (result_of (observe_job p cr nd j) s) = nd_name nd" for nd j s
    by (auto simp: observe_job_def base_status_def Let_def split: prod.split)
  have "ns_name (result_of (observeNode p cr nd) s) = nd_name nd" for nd s
    by (simp add: observeNode_cases drain job Let_def base_status_def split: sum.split)
  then show ?thesis by (induction nds arbitrary: s) simp_all
qed

context cached_server begin

lemma lag_advance:
  assumes "lag_status (operatorNamespace p) cr B VN VJ VP ns" "\<not> hands_off ns" "nd_name node = ns_name ns"
  shows "issues (lag_call (operatorNamespace p) cr B VN VJ VP) (advanceNode p cr node ns)"
proof -
  have "nd_name (snd (result_of (claimOwnership p node (fp_name cr)) s)) = ns_name ns" for s
    using claimOwnership_name [OF keeps_names] assms(3) by simp
  then have "issues (lag_call (operatorNamespace p) cr B VN VJ VP)
      (advance_state p cr (snd (result_of (claimOwnership p node (fp_name cr)) s)) ns)" for s
    using assms(1,2) by (intro lag_advance_state) (auto simp: lag_status_def)
  then show ?thesis
    unfolding advanceNode_def
    by (intro issue.bind_result issues_claimOwnership)
      (auto simp: split_beta intro!: frame_rules lag_call_benign simp del: lag_call.simps(2))
qed

lemma lag_observe:
  assumes "vn \<in> VN" "nd \<in> set (cl_nodes vn)"
  shows "lag_status (operatorNamespace p) cr B VN VJ VP (result_of (observeNode p cr nd) s)"
proof -
  let ?x = "result_of (observeNode p cr nd) s"
  have name: "ns_name ?x = nd_name nd" using observed_names [of p cr "[nd]" s] by simp
  have "held cr nd \<and> (\<exists>vp \<in> VP. to_drain (operatorNamespace p) cr (cl_pods vp) (nd_name nd) = [])"
    if "ns_state ?x = NodeStatePending" "\<not> hands_off ?x" "drainEnabled cr" "\<not> blind B cr (nd_name nd)"
  proof -
    have missing: "ekind e = NotFound"
      if "srv_get_job (pf_reads p) h ns (jobName cr (nd_name nd) (fs_version (fp_spec cr))) = Inl e" for h ns e
      using get_job_failing [OF that] \<open>\<not> blind B cr (nd_name nd)\<close> by (auto simp: blind_def)
    have "held cr nd \<and> (\<exists>h pods. srv_list_pods (pf_reads p) h None [] = Inr pods \<and>
        to_drain (operatorNamespace p) cr pods (nd_name nd) = [])"
      using that(1-3) observe_drain_pending [OF refl] missing
      by (auto simp: observeNode_cases observe_job_state Let_def held_def hands_off_def to_drain_def
          split: sum.splits if_splits)
    then obtain h pods where h: "held cr nd" "srv_list_pods (pf_reads p) h None [] = Inr pods"
      "to_drain (operatorNamespace p) cr pods (nd_name nd) = []" by blast
    then obtain vp where "vp \<in> VP" "set pods = set (cl_pods vp)" using list_pods mset_eq_setD by blast
    with h show ?thesis by (auto simp: to_drain_def filter_empty_conv)
  qed
  moreover have "\<exists>vj \<in> VJ. \<exists>j. policy_job (operatorNamespace p) cr vj (nd_name nd) = Some j \<and> fst (jobFinished j)"
    if "ns_state ?x = NodeStateUncordoning"
  proof (cases "srv_get_job (pf_reads p) (hist s) (operatorNamespace p)
      (jobName cr (nd_name nd) (fs_version (fp_spec cr)))")
    case (Inl e)
    then show ?thesis
      using that by (auto simp: observeNode_cases Let_def base_status_def observe_drain_def split: if_splits sum.splits)
  next
    case (Inr j)
    then have "jobFinished j = (True, True)"
      using that by (auto simp: observeNode_cases Let_def observe_job_state split: if_splits)
    then show ?thesis using get_job_found [OF Inr] by (fastforce simp: policy_job_def)
  qed
  ultimately show ?thesis
    using assms by (auto simp: lag_status_def name seen_ready_def seen_flashed_def)
qed

lemma lag_reconcile: "issues (lag_call (operatorNamespace p) cr B VN VJ VP) (reconcile_cr p cr)"
proof -
  let ?P = "lag_call (operatorNamespace p) cr B VN VJ VP"
  have reads: "issues ?P (matchedNodes p cr)" "issues ?P (now p)"
    "issues ?P (observe_all p cr nds)" "issues ?P (jobsForCR p cr)" for nds
    by (auto intro!: frame_rules issues_observe_all elim!: read_call.elims)
  have after: "issues ?P (after_pass p cr t keys hlt r)" for t keys hlt r
    by (rule issues_mono [OF report_after_pass]) (rule lag_call_report)
  have obs: "list_all (lag_status (operatorNamespace p) cr B VN VJ VP)
      (result_of (observe_all p cr nds) s)" if "set nds \<subseteq> set (cl_nodes vn)" "vn \<in> VN" for nds vn s
    using that by (induction nds arbitrary: s) (auto intro: lag_observe)
  have off: "hands_off (conflict_status nd)" for nd
    by (simp add: hands_off_def conflict_status_def)
  have pass: "issues ?P (advance_pass p cr stop capacity owned nss)"
    if "list_all (lag_status (operatorNamespace p) cr B VN VJ VP) nss" for stop capacity owned nss
    by (rule issues_advance_pass_on) (use that in \<open>auto simp: list_all_iff intro!: lag_advance\<close>)
  have rollout: "issues ?P (roll_out p cr t owned nss jobs)"
    if "list_all (lag_status (operatorNamespace p) cr B VN VJ VP) nss" for t owned nss jobs
    unfolding roll_out_after_pass by (intro frame_rules pass [OF that] after)
  have sub: "\<exists>vn \<in> VN. set matched \<subseteq> set (cl_nodes vn)" if "result_of (matchedNodes p cr) s = Inr matched" for matched s
    using that list_nodes
    by (fastforce simp: matchedNodes_def list_nodes_def filter_matched_filter split: sum.splits dest!: mset_eq_setD)
  have matched: "issues ?P (do {
      t \<leftarrow> now p;
      observed \<leftarrow> observe_all p cr owned;
      jr \<leftarrow> jobsForCR p cr;
      (case jr of
         Inl e \<Rightarrow> do {
           inc_firmware_error (fp_name cr) ''list_jobs'';
           State_Monad.return (no_requeue, Some (wrap ''count in-flight jobs'' e))
         }
       | Inr jobs \<Rightarrow> roll_out p cr t owned (observed @ map conflict_status conflicts) jobs)
    })"
    if "set owned \<subseteq> set (cl_nodes vn)" "vn \<in> VN" for owned conflicts vn
    by (intro issue.bind_result reads issue.case_sum rollout frame_rules)
      (use obs [OF that] off in \<open>auto simp: list_all_iff lag_status_def\<close>)
  show ?thesis
    unfolding reconcile_cr_def Let_def
    apply (rule issue.bind_result [OF reads(1)])
    apply (rule issue.case_sum)
     apply (intro frame_rules)
    apply (rule issue.case_prod)
    apply (drule sub, erule bexE)
    apply (rule matched [rotated], assumption)
    apply (auto simp: partition_filter)
    done
qed

end

section \<open>Runs\<close>

text \<open>A run is the list of the clusters so far, the newest first. \<open>since cs v w\<close>: in the run \<open>cs\<close>, \<open>w\<close> is not older
  than \<open>v\<close>.\<close>

fun since :: "cluster list \<Rightarrow> cluster \<Rightarrow> cluster \<Rightarrow> bool" where
  "since [] v w = False"
| "since (x # cs) v w = (w = x \<and> (v = x \<or> v \<in> set cs) \<or> since cs v w)"

lemma since_mem: "since cs v w \<Longrightarrow> v \<in> set cs \<and> w \<in> set cs"
  by (induction cs) auto

lemma since_refl: "v \<in> set cs \<Longrightarrow> since cs v v"
  by (induction cs) auto

lemma since_hd: "v \<in> set cs \<Longrightarrow> since cs v (hd cs)"
  by (cases cs) auto

text \<open>The caches show clusters of the run, and the Pods are not older than the Nodes.\<close>

definition views :: "cluster list \<Rightarrow> cluster set \<Rightarrow> cluster set \<Rightarrow> cluster set \<Rightarrow> bool" where
  "views cs VN VJ VP \<longleftrightarrow> VN \<subseteq> set cs \<and> VJ \<subseteq> set cs \<and> VP \<subseteq> set cs \<and> (\<forall>vn \<in> VN. \<forall>vp \<in> VP. since cs vn vp)"

lemma views_Cons: "views cs VN VJ VP \<Longrightarrow> views (x # cs) VN VJ VP"
  by (auto simp: views_def)

text \<open>What the rest of the cluster may do, in addition to \<open>env_step\<close>: a Job of the policy is not collected while
  a cache may still show it, and the name of a node that has left is not used again.\<close>

definition lag_env :: "string \<Rightarrow> fw_policy \<Rightarrow> string set \<Rightarrow> cluster list \<Rightarrow> cluster \<Rightarrow> bool" where
  "lag_env opns cr N cs c' \<longleftrightarrow> env_step opns cr N (hd cs) c' \<and>
     (\<forall>n \<in> N. policy_job opns cr (hd cs) n \<noteq> None \<longrightarrow> policy_job opns cr c' n \<noteq> None) \<and>
     (\<forall>nd' \<in> set (cl_nodes c').
        (\<exists>nd \<in> set (cl_nodes (hd cs)). nd_name nd = nd_name nd' \<and> (held cr nd \<longrightarrow> held cr nd')) \<or>
        (\<forall>v \<in> set cs. nd_name nd' \<notin> nd_name ` set (cl_nodes v)))"

text \<open>The clusters that the calls of a reconcile lead through.\<close>

fun trail :: "cluster list \<Rightarrow> call list \<Rightarrow> cluster list" where
  "trail cs [] = cs"
| "trail cs (x # h) = trail (apply_call x (hd cs) # cs) h"

lemma hd_trail: "cs \<noteq> [] \<Longrightarrow> hd (trail cs h) = replay (hd cs) h"
  by (induction h arbitrary: cs) simp_all

lemma trail_mem: "v \<in> set cs \<Longrightarrow> v \<in> set (trail cs h)"
  by (induction h arbitrary: cs) simp_all

inductive lag_reach :: "string \<Rightarrow> fw_policy \<Rightarrow> string set \<Rightarrow> string set \<Rightarrow> cluster list \<Rightarrow> bool" for opns cr N B where
  start: "wf_cluster N c \<Longrightarrow> list_all (\<lambda>j. \<not> labelled opns cr j \<and> \<not> named opns cr N j) (cl_jobs c) \<Longrightarrow>
    lag_reach opns cr N B [c]"
| reconcile: "lag_reach opns cr N B cs \<Longrightarrow> cached_server p VN VJ VP B \<Longrightarrow> views cs VN VJ VP \<Longrightarrow>
    operatorNamespace p = opns \<Longrightarrow> hist s = [] \<Longrightarrow>
    (\<And>cr'. srv_get_fw (pf_reads p) [] (fp_name cr) = Inr cr' \<Longrightarrow> same_policy cr cr') \<Longrightarrow>
    lag_reach opns cr N B (trail cs (hist (final_of (FirmwareReconcile p (fp_name cr)) s)))"
| env: "lag_reach opns cr N B cs \<Longrightarrow> lag_env opns cr N cs c' \<Longrightarrow> lag_reach opns cr N B (c' # cs)"

section \<open>What old clusters still tell\<close>

text \<open>A Job that was seen still exists, and has the outcome it had. A node that was seen held stays so until
  its Job exists; so does its being drained.\<close>

definition jobs_last :: "string \<Rightarrow> fw_policy \<Rightarrow> string set \<Rightarrow> cluster \<Rightarrow> cluster \<Rightarrow> bool" where
  "jobs_last opns cr N v c \<longleftrightarrow> (\<forall>n \<in> N. \<forall>j. policy_job opns cr v n = Some j \<longrightarrow>
     (\<exists>j'. policy_job opns cr c n = Some j' \<and> (fst (jobFinished j) \<longrightarrow> jobFinished j' = jobFinished j)))"

definition held_in :: "fw_policy \<Rightarrow> cluster \<Rightarrow> string \<Rightarrow> bool" where
  "held_in cr c n \<longleftrightarrow> (\<exists>nd \<in> set (cl_nodes c). nd_name nd = n \<and> held cr nd)"

definition all_held :: "fw_policy \<Rightarrow> cluster \<Rightarrow> string \<Rightarrow> bool" where
  "all_held cr c n \<longleftrightarrow> (\<forall>nd \<in> set (cl_nodes c). nd_name nd = n \<longrightarrow> held cr nd)"

definition lag_inv :: "string \<Rightarrow> fw_policy \<Rightarrow> string set \<Rightarrow> string set \<Rightarrow> cluster list \<Rightarrow> bool" where
  "lag_inv opns cr N B cs \<longleftrightarrow> cs \<noteq> [] \<and> (\<forall>v \<in> set cs. wf_cluster N v \<and> jobs_last opns cr N v (hd cs)) \<and>
     flash_inv opns B cr (hd cs) \<and>
     (\<forall>v w n. since cs v w \<longrightarrow> held_in cr v n \<longrightarrow> policy_job opns cr (hd cs) n = None \<longrightarrow>
        all_held cr w n \<and> (to_drain opns cr (cl_pods w) n = [] \<longrightarrow> n \<in> nd_name ` set (cl_nodes (hd cs)) \<longrightarrow>
          to_drain opns cr (cl_pods (hd cs)) n = []))"

text \<open>One step of the run, by whomever.\<close>

definition lag_step :: "string \<Rightarrow> fw_policy \<Rightarrow> string set \<Rightarrow> string set \<Rightarrow> cluster list \<Rightarrow> cluster \<Rightarrow> bool" where
  "lag_step opns cr N B cs c' \<longleftrightarrow> wf_cluster N c' \<and> jobs_last opns cr N (hd cs) c' \<and> flash_inv opns B cr c' \<and>
     (\<forall>nd' \<in> set (cl_nodes c'). policy_job opns cr c' (nd_name nd') = None \<longrightarrow>
        (\<exists>nd \<in> set (cl_nodes (hd cs)). nd_name nd = nd_name nd' \<and> (held cr nd \<longrightarrow> held cr nd')) \<or>
        (\<forall>v \<in> set cs. nd_name nd' \<notin> nd_name ` set (cl_nodes v))) \<and>
     (\<forall>nd' \<in> set (cl_nodes c'). held cr nd' \<longrightarrow>
        to_drain opns cr (cl_pods (hd cs)) (nd_name nd') = [] \<longrightarrow> to_drain opns cr (cl_pods c') (nd_name nd') = [])"

lemma jobs_last_trans: "jobs_last opns cr N u v \<Longrightarrow> jobs_last opns cr N v w \<Longrightarrow> jobs_last opns cr N u w"
  unfolding jobs_last_def by (metis (no_types, lifting))

lemma jobs_last_none:
  "jobs_last opns cr N v c \<Longrightarrow> n \<in> N \<Longrightarrow> policy_job opns cr c n = None \<Longrightarrow> policy_job opns cr v n = None"
  by (cases "policy_job opns cr v n") (fastforce simp: jobs_last_def)+

lemma wf_name: "wf_cluster N c \<Longrightarrow> nd \<in> set (cl_nodes c) \<Longrightarrow> nd_name nd \<in> N"
  by (auto simp: wf_cluster_def)

lemma wf_held: "wf_cluster N c \<Longrightarrow> held_in cr c n \<Longrightarrow> all_held cr c n"
  by (auto simp: wf_cluster_def held_in_def all_held_def distinct_map inj_on_def)

lemma lag_inv_step:
  assumes "lag_inv opns cr N B cs" "lag_step opns cr N B cs c'"
  shows "lag_inv opns cr N B (c' # cs)"
proof -
  note inv = assms(1) [unfolded lag_inv_def]
  note step = assms(2) [unfolded lag_step_def]
  have "all_held cr w n \<and> (to_drain opns cr (cl_pods w) n = [] \<longrightarrow> n \<in> nd_name ` set (cl_nodes c') \<longrightarrow>
      to_drain opns cr (cl_pods c') n = [])"
    if s: "since (c' # cs) v w" and h: "held_in cr v n" and none: "policy_job opns cr c' n = None" for v w n
  proof (cases "v \<in> set cs")
    case True
    then have "n \<in> N" using inv h wf_name by (fastforce simp: held_in_def)
    then have quiet: "policy_job opns cr (hd cs) n = None" using jobs_last_none step none by blast
    have known: "n \<in> nd_name ` set (cl_nodes v)" using h by (auto simp: held_in_def)
    have "all_held cr (hd cs) n" using inv since_hd [OF True] h quiet by blast
    then have stays: "all_held cr c' n"
      using step none known True unfolding all_held_def by (metis (no_types, lifting))
    have "to_drain opns cr (cl_pods c') n = []"
      if d: "to_drain opns cr (cl_pods w) n = []" "n \<in> nd_name ` set (cl_nodes c')" "since cs v w"
    proof -
      obtain nd' where nd': "nd' \<in> set (cl_nodes c')" "nd_name nd' = n" using d(2) by blast
      then have "n \<in> nd_name ` set (cl_nodes (hd cs))" using step none known True by (metis image_eqI)
      then have "to_drain opns cr (cl_pods (hd cs)) n = []" using inv d(1,3) h quiet by blast
      then show ?thesis using step stays nd' unfolding all_held_def by blast
    qed
    then show ?thesis using s stays inv h quiet by auto
  next
    case False
    then have "v = c'" "w = c'" using s since_mem by auto
    then show ?thesis using wf_held h step by blast
  qed
  moreover have "wf_cluster N v \<and> jobs_last opns cr N v c'" if "v \<in> set (c' # cs)" for v
    using that inv step jobs_last_trans by (auto simp: jobs_last_def [of _ _ _ c' c'])
  ultimately show ?thesis using step by (auto simp: lag_inv_def simp del: since.simps)
qed

section \<open>The steps\<close>

lemma merge_held:
  assumes "cordon_of new = cordon_of base \<or> cordon_of new = (True, Some (fp_name cr))" "held cr cur" "fp_name cr \<noteq> []"
  shows "held cr (merge_node base new cur)"
proof -
  have cur: "cordon_of cur = (True, Some (fp_name cr))"
    using assms(2,3) by (cases "nd_annos cur AnnoCordonedBy") (auto simp: held_def cordon_of_def sget_def)
  from assms(1) have "cordon_of (merge_node base new cur) = (True, Some (fp_name cr))"
  proof
    assume "cordon_of new = cordon_of base"
    then show ?thesis by (simp add: merge_cordon_same cur)
  next
    assume "cordon_of new = (True, Some (fp_name cr))"
    then show ?thesis by (simp add: merge_cordon_target cur)
  qed
  then show ?thesis by (simp add: held_def cordon_of_def sget_def)
qed

lemma lag_step_refl: "lag_inv opns cr N B cs \<Longrightarrow> lag_step opns cr N B cs (hd cs)"
  by (auto simp: lag_inv_def lag_step_def jobs_last_def)

lemma lag_step_patch:
  assumes "lag_inv opns cr N B cs" "views cs VN VJ VP" "fp_name cr \<noteq> []"
    "lag_call opns cr B VN VJ VP (CPatchNode base new None)"
  shows "lag_step opns cr N B cs (apply_call (CPatchNode base new None) (hd cs))"
proof -
  let ?c = "hd cs" and ?c' = "apply_call (CPatchNode base new None) (hd cs)"
  note inv = assms(1) [unfolded lag_inv_def]
  have wf: "wf_cluster N ?c" using inv by simp
  have wf': "wf_cluster N ?c'" using replay_wf [OF wf, of "[CPatchNode base new None]"] by simp
  have job: "policy_job opns cr ?c' n = policy_job opns cr ?c n" for n by (simp add: policy_job_def find_job_def)
  have nodes: "cl_nodes ?c' = map (\<lambda>nd. if nd_name nd = nd_name base then merge_node base new nd else nd) (cl_nodes ?c)"
    by simp
  have keep: "held cr cur \<Longrightarrow> held cr (merge_node base new cur)"
    if "cordon_of new = cordon_of base \<or> cordon_of new = (True, Some (fp_name cr))" for cur
    using merge_held [OF that _ assms(3)] .
  have flashed: "\<exists>j. policy_job opns cr ?c (nd_name base) = Some j \<and> fst (jobFinished j)"
    if seen: "seen_flashed opns cr VN VJ (nd_name base)"
  proof -
    obtain vn vj j where v: "vn \<in> VN" "nd_name base \<in> nd_name ` set (cl_nodes vn)" "vj \<in> VJ"
      "policy_job opns cr vj (nd_name base) = Some j" "fst (jobFinished j)"
      using seen by (auto simp: seen_flashed_def)
    then have "nd_name base \<in> N" "jobs_last opns cr N vj ?c"
      using inv assms(2) unfolding views_def wf_cluster_def by blast+
    with v show ?thesis by (fastforce simp: jobs_last_def)
  qed
  have "\<exists>nd \<in> set (cl_nodes ?c). nd_name nd = nd_name nd' \<and> (held cr nd \<longrightarrow> held cr nd')"
    if nd': "nd' \<in> set (cl_nodes ?c')" "policy_job opns cr ?c' (nd_name nd') = None" for nd'
  proof -
    obtain x where x: "x \<in> set (cl_nodes ?c)"
      "nd' = (if nd_name x = nd_name base then merge_node base new x else x)" using nd'(1) nodes by auto
    then show ?thesis
      using nd'(2) flashed keep assms(4) by (intro bexI [of _ x]) (auto simp: job simp del: apply_call.simps split: if_splits)
  qed
  moreover have "flash_inv opns B cr ?c'"
    unfolding flash_inv_def job
  proof (intro allI impI)
    fix n nd' j
    assume see: "\<not> blind B cr n"
      and n: "node_of ?c' n = Some nd'" "policy_job opns cr ?c n = Some j" "\<not> fst (jobFinished j)"
    show "held cr nd' \<and> to_drain opns cr (cl_pods ?c') n = []"
      using see n flashed keep assms(4) inv
      by (auto simp: node_of_patch flash_inv_def simp del: apply_call.simps split: if_splits)
  qed
  moreover have "jobs_last opns cr N ?c ?c'" by (auto simp: jobs_last_def job simp del: apply_call.simps)
  ultimately show ?thesis using wf' by (auto simp: lag_step_def simp del: apply_call.simps)
qed

lemma lag_step_create:
  assumes "lag_inv opns cr N B cs" "views cs VN VJ VP" "names_ok cr N" "drainEnabled cr"
    "lag_call opns cr B VN VJ VP (CCreateJob j None)"
  shows "lag_step opns cr N B cs (apply_call (CCreateJob j None) (hd cs))"
proof -
  let ?c = "hd cs" and ?c' = "apply_call (CCreateJob j None) (hd cs)"
  note inv = assms(1) [unfolded lag_inv_def]
  have wf: "wf_cluster N ?c" using inv by simp
  have wf': "wf_cluster N ?c'" using replay_wf [OF wf, of "[CCreateJob j None]"] by simp
  have nodes: "cl_nodes ?c' = cl_nodes ?c" by simp
  obtain m where m: "seen_ready opns cr B VN VP m" "flash_job opns cr m j" using assms(5) by auto
  then have "m \<in> N" using inv assms(2) wf_name unfolding seen_ready_def views_def by blast
  have ready: "held cr nd \<and> to_drain opns cr (cl_pods ?c) m = []"
    if see: "\<not> blind B cr m" and node: "node_of ?c m = Some nd" and none: "policy_job opns cr ?c m = None" for nd
  proof -
    obtain vn vp where v: "vn \<in> VN" "vp \<in> VP" "held_in cr vn m" "to_drain opns cr (cl_pods vp) m = []"
      using m(1) see assms(4) by (auto simp: seen_ready_def held_in_def)
    have s: "since cs vn vp" "vn \<in> set cs" using assms(2) v(1,2) by (auto simp: views_def)
    have nd: "nd \<in> set (cl_nodes ?c)" "nd_name nd = m" using node node_of_mem node_of_name by auto
    then show ?thesis using inv s since_hd [OF s(2)] v none unfolding all_held_def by blast
  qed
  have old: "policy_job opns cr ?c n = Some i \<Longrightarrow> policy_job opns cr ?c' n = Some i" for n i
    by (simp add: policy_job_def find_job_apply del: apply_call.simps)
  have "flash_inv opns B cr ?c'"
    unfolding flash_inv_def
  proof (intro allI impI)
    fix n nd i
    assume see: "\<not> blind B cr n"
      and n: "node_of ?c' n = Some nd" "policy_job opns cr ?c' n = Some i" "\<not> fst (jobFinished i)"
    have node: "node_of ?c n = Some nd" using n(1) unfolding node_of_def nodes .
    show "held cr nd \<and> to_drain opns cr (cl_pods ?c') n = []"
    proof (cases "policy_job opns cr ?c n")
      case None
      then have "jb_name j = jobName cr n (fs_version (fp_spec cr))"
        using n(2) by (auto simp: policy_job_def find_job_apply simp del: apply_call.simps split: if_splits)
      moreover have "n \<in> N" using node wf wf_name node_of_mem node_of_name by blast
      ultimately have "n = m" using flash_job_facts(2) [OF m(2)] \<open>m \<in> N\<close> assms(3) by (auto simp: inj_on_def)
      then show ?thesis using ready see node None by simp
    next
      case (Some i')
      then show ?thesis using old [OF Some] see n(2,3) node inv by (auto simp: flash_inv_def)
    qed
  qed
  moreover have "jobs_last opns cr N ?c ?c'" using old by (auto simp: jobs_last_def)
  ultimately show ?thesis using wf' nodes by (auto simp: lag_step_def simp del: apply_call.simps)
qed

lemma lag_step_call:
  assumes "lag_inv opns cr N B cs" "views cs VN VJ VP" "names_ok cr N" "drainEnabled cr" "lag_call opns cr B VN VJ VP x"
  shows "lag_step opns cr N B cs (apply_call x (hd cs))"
proof (cases "apply_call x (hd cs) = hd cs")
  case True
  then show ?thesis using lag_step_refl [OF assms(1)] by simp
next
  case False
  then consider base new where "x = CPatchNode base new None" | j where "x = CCreateJob j None"
    by (cases "(x, hd cs)" rule: apply_call.cases) auto
  then show ?thesis
    by cases (use assms lag_step_patch lag_step_create in blast)+
qed

lemma lag_step_env:
  assumes "lag_inv opns cr N B cs" "lag_env opns cr N cs c'"
  shows "lag_step opns cr N B cs c'"
proof -
  have env: "env_step opns cr N (hd cs) c'" and wf: "wf_cluster N (hd cs)"
    using assms by (auto simp: lag_env_def lag_inv_def)
  have "jobs_last opns cr N (hd cs) c'"
    unfolding jobs_last_def
  proof (intro ballI allI impI)
    fix n j assume n: "n \<in> N" "policy_job opns cr (hd cs) n = Some j"
    then obtain j' where j': "policy_job opns cr c' n = Some j'" using assms(2) by (fastforce simp: lag_env_def)
    from env_policy_job [OF env wf n(1) this] n(2) j'
    show "\<exists>j'. policy_job opns cr c' n = Some j' \<and> (fst (jobFinished j) \<longrightarrow> jobFinished j' = jobFinished j)" by auto
  qed
  moreover have "flash_inv opns B cr c'" using env_flash_inv [OF env wf] assms(1) by (simp add: lag_inv_def)
  ultimately show ?thesis using assms(2) env by (auto simp: lag_step_def lag_env_def env_step_def)
qed

section \<open>Every run\<close>

lemma lag_inv_trail:
  assumes "lag_inv opns cr N B cs" "views cs VN VJ VP" "names_ok cr N" "drainEnabled cr"
    "list_all (lag_call opns cr B VN VJ VP) h"
  shows "lag_inv opns cr N B (trail cs h)"
  using assms
proof (induction h arbitrary: cs)
  case (Cons x h)
  have "lag_inv opns cr N B (apply_call x (hd cs) # cs)"
    by (rule lag_inv_step [OF Cons.prems(1) lag_step_call [OF Cons.prems(1-4)]]) (use Cons.prems(5) in simp)
  with Cons show ?case by (simp add: views_Cons)
qed simp

lemma lag_inv_same: "same_policy cr cr' \<Longrightarrow> lag_inv opns cr' = lag_inv opns cr"
  by (intro ext) (simp add: lag_inv_def jobs_last_def held_in_def all_held_def flash_inv_same same_policy_phase)

lemma lag_call_read: "read_call x \<Longrightarrow> lag_call opns cr B VN VJ VP x"
  by (rule lag_call_report) (rule report_read)

lemma lag_reconcile_calls:
  assumes "cached_server p VN VJ VP B" "operatorNamespace p = opns" "hist s = []"
    "\<And>cr'. srv_get_fw (pf_reads p) [] (fp_name cr) = Inr cr' \<Longrightarrow> same_policy cr cr'"
  obtains cr' where "same_policy cr cr'"
    "list_all (lag_call opns cr' B VN VJ VP) (hist (final_of (FirmwareReconcile p (fp_name cr)) s))"
proof -
  let ?h = "hist (final_of (FirmwareReconcile p (fp_name cr)) s)"
  consider "list_all read_call ?h"
    | cr' s' where "same_policy cr cr'" "list_all read_call (hist s')"
      "?h = hist (final_of (reconcile_cr p cr') s')"
    using FirmwareReconcile_runs [OF assms(3), of p cr] assms(4) by blast
  then show thesis
  proof cases
    case 1
    then show ?thesis
      using that [of cr] by (auto simp: same_policy_def list_all_iff intro: lag_call_read)
  next
    case 2
    obtain h where h: "?h = hist s' @ h" "list_all (lag_call opns cr' B VN VJ VP) h"
      using issuesD [OF cached_server.lag_reconcile [OF assms(1), of cr'], of s'] 2(3) assms(2) by auto
    have "list_all (lag_call opns cr' B VN VJ VP) (hist s')"
      using 2(2) lag_call_read by (auto simp: list_all_iff)
    with h show ?thesis using that [OF 2(1)] by simp
  qed
qed

lemma lag_reach_inv:
  assumes "lag_reach opns cr N B cs" "names_ok cr N" "drainEnabled cr"
  shows "lag_inv opns cr N B cs"
  using assms(1)
proof (induction rule: lag_reach.induct)
  case (start c)
  then show ?case
    using start_flash_inv [OF start] wf_held by (auto simp: lag_inv_def jobs_last_def)
next
  case (reconcile cs p VN VJ VP s)
  obtain cr' where cr': "same_policy cr cr'"
    "list_all (lag_call opns cr' B VN VJ VP) (hist (final_of (FirmwareReconcile p (fp_name cr)) s))"
    using lag_reconcile_calls [OF reconcile(2,4,5)] reconcile(6) by metis
  have "jobName cr' n v = jobName cr n v" for n v using cr'(1) by (simp add: same_policy_def jobName_def)
  then have "names_ok cr' N" "drainEnabled cr'"
    using assms(2,3) cr'(1) by (simp_all add: same_policy_def same_drainEnabled [OF cr'(1)])
  then show ?case
    using lag_inv_trail [OF _ reconcile(3) _ _ cr'(2)] reconcile.IH lag_inv_same [OF cr'(1)] by metis
next
  case (env cs c')
  then show ?case using lag_inv_step lag_step_env by blast
qed

text \<open>The Jobs a reconcile adds are flash Jobs.\<close>

lemma lag_jobs:
  "list_all (lag_call opns cr B VN VJ VP) h \<Longrightarrow> j \<in> set (cl_jobs (replay c h)) \<Longrightarrow>
   j \<in> set (cl_jobs c) \<or> (\<exists>n. seen_ready opns cr B VN VP n \<and> flash_job opns cr n j)"
proof (induction h arbitrary: c)
  case (Cons x h)
  have "set (cl_jobs (apply_call x c)) \<subseteq> set (cl_jobs c) \<union> {j. \<exists>n. seen_ready opns cr B VN VP n \<and> flash_job opns cr n j}"
    using Cons.prems(1) by (induction x c rule: apply_call.induct) auto
  with Cons show ?case by fastforce
qed simp

text \<open>C10: A flash runs only on a drained node even if the controller reads from caches that lag behind. With drain
  enabled, whatever earlier clusters its reads show, in whatever order, and whatever calls fail, a flash Job
  that has not ended runs on a node that the policy holds cordoned and that has no device pod to drain;
  except on a node whose own Job lookup fails otherwise than with NotFound. What it takes is that the Pods are
  not read from an older cluster than the Nodes, and that no finished Job is collected within the lag.\<close>

theorem flash_safe_from_caches:
  assumes "lag_reach opns cr N B cs" "fp_name cr \<noteq> []" "inj_on (\<lambda>n. jobName cr n (fs_version (fp_spec cr))) N"
    "drainEnabled cr" "jobName cr n (fs_version (fp_spec cr)) \<notin> B"
    "node_of (hd cs) n = Some nd" "policy_job opns cr (hd cs) n = Some j" "\<not> fst (jobFinished j)"
  shows "nd_unsched nd \<and> sget (nd_annos nd) AnnoCordonedBy = fp_name cr \<and> to_drain opns cr (cl_pods (hd cs)) n = []"
  using lag_reach_inv [OF assms(1)] assms(2-) by (auto simp: lag_inv_def flash_inv_def held_def blind_def)

section \<open>The number of Jobs in flight\<close>

text \<open>Runs in which the Job cache has caught up with the controller's own writes: the list holds the clusters since
  the end of the last reconcile, the newest first, and the next reconcile reads its Jobs from these. The
  Nodes and Pods it reads may be any.\<close>

inductive caught_up :: "string \<Rightarrow> fw_policy \<Rightarrow> string set \<Rightarrow> cluster list \<Rightarrow> bool" for opns cr N where
  start: "wf_cluster N c \<Longrightarrow> list_all (\<lambda>j. \<not> labelled opns cr j) (cl_jobs c) \<Longrightarrow> caught_up opns cr N [c]"
| reconcile: "caught_up opns cr N cs \<Longrightarrow> cached_server p VN VJ VP B \<Longrightarrow> VJ \<subseteq> set cs \<Longrightarrow>
    operatorNamespace p = opns \<Longrightarrow> hist s = [] \<Longrightarrow>
    (\<And>cr'. srv_get_fw (pf_reads p) [] (fp_name cr) = Inr cr' \<Longrightarrow> same_policy cr cr') \<Longrightarrow>
    caught_up opns cr N [replay (hd cs) (hist (final_of (FirmwareReconcile p (fp_name cr)) s))]"
| env: "caught_up opns cr N cs \<Longrightarrow> env_step opns cr N (hd cs) c' \<Longrightarrow> caught_up opns cr N (c' # cs)"

text \<open>Between two reconciles Jobs only end or go, so an older listing shows no fewer of them in flight.\<close>

definition budget_inv :: "string \<Rightarrow> fw_policy \<Rightarrow> string set \<Rightarrow> cluster list \<Rightarrow> bool" where
  "budget_inv opns cr N cs \<longleftrightarrow> cs \<noteq> [] \<and> wf_cluster N (hd cs) \<and> in_flight opns cr (hd cs) \<le> nat (maxParallel cr) \<and>
     (\<forall>v \<in> set cs. in_flight opns cr (hd cs) \<le> in_flight opns cr v)"

lemma count_mset: "mset js = mset ks \<Longrightarrow> countInFlightJobs js = countInFlightJobs ks"
  by (metis count_in_flight mset_filter size_mset)

lemma caught_up_inv: "caught_up opns cr N cs \<Longrightarrow> budget_inv opns cr N cs"
proof (induction rule: caught_up.induct)
  case (start c)
  then have "filter (labelled opns cr) (cl_jobs c) = []" by (auto simp: filter_empty_conv list_all_iff)
  with start show ?case by (simp add: budget_inv_def in_flight_def)
next
  case (reconcile cs p VN VJ VP B s)
  have shown: "in_flight opns cr (hd cs) \<le> countInFlightJobs js"
    if js: "srv_list_jobs (pf_reads p) h opns [(JobLabelCR, fp_name cr)] = Inr js" for h js
  proof -
    obtain v where v: "v \<in> VJ" "mset js = mset (filter (labelled opns cr) (cl_jobs v))"
      using cached_server.list_jobs [OF reconcile(2) js] by (auto simp: labelled_def [abs_def])
    have "in_flight opns cr (hd cs) \<le> in_flight opns cr v"
      using reconcile.IH reconcile(3) v(1) by (auto simp: budget_inv_def)
    then show ?thesis by (simp add: in_flight_def count_mset [OF v(2)])
  qed
  have "in_flight opns cr (replay (hd cs) (hist (final_of (FirmwareReconcile p (fp_name cr)) s)))
      \<le> in_flight opns cr (hd cs) + nat (maxParallel cr - int (in_flight opns cr (hd cs)))"
    by (rule reconcile_adds) (use reconcile(4-6) shown in blast)+
  moreover have "in_flight opns cr (hd cs) \<le> nat (maxParallel cr)" "wf_cluster N (hd cs)"
    using reconcile.IH by (simp_all add: budget_inv_def)
  ultimately show ?case using replay_wf by (auto simp: budget_inv_def)
next
  case (env cs c')
  then have "in_flight opns cr c' \<le> in_flight opns cr (hd cs)" by (intro env_in_flight) (auto simp: budget_inv_def)
  with env show ?case by (auto simp: budget_inv_def env_step_def)
qed

text \<open>C11: The limit of parallel flashes needs fresh Jobs and nothing else: if every listing of the Jobs already shows
  what the last reconcile has written, at most \<open>maxParallel\<close> flash Jobs of the policy have not ended, whatever
  Nodes and Pods the caches show, in whatever order, and whatever calls fail.\<close>

theorem fresh_jobs_keep_limit:
  assumes "caught_up opns cr N cs"
  shows "int (length (filter (\<lambda>j. jb_ns j = opns \<and> jb_labels j JobLabelCR = Some (fp_name cr) \<and>
      \<not> fst (jobFinished j)) (cl_jobs (hd cs)))) \<le> max 0 (maxParallel cr)"
  using caught_up_inv [OF assms] unfolding budget_inv_def in_flight_length by linarith

end
