(* ===== verification/CacheCases.thy ===== *)
theory CacheCases
  imports CacheReads RollOutCases
begin

text \<open>
  What stale reads do to a roll-out: a server whose reads are fixed to old clusters, on which the limit of
  parallel flashes does not hold, and on which a node is flashed whose pods the cache does not show.
\<close>

section \<open>A server with old caches\<close>

text \<open>Writes go to the cluster \<open>c\<close>. The Nodes are those of \<open>vn\<close>, listed in the order of the store or in the reverse
  one, the Jobs those of \<open>vj\<close>, the Pods those of \<open>vp\<close>, whatever has been written.\<close>

definition lag_server :: "platform \<Rightarrow> cluster \<Rightarrow> bool \<Rightarrow> cluster \<Rightarrow> cluster \<Rightarrow> cluster \<Rightarrow> platform" where
  "lag_server q c flip vn vj vp = (mem_server q c)\<lparr>pf_reads := (pf_reads q)\<lparr>
     srv_get_job := (\<lambda>h. srv_get_job (pf_reads (mem_server q vj)) []),
     srv_list_nodes := (\<lambda>h. Inr ((if flip then rev else id) (cl_nodes vn))),
     srv_list_pods := (\<lambda>h. srv_list_pods (pf_reads (mem_server q vp)) []),
     srv_list_jobs := (\<lambda>h. srv_list_jobs (pf_reads (mem_server q vj)) [])\<rparr>\<rparr>"

interpretation lag: cached_server "lag_server q c flip vn vj vp" "{vn}" "{vj}" "{vp}" "{}" for q c flip vn vj vp
proof unfold_locales
  show "srv_patch_node (pf_writes (lag_server q c flip vn vj vp)) h base new = Inr nd \<Longrightarrow> nd_name nd = nd_name new"
    for h base new nd
    using mem.patch_node [of q c h base new nd] by (auto simp: lag_server_def dest: node_of_name)
qed (auto simp: lag_server_def mem_server_def split: option.splits if_splits)

interpretation lag: job_store "lag_server q c flip vn vj vp" c for q c flip vn vj vp
  by unfold_locales (simp add: lag_server_def mem_server_def)

lemma lag_server_fields [simp]:
  "srv_list_nodes (pf_reads (lag_server q c flip vn vj vp)) h = Inr ((if flip then rev else id) (cl_nodes vn))"
  "operatorNamespace (lag_server q c flip vn vj vp) = operatorNamespace q"
  "requireTenstorrentLabel (lag_server q c flip vn vj vp) = requireTenstorrentLabel q"
  "pf_lib (lag_server q c flip vn vj vp) = pf_lib q"
  "srv_get_fw (pf_reads (lag_server q c flip vn vj vp)) = srv_get_fw (pf_reads q)"
  "srv_get_job (pf_reads (lag_server q c flip vn vj vp)) h ns n = (case find_job vj ns n of
     None \<Rightarrow> Inl (Err NotFound ''jobs.batch not found'') | Some j \<Rightarrow> Inr j)"
  "srv_list_pods (pf_reads (lag_server q c flip vn vj vp)) h None [] = Inr (cl_pods vp)"
  "srv_list_jobs (pf_reads (lag_server q c flip vn vj vp)) h ns sel =
     Inr (filter (\<lambda>j. jb_ns j = ns \<and> list_all (\<lambda>(k, v). jb_labels j k = Some v) sel) (cl_jobs vj))"
  by (simp_all add: lag_server_def mem_server_def operatorNamespace_def requireTenstorrentLabel_def os_getenv_def)

section \<open>The first ready node is flashed\<close>

text \<open>The caches show the node as ready and not claimed by another policy.\<close>

definition shown_ready :: "string \<Rightarrow> fw_policy \<Rightarrow> cluster \<Rightarrow> cluster \<Rightarrow> node \<Rightarrow> bool" where
  "shown_ready opns cr vj vp nd \<longleftrightarrow> policy_job opns cr vj (nd_name nd) = None \<and>
     (drainEnabled cr \<longrightarrow> held cr nd \<and> to_drain opns cr (cl_pods vp) (nd_name nd) = []) \<and>
     sget (nd_labels nd) LabelOwnerCR \<in> {[], fp_name cr}"

lemma shown_ready_observed:
  assumes "shown_ready (operatorNamespace q) cr vj vp nd"
  shows "result_of (observeNode (lag_server q c flip vn vj vp) cr nd) s = base_status nd"
  using assms
  by (auto simp: observeNode_cases Let_def shown_ready_def held_def policy_job_def to_drain_def observe_drain_def
      listDevicePodsOnNode_def ListDevicePodsOnNode_def list_pods_def select_pods_eq)

lemma shown_ready_all:
  "\<forall>nd \<in> set nds. shown_ready (operatorNamespace q) cr vj vp nd \<Longrightarrow>
   result_of (observe_all (lag_server q c flip vn vj vp) cr nds) s = map base_status nds"
  by (induction nds arbitrary: s) (simp_all add: shown_ready_observed)

lemma grows_advance_pass: "issues (\<lambda>_. True) (advance_pass p cr stop capacity owned nss)"
  by (rule issues_advance_pass)
    (auto simp: advanceNode_def intro!: frame_rules issues_claimOwnership issues_advance_state)

lemma grows_after_pass: "issues (\<lambda>_. True) (after_pass p cr t keys hlt r)"
  by (rule issues_mono [OF report_after_pass]) simp

lemma lag_claim:
  fixes q c flip vn vj vp
  defines "p \<equiv> lag_server q c flip vn vj vp"
  assumes "nd_name nd \<in> nd_name ` set (cl_nodes c)"
  shows "\<exists>cn. result_of (claimOwnership p nd cr') s = (None, cn) \<and> nd_name cn = nd_name nd"
proof -
  have "nd_name nd \<in> nd_name ` set (cl_nodes (replay c (hist s)))" using assms(2) by (metis image_set replay_names)
  then obtain cur where "node_of (replay c (hist s)) (nd_name nd) = Some cur" using node_of_exists by blast
  then show ?thesis
    by (auto simp: claimOwnership_def labelNode_def patch_node_def p_def lag_server_def mem_server_def dest: node_of_name)
qed

lemma first_pending_flashed:
  fixes q c flip vn vj vp
  defines "p \<equiv> lag_server q c flip vn vj vp"
  assumes "nd_name nd \<in> nd_name ` set (cl_nodes c)" "0 < capacity"
  shows "policy_job (operatorNamespace q) cr (replay c (hist (final_of
    (advance_pass p cr False capacity (nd # rest) (base_status nd # xs)) s))) (nd_name nd) \<noteq> None"
proof -
  have goes: "\<not> waits capacity (nd # rest) (base_status nd)"
    using assms(3) by (simp add: waits_def base_status_def no_message)
  obtain adv e node' ns' where adv: "result_of (advanceNode p cr nd (base_status nd)) s = (adv, e, node', ns')"
    by (metis prod_cases4)
  define u where "u = final_of (advanceNode p cr nd (base_status nd)) s"
  obtain cn where cn: "result_of (claimOwnership p nd (fp_name cr)) s = (None, cn)" "nd_name cn = nd_name nd"
    using lag_claim [OF assms(2), of q flip vn vj vp "fp_name cr" s] by (auto simp: p_def)
  have "u = final_of (spawnFlashJob p cr cn (base_status nd)) (final_of (claimOwnership p nd (fp_name cr)) s)"
    by (simp add: u_def advanceNode_def cn(1) advance_state_def base_status_def)
  then have made: "policy_job (operatorNamespace q) cr (replay c (hist u)) (nd_name nd) \<noteq> None"
    using lag.spawn_stored [of q c flip vn vj vp cr cn "base_status nd"] cn(2) by (simp add: p_def)
  have "final_of (advance_pass p cr False capacity (nd # rest) (base_status nd # xs)) s =
      final_of (advance_pass p cr False (spend capacity (base_status nd) adv ns')
        (store_node (nd # rest) (nd_name nd) node') xs) u"
    using advance_pass_goes(1) [OF goes _ _ refl, of p cr s adv e node' ns' u] adv
    by (simp add: u_def base_status_def)
  then have "issued (\<lambda>_. True) u (final_of (advance_pass p cr False capacity (nd # rest) (base_status nd # xs)) s)"
    by (simp add: issued_keeps [OF grows_advance_pass] del: advance_pass.simps)
  from job_issued [OF this made] show ?thesis .
qed

lemma first_ready_flashed:
  fixes q c flip vn vj vp
  defines "p \<equiv> lag_server q c flip vn vj vp"
  assumes roll: "rolling cr"
    and nodes: "(if flip then rev else id) (cl_nodes vn) = nd # rest"
    and ready: "\<forall>nd \<in> set (cl_nodes vn). shown_ready (operatorNamespace q) cr vj vp nd"
    and sel: "lib_selector (pf_lib q) (EffectiveNodeAffinity (fp_spec cr)) = Inr sel"
      "\<forall>nd \<in> set (cl_nodes vn). matches q sel nd"
    and slots: "int (in_flight (operatorNamespace q) cr vj) < maxParallel cr"
    and there: "nd_name nd \<in> nd_name ` set (cl_nodes c)"
  shows "policy_job (operatorNamespace q) cr (replay c (hist (final_of (reconcile_cr p cr) s))) (nd_name nd) \<noteq> None"
proof -
  define nds where "nds = (if flip then rev else id) (cl_nodes vn)"
  have same: "set nds = set (cl_nodes vn)" by (simp add: nds_def)
  have "filter (matches p sel) nds = nds"
    by (rule filter_True) (use sel(2) same in \<open>auto simp: p_def matches_def\<close>)
  then have m: "result_of (matchedNodes p cr) s = Inr nds"
    using sel(1) by (simp add: p_def matchedNodes_def list_nodes_def filter_matched_filter flip: nds_def)
  have own: "\<forall>x \<in> set nds. sget (nd_labels x) LabelOwnerCR \<in> {[], fp_name cr}"
    using ready same by (auto simp: shown_ready_def)
  then have part: "partitionByOwnership nds (fp_name cr) = (nds, [])"
    by (auto simp: partition_filter filter_empty_conv filter_id_conv)
  have obs: "result_of (observe_all p cr nds) t = map base_status nds" for t
    unfolding p_def by (rule shown_ready_all) (use ready same in simp)
  have "\<not> halted cr (map base_status nds)"
    by (auto simp: halted_def list_ex_iff base_status_def)
  then have stop: "(\<not> autoUpgrade cr \<or> fs_paused (fp_spec cr) \<or> halted cr (map base_status nds)) = False"
    using roll by (simp add: rolling_def)
  define s1 where "s1 = final_of (now p) (final_of (matchedNodes p cr) s)"
  define s2 where "s2 = final_of (observe_all p cr nds) s1"
  obtain js where js: "result_of (jobsForCR p cr) s2 = Inr js" "int (countInFlightJobs js) < maxParallel cr"
    using slots by (simp add: p_def jobsForCR_def list_jobs_def in_flight_def labelled_def [abs_def])
  have run: "final_of (reconcile_cr p cr) s = final_of (roll_out p cr (result_of (now p) (final_of (matchedNodes p cr) s))
      nds (map base_status nds) js) (final_of (jobsForCR p cr) s2)"
    by (simp add: reconcile_cr_def m part obs js s1_def [symmetric] s2_def [symmetric])
  let ?pass = "advance_pass p cr False (maxParallel cr - int (countInFlightJobs js)) nds (map base_status nds)"
  have made: "policy_job (operatorNamespace q) cr (replay c (hist (final_of ?pass t))) (nd_name nd) \<noteq> None" for t
    using first_pending_flashed [OF there, where cr = cr] js(2)
    by (simp add: p_def nds_def nodes del: advance_pass.simps)
  show ?thesis
    unfolding run roll_out_after_pass stop final_of_bind
    by (rule job_issued [OF issued_keeps [OF grows_after_pass] made])
qed

section \<open>Two nodes, one slot\<close>

definition owned_held :: "string \<Rightarrow> node" where
  "owned_held n = (plain_node n)\<lparr>nd_unsched := True, nd_annos := [AnnoCordonedBy \<mapsto> ''fw''],
     nd_labels := [LabelTenstorrentPresent \<mapsto> ''true'', LabelOwnerCR \<mapsto> ''fw'']\<rparr>"

definition two_held :: cluster where
  "two_held = \<lparr>cl_nodes = [owned_held ''n1'', owned_held ''n2''], cl_pods = [], cl_jobs = []\<rparr>"

definition fw_bed :: platform where
  "fw_bed = (testbed [] [] [] [])\<lparr>pf_reads :=
     (pf_reads (testbed [] [] [] []))\<lparr>srv_get_fw := \<lambda>h n. Inr (plain_fw ''fw'')\<rparr>\<rparr>"

lemma fw_bed_fields [simp]:
  "operatorNamespace fw_bed = default_ns" "requireTenstorrentLabel fw_bed"
  "srv_get_fw (pf_reads fw_bed) h n = Inr (plain_fw ''fw'')" "lib_selector (pf_lib fw_bed) ls = Inr (\<lambda>l. True)"
  by (simp_all add: fw_bed_def operatorNamespace_def requireTenstorrentLabel_def os_getenv_def)

lemma owned_held_shown:
  "shown_ready default_ns (plain_fw ''fw'') two_held two_held (owned_held n)" "matches fw_bed (\<lambda>l. True) (owned_held n)"
  by (simp_all add: shown_ready_def policy_job_def find_job_def two_held_def held_def owned_held_def plain_fw_def
      to_drain_def plain_node_def matches_def sget_def const_defs)

lemma two_names: "nd_name (owned_held n) = n" "jobName (plain_fw ''fw'') ''n1'' v \<noteq> jobName (plain_fw ''fw'') ''n2'' v"
proof -
  have "take 11 (jobName (plain_fw ''fw'') ''n1'' v) = ''ttfwp-fw-n1''" "take 11 (jobName (plain_fw ''fw'') ''n2'' v) = ''ttfwp-fw-n2''"
    by (simp_all add: jobName_def Let_def to_lower_def lower_char_def plain_fw_def)
  then show "jobName (plain_fw ''fw'') ''n1'' v \<noteq> jobName (plain_fw ''fw'') ''n2'' v" by auto
qed (simp add: owned_held_def plain_node_def)

lemma two_held_flashed:
  assumes "n = (if flip then ''n2'' else ''n1'')" "hist s = []" "map nd_name (cl_nodes c) = [''n1'', ''n2'']"
  shows "policy_job default_ns (plain_fw ''fw'') (replay c (hist (final_of
    (FirmwareReconcile (lag_server fw_bed c flip two_held two_held two_held) ''fw'') s))) n \<noteq> None"
proof -
  let ?nodes = "(if flip then rev else id) (cl_nodes two_held)"
  have nodes: "?nodes = owned_held n # tl ?nodes" using assms(1) by (simp add: two_held_def)
  have "n \<in> set (map nd_name (cl_nodes c))" using assms(1) unfolding assms(3) by simp
  then have there: "n \<in> nd_name ` set (cl_nodes c)" by simp
  have run: "final_of (FirmwareReconcile (lag_server fw_bed c flip two_held two_held two_held) ''fw'') s =
      final_of (reconcile_cr (lag_server fw_bed c flip two_held two_held two_held) (plain_fw ''fw''))
        (s\<lparr>hist := [CGetFw ''fw'']\<rparr>)"
    using assms(2) by (simp add: FirmwareReconcile_def get_fw_def) (simp add: plain_fw_def)
  show ?thesis
    using first_ready_flashed [OF plain_rolling(1) nodes, of fw_bed two_held two_held "\<lambda>l. True" c] owned_held_shown there
    unfolding run two_names by (auto simp: two_held_def in_flight_def plain_rolling)
qed

text \<open>Two reconciles with caches that still show the cluster before the first one. The second lists the nodes in
  the other order.\<close>

definition first_run :: "cluster list" where
  "first_run = trail [two_held] (hist (final_of
     (FirmwareReconcile (lag_server fw_bed two_held False two_held two_held two_held) ''fw'') init_sys))"

definition stale_run :: "cluster list" where
  "stale_run = trail first_run (hist (final_of
     (FirmwareReconcile (lag_server fw_bed (hd first_run) True two_held two_held two_held) ''fw'') init_sys))"

lemma first_run_mem: "two_held \<in> set first_run"
  by (simp add: first_run_def trail_mem)

lemma plain_same: "srv_get_fw (pf_reads (lag_server fw_bed c flip vn vj vp)) h n = Inr cr' \<Longrightarrow> same_policy (plain_fw ''fw'') cr'"
  by (auto simp: same_policy_def)

lemma plain_name: "fp_name (plain_fw ''fw'') = ''fw''"
  by (simp add: plain_fw_def)

lemma stale_reach:
  "lag_reach default_ns (plain_fw ''fw'') {''n1'', ''n2''} {} first_run"
  "lag_reach default_ns (plain_fw ''fw'') {''n1'', ''n2''} {} stale_run"
proof -
  have start: "lag_reach default_ns (plain_fw ''fw'') {''n1'', ''n2''} {} [two_held]"
    by (rule lag_reach.start) (auto simp: two_held_def wf_cluster_def two_names)
  show first: "lag_reach default_ns (plain_fw ''fw'') {''n1'', ''n2''} {} first_run"
    unfolding first_run_def
    by (rule lag_reach.reconcile [OF start lag.cached_server_axioms, of _ _ _ _ _ _ init_sys, unfolded plain_name])
      (auto simp: views_def init_sys_def intro: plain_same)
  show "lag_reach default_ns (plain_fw ''fw'') {''n1'', ''n2''} {} stale_run"
    unfolding stale_run_def
    by (intro lag_reach.reconcile [OF first lag.cached_server_axioms, of _ _ _ _ _ _ init_sys, unfolded plain_name])
      (auto simp: views_def init_sys_def since_refl first_run_mem intro: plain_same)
qed

lemma stale_hd:
  "hd first_run = replay two_held (hist (final_of (FirmwareReconcile
    (lag_server fw_bed two_held False two_held two_held two_held) ''fw'') init_sys))"
  "hd stale_run = replay (hd first_run) (hist (final_of (FirmwareReconcile
    (lag_server fw_bed (hd first_run) True two_held two_held two_held) ''fw'') init_sys))"
proof -
  have "first_run \<noteq> []" using first_run_mem by auto
  then show "hd stale_run = replay (hd first_run) (hist (final_of (FirmwareReconcile
      (lag_server fw_bed (hd first_run) True two_held two_held two_held) ''fw'') init_sys))"
    unfolding stale_run_def by (rule hd_trail)
qed (simp add: first_run_def hd_trail)

lemma first_run_names: "map nd_name (cl_nodes (hd first_run)) = [''n1'', ''n2'']"
  unfolding stale_hd replay_names by (simp add: two_held_def two_names)

lemma stale_jobs:
  "policy_job default_ns (plain_fw ''fw'') (hd stale_run) ''n1'' \<noteq> None"
  "policy_job default_ns (plain_fw ''fw'') (hd stale_run) ''n2'' \<noteq> None"
proof -
  have init: "hist init_sys = []" by (simp add: init_sys_def)
  show "policy_job default_ns (plain_fw ''fw'') (hd stale_run) ''n2'' \<noteq> None"
    unfolding stale_hd(2) by (rule two_held_flashed [OF _ init first_run_names]) simp
  have "policy_job default_ns (plain_fw ''fw'') (hd first_run) ''n1'' \<noteq> None"
    unfolding stale_hd(1) by (rule two_held_flashed [OF _ init]) (simp_all add: two_held_def two_names)
  then show "policy_job default_ns (plain_fw ''fw'') (hd stale_run) ''n1'' \<noteq> None"
    unfolding stale_hd(2) by (auto simp: policy_job_def find_job_kept)
qed

lemma stale_new_job:
  assumes "j \<in> set (cl_jobs (replay c (hist (final_of
    (FirmwareReconcile (lag_server fw_bed c flip vn vj vp) ''fw'') init_sys))))"
  shows "j \<in> set (cl_jobs c) \<or> labelled default_ns (plain_fw ''fw'') j \<and> \<not> fst (jobFinished j)"
proof -
  obtain cr' where same: "same_policy (plain_fw ''fw'') cr'" and l: "list_all (lag_call default_ns cr' {} {vn} {vj} {vp})
      (hist (final_of (FirmwareReconcile (lag_server fw_bed c flip vn vj vp) ''fw'') init_sys))"
    using lag_reconcile_calls [OF lag.cached_server_axioms, of fw_bed c flip vn vj vp default_ns
      init_sys "plain_fw ''fw''"] plain_same by (auto simp: init_sys_def plain_name)
  from lag_jobs [OF l assms] show ?thesis
  proof
    assume "\<exists>n. seen_ready default_ns cr' {} {vn} {vp} n \<and> flash_job default_ns cr' n j"
    then obtain n where "flash_job default_ns cr' n j" by blast
    from flash_job_facts [OF this] same show ?thesis by (simp add: labelled_def same_policy_def)
  qed simp
qed

lemma stale_run_jobs:
  assumes "j \<in> set (cl_jobs (hd stale_run))"
  shows "labelled default_ns (plain_fw ''fw'') j \<and> \<not> fst (jobFinished j)"
  using stale_new_job [OF assms [unfolded stale_hd(2)]]
proof
  assume "j \<in> set (cl_jobs (hd first_run))"
  from stale_new_job [OF this [unfolded stale_hd(1)]] show ?thesis by (simp add: two_held_def)
qed

text \<open>C28: The limit of parallel flashes does not hold on stale caches. The Jobs in flight are counted on a list that
  comes from the cache, so a reconcile that runs before the cache has seen the Job of the last one, and lists
  the nodes in another order, starts one more: two flashes run at \<open>maxParallel = 1\<close>.\<close>

theorem stale_cache_exceeds_max_parallel:
  "\<exists>cs. lag_reach default_ns (plain_fw ''fw'') {''n1'', ''n2''} {} cs \<and> maxParallel (plain_fw ''fw'') = 1 \<and>
     length (filter (\<lambda>j. jb_ns j = default_ns \<and> jb_labels j JobLabelCR = Some ''fw'' \<and> \<not> fst (jobFinished j))
       (cl_jobs (hd cs))) \<ge> 2"
proof (intro exI conjI)
  show "lag_reach default_ns (plain_fw ''fw'') {''n1'', ''n2''} {} stale_run" by (rule stale_reach)
  show "maxParallel (plain_fw ''fw'') = 1" by (rule plain_rolling)
  obtain j1 j2 where "policy_job default_ns (plain_fw ''fw'') (hd stale_run) ''n1'' = Some j1"
    "policy_job default_ns (plain_fw ''fw'') (hd stale_run) ''n2'' = Some j2"
    using stale_jobs by blast
  then have "j1 \<in> set (cl_jobs (hd stale_run))" "j2 \<in> set (cl_jobs (hd stale_run))" "jb_name j1 \<noteq> jb_name j2"
    using two_names(2) two_names(2) [symmetric] by (auto simp: policy_job_def find_job_def find_Some_iff)
  then have "2 \<le> length (cl_jobs (hd stale_run))"
    by (cases "cl_jobs (hd stale_run)" rule: list.exhaust; cases "tl (cl_jobs (hd stale_run))") auto
  moreover have "filter (\<lambda>j. jb_ns j = default_ns \<and> jb_labels j JobLabelCR = Some ''fw'' \<and> \<not> fst (jobFinished j))
      (cl_jobs (hd stale_run)) = cl_jobs (hd stale_run)"
    using stale_run_jobs by (simp add: filter_id_conv labelled_def plain_name)
  ultimately show "2 \<le> length (filter (\<lambda>j. jb_ns j = default_ns \<and> jb_labels j JobLabelCR = Some ''fw'' \<and>
      \<not> fst (jobFinished j)) (cl_jobs (hd stale_run)))" by simp
qed

text \<open>The second reconcile again, with a Job cache that has caught up: the Nodes and Pods are still the old ones.\<close>

definition caught_cluster :: cluster where
  "caught_cluster = replay (hd first_run) (hist (final_of (FirmwareReconcile
     (lag_server fw_bed (hd first_run) True two_held (hd first_run) two_held) ''fw'') init_sys))"

lemma caught_step:
  assumes "caught_up default_ns (plain_fw ''fw'') N [c]"
  shows "caught_up default_ns (plain_fw ''fw'') N
    [replay c (hist (final_of (FirmwareReconcile (lag_server fw_bed c flip vn c vp) ''fw'') init_sys))]"
  using caught_up.reconcile [OF assms lag.cached_server_axioms [of fw_bed c flip vn c vp], of init_sys] plain_same
  by (auto simp: plain_name init_sys_def)

lemma caught_reach: "caught_up default_ns (plain_fw ''fw'') {''n1'', ''n2''} [caught_cluster]"
  unfolding caught_cluster_def
proof (rule caught_step)
  show "caught_up default_ns (plain_fw ''fw'') {''n1'', ''n2''} [hd first_run]"
    unfolding stale_hd(1)
    by (rule caught_step [OF caught_up.start]) (auto simp: two_held_def wf_cluster_def two_names)
qed

lemma first_run_flashing: "0 < in_flight default_ns (plain_fw ''fw'') (hd first_run)"
proof -
  have "hist init_sys = []" by (simp add: init_sys_def)
  then have "policy_job default_ns (plain_fw ''fw'') (hd first_run) ''n1'' \<noteq> None"
    unfolding stale_hd(1) by (intro two_held_flashed) (simp_all add: two_held_def two_names)
  then obtain j where j: "j \<in> set (cl_jobs (hd first_run))"
    by (auto simp: policy_job_def find_job_def find_Some_iff dest: nth_mem)
  have "labelled default_ns (plain_fw ''fw'') j \<and> \<not> fst (jobFinished j)"
    using stale_new_job [OF j [unfolded stale_hd(1)]] by (simp add: two_held_def)
  with j show ?thesis by (auto simp: in_flight_def count_in_flight filter_empty_conv)
qed

lemma fresh_jobs_keep_limit_witness:
  "length (filter (\<lambda>j. jb_ns j = default_ns \<and> jb_labels j JobLabelCR = Some ''fw'' \<and> \<not> fst (jobFinished j))
     (cl_jobs caught_cluster)) = 1"
proof -
  have "0 < in_flight default_ns (plain_fw ''fw'') caught_cluster"
    unfolding caught_cluster_def by (rule less_le_trans [OF first_run_flashing conjunct1 [OF in_flight_grow]])
  then show ?thesis
    using fresh_jobs_keep_limit [OF caught_reach]
    unfolding in_flight_length plain_name plain_rolling list.sel by linarith
qed

lemma flash_safe_from_caches_witness:
  "\<exists>nd. node_of (hd stale_run) ''n2'' = Some nd \<and> nd_unsched nd"
proof -
  have "map nd_name (cl_nodes (hd stale_run)) = [''n1'', ''n2'']"
    unfolding stale_hd(2) replay_names by (rule first_run_names)
  then have "''n2'' \<in> nd_name ` set (cl_nodes (hd stale_run))" by (metis image_set list.set_intros set_subset_Cons subsetD)
  then obtain nd where nd: "node_of (hd stale_run) ''n2'' = Some nd" using node_of_exists by blast
  obtain j where j: "policy_job default_ns (plain_fw ''fw'') (hd stale_run) ''n2'' = Some j" using stale_jobs(2) by blast
  then have "\<not> fst (jobFinished j)"
    using stale_run_jobs by (auto simp: policy_job_def find_job_def find_Some_iff)
  moreover have "drainEnabled (plain_fw ''fw'')" by (simp add: drainEnabled_def plain_fw_def)
  ultimately show ?thesis
    using flash_safe_from_caches [OF stale_reach(2) _ _ _ _ nd j] nd two_names(2) two_names(2) [symmetric]
    by (simp add: plain_name inj_on_def)
qed

section \<open>Pods older than the Nodes\<close>

text \<open>The order of the caches is needed: with Nodes that show the cordon and Pods from before it, a node is flashed
  on which a device pod runs that was started just before the cordon.\<close>

theorem stale_pods_flash_undrained_node:
  assumes "rolling cr" "cl_nodes vn = [nd]" "shown_ready (operatorNamespace q) cr vj vp nd"
    "lib_selector (pf_lib q) (EffectiveNodeAffinity (fp_spec cr)) = Inr sel" "matches q sel nd"
    "int (in_flight (operatorNamespace q) cr vj) < maxParallel cr"
    "to_drain (operatorNamespace q) cr (cl_pods c) (nd_name nd) \<noteq> []" "nd_name nd \<in> nd_name ` set (cl_nodes c)"
    "c' = replay c (hist (final_of (reconcile_cr (lag_server q c False vn vj vp) cr) s))"
  shows "policy_job (operatorNamespace q) cr c' (nd_name nd) \<noteq> None \<and>
    to_drain (operatorNamespace q) cr (cl_pods c') (nd_name nd) \<noteq> []"
  using first_ready_flashed [OF assms(1), of False vn nd "[]" q vj vp sel c s] assms(2-) by simp

lemma stale_pods_flash_undrained_node_witness:
  "\<exists>c'. policy_job default_ns (plain_fw ''fw'') c' ''n1'' \<noteq> None \<and>
     to_drain default_ns (plain_fw ''fw'') (cl_pods c') ''n1'' \<noteq> []"
proof -
  let ?c = "(fresh_cluster (owned_held ''n1''))\<lparr>cl_pods := [plain_pod ''default'' ''w'' ''n1'']\<rparr>"
  let ?c' = "replay ?c (hist (final_of (reconcile_cr (lag_server fw_bed ?c False (fresh_cluster (owned_held ''n1''))
    two_held two_held) (plain_fw ''fw'')) init_sys))"
  have "to_drain default_ns (plain_fw ''fw'') (cl_pods ?c) ''n1'' \<noteq> []"
    by (simp add: to_drain_def drainable_def plain_pod_def PodUsesTenstorrentDevice_def host_volume_def
        PodIsDaemonSetOwned_def PodIsBare_def IsTerminalPhase_def)
  moreover have "int (in_flight default_ns (plain_fw ''fw'') two_held) < maxParallel (plain_fw ''fw'')"
    by (simp add: in_flight_def two_held_def plain_rolling)
  ultimately show ?thesis
    using stale_pods_flash_undrained_node [OF plain_rolling(1), of "fresh_cluster (owned_held ''n1'')" "owned_held ''n1''"
        fw_bed two_held two_held "\<lambda>l. True" ?c _ init_sys, OF _ _ _ _ _ _ _ refl, unfolded fw_bed_fields two_names]
      owned_held_shown [of "''n1''"]
    by (intro exI [of _ ?c']) (simp add: fresh_cluster_def two_names)
qed

section \<open>Two policies, one node\<close>

text \<open>A policy without drain, whose nodes are neither flashed nor claimed as far as the cluster \<open>c\<close> shows.\<close>

definition unstarted :: "platform \<Rightarrow> cluster \<Rightarrow> node \<Rightarrow> fw_policy \<Rightarrow> bool" where
  "unstarted q c nd cr \<longleftrightarrow> rolling cr \<and> \<not> drainEnabled cr \<and> in_flight (operatorNamespace q) cr c = 0 \<and>
     policy_job (operatorNamespace q) cr c (nd_name nd) = None \<and>
     (\<exists>sel. lib_selector (pf_lib q) (EffectiveNodeAffinity (fp_spec cr)) = Inr sel \<and> matches q sel nd)"

lemma unstarted_flashed:
  assumes "unstarted q v nd cr" "cl_nodes v = [nd]" "sget (nd_labels nd) LabelOwnerCR = []" "hist s = []"
    "nd_name nd \<in> nd_name ` set (cl_nodes c)"
    "c' = replay c (hist (final_of (reconcile_cr (lag_server q c False v v v) cr) s))"
  shows "policy_job (operatorNamespace q) cr c' (nd_name nd) \<noteq> None"
    "j \<in> set (cl_jobs c') \<Longrightarrow> j \<in> set (cl_jobs c) \<or> flash_job (operatorNamespace q) cr (nd_name nd) j"
proof -
  obtain sel where "lib_selector (pf_lib q) (EffectiveNodeAffinity (fp_spec cr)) = Inr sel" "matches q sel nd"
    using assms(1) by (auto simp: unstarted_def)
  then show "policy_job (operatorNamespace q) cr c' (nd_name nd) \<noteq> None"
    using first_ready_flashed [of cr False v nd "[]" q v v sel c s] assms
    by (simp add: unstarted_def shown_ready_def rolling_def)
next
  assume j: "j \<in> set (cl_jobs c')"
  obtain h where "hist (final_of (reconcile_cr (lag_server q c False v v v) cr) s) = h"
    "list_all (lag_call (operatorNamespace q) cr {} {v} {v} {v}) h"
    using issuesD [OF lag.lag_reconcile [of q c False v v v cr], of s] assms(4) by auto
  with j lag_jobs [of "operatorNamespace q" cr "{}" "{v}" "{v}" "{v}" h j c] assms(2,6)
  show "j \<in> set (cl_jobs c) \<or> flash_job (operatorNamespace q) cr (nd_name nd) j"
    by (auto simp: seen_ready_def)
qed

text \<open>C19: Claiming a node does not keep a second policy off it. The claim is a patch without a precondition, decided on
  the cached label: a policy whose cache does not show the claim of another one yet takes the node over and
  flashes it, while the Job of the first still runs.\<close>

theorem stale_claims_flash_one_node_twice:
  assumes "unstarted q c nd a" "unstarted q c nd b" "cl_nodes c = [nd]" "sget (nd_labels nd) LabelOwnerCR = []"
    "jobName a (nd_name nd) (fs_version (fp_spec a)) \<noteq> jobName b (nd_name nd) (fs_version (fp_spec b))"
    "hist s = []" "hist t = []"
    "c' = replay c (hist (final_of (reconcile_cr (lag_server q c False c c c) a) s))"
    "c'' = replay c' (hist (final_of (reconcile_cr (lag_server q c' False c c c) b) t))"
  shows "\<exists>i j. i \<in> set (cl_jobs c'') \<and> j \<in> set (cl_jobs c'') \<and>
    jb_labels i JobLabelCR = Some (fp_name a) \<and> jb_labels j JobLabelCR = Some (fp_name b) \<and>
    jb_labels i JobLabelNode = Some (nd_name nd) \<and> jb_labels j JobLabelNode = Some (nd_name nd) \<and>
    \<not> fst (jobFinished i) \<and> \<not> fst (jobFinished j)"
proof -
  let ?o = "operatorNamespace q"
  have names: "nd_name nd \<in> nd_name ` set (cl_nodes c)" "nd_name nd \<in> nd_name ` set (cl_nodes c')"
    using assms(3) by (simp, metis assms(8) image_set list.set_intros(1) list.simps(9) replay_names)
  note first = unstarted_flashed [OF assms(1,3,4,6) names(1) assms(8)]
  note second = unstarted_flashed [OF assms(2,3,4,7) names(2) assms(9)]
  have old: "policy_job ?o a c (nd_name nd) = None" "policy_job ?o b c (nd_name nd) = None"
    using assms(1,2) by (auto simp: unstarted_def)
  obtain i where i: "policy_job ?o a c' (nd_name nd) = Some i" using first(1) by blast
  then have "i \<in> set (cl_jobs c')" "i \<notin> set (cl_jobs c)"
    using old(1) by (auto simp: policy_job_def find_job_def find_Some_iff find_None_iff)
  then have fi: "flash_job ?o a (nd_name nd) i" using first(2) by blast
  have "policy_job ?o a c'' (nd_name nd) = Some i" using i by (simp add: policy_job_def find_job_kept assms(9))
  then have ti: "i \<in> set (cl_jobs c'')" by (auto simp: policy_job_def find_job_def find_Some_iff)
  obtain j where j: "policy_job ?o b c'' (nd_name nd) = Some j" using second(1) by blast
  then have jn: "j \<in> set (cl_jobs c'')" "j \<notin> set (cl_jobs c)" "jb_name j = jobName b (nd_name nd) (fs_version (fp_spec b))"
    using old(2) by (auto simp: policy_job_def find_job_def find_Some_iff find_None_iff)
  have "\<not> flash_job ?o a (nd_name nd) j" using jn(3) assms(5) flash_job_facts(2) by fastforce
  then have fj: "flash_job ?o b (nd_name nd) j" using jn first(2) second(2) by blast
  show ?thesis
    using ti jn(1) flash_job_facts [OF fi] flash_job_facts [OF fj] by (intro exI [of _ i] exI [of _ j]) simp
qed

text \<open>Two policies on the node \<open>n1\<close>, which nobody has claimed.\<close>

definition no_drain :: "string \<Rightarrow> fw_policy" where
  "no_drain n = (plain_fw n)\<lparr>fp_spec := (fp_spec (plain_fw n))\<lparr>fs_upgrade := (fs_upgrade (fp_spec (plain_fw n)))\<lparr>fu_drain :=
     (fu_drain (fs_upgrade (fp_spec (plain_fw n))))\<lparr>fd_enable := Some False\<rparr>\<rparr>\<rparr>\<rparr>"

lemma no_drain_unstarted: "n \<noteq> [] \<Longrightarrow> unstarted fw_bed (fresh_cluster (plain_node ''n1'')) (plain_node ''n1'') (no_drain n)"
  by (simp add: unstarted_def rolling_def no_drain_def plain_fw_def autoUpgrade_def maxParallel_def drainEnabled_def
      in_flight_def fresh_cluster_def policy_job_def find_job_def matches_def plain_node_def sget_def const_defs)

lemma stale_claims_flash_one_node_twice_witness:
  "\<exists>(c::cluster) i j. i \<in> set (cl_jobs c) \<and> j \<in> set (cl_jobs c) \<and>
     jb_labels i JobLabelCR = Some ''a'' \<and> jb_labels j JobLabelCR = Some ''b'' \<and>
     jb_labels i JobLabelNode = Some ''n1'' \<and> jb_labels j JobLabelNode = Some ''n1'' \<and>
     \<not> fst (jobFinished i) \<and> \<not> fst (jobFinished j)"
proof -
  have t: "take 7 (jobName (no_drain ''a'') ''n1'' v) = ''ttfwp-a''" "take 7 (jobName (no_drain ''b'') ''n1'' v) = ''ttfwp-b''" for v
    by (simp_all add: jobName_def Let_def to_lower_def lower_char_def no_drain_def plain_fw_def)
  have names: "jobName (no_drain ''a'') ''n1'' v \<noteq> jobName (no_drain ''b'') ''n1'' w" for v w
  proof
    assume "jobName (no_drain ''a'') ''n1'' v = jobName (no_drain ''b'') ''n1'' w"
    then have "''ttfwp-a'' = ''ttfwp-b''" using t(1) [of v] t(2) [of w] by metis
    then show False by simp
  qed
  have f: "fp_name (no_drain n) = n" "nd_name (plain_node ''n1'') = ''n1''"
    "cl_nodes (fresh_cluster (plain_node ''n1'')) = [plain_node ''n1'']"
    "sget (nd_labels (plain_node ''n1'')) LabelOwnerCR = []" "hist init_sys = []" for n
    by (simp_all add: no_drain_def plain_fw_def plain_node_def sget_def const_defs fresh_cluster_def init_sys_def)
  have u: "unstarted fw_bed (fresh_cluster (plain_node ''n1'')) (plain_node ''n1'') (no_drain ''a'')"
    "unstarted fw_bed (fresh_cluster (plain_node ''n1'')) (plain_node ''n1'') (no_drain ''b'')"
    by (simp_all add: no_drain_unstarted)
  let ?n = "fresh_cluster (plain_node ''n1'')"
  define c' where "c' = replay ?n (hist (final_of (reconcile_cr (lag_server fw_bed ?n False ?n ?n ?n) (no_drain ''a'')) init_sys))"
  define c'' where "c'' = replay c' (hist (final_of (reconcile_cr (lag_server fw_bed c' False ?n ?n ?n) (no_drain ''b'')) init_sys))"
  from stale_claims_flash_one_node_twice [OF u f(3,4) _ f(5) f(5) c'_def c''_def, unfolded f(1,2), OF names]
  show ?thesis by blast
qed

end
