(* ===== verification/DaemonSet.thy ===== *)
theory DaemonSet
  imports FlashJob
begin

text \<open>
  The builder DaemonSet of \<open>internal/controller/driver_policy_controller.go\<close>: how it is rendered from a
  driver policy, and the template hash by which a later reconcile notices drift.
\<close>

section \<open>Selector requirements\<close>

text \<open>The four operators are carried over; any other string becomes the zero value.\<close>

fun node_selector_op :: "lsel_op option \<Rightarrow> lsel_op option" where
  "node_selector_op (Some SelIn) = Some SelIn"
| "node_selector_op (Some SelNotIn) = Some SelNotIn"
| "node_selector_op (Some SelExists) = Some SelExists"
| "node_selector_op (Some SelDoesNotExist) = Some SelDoesNotExist"
| "node_selector_op None = None"

definition labelSelectorToExpressions :: "label_selector \<Rightarrow> requirement list" where
  "labelSelectorToExpressions sel =
     map (\<lambda>(k, v). \<lparr>rq_key = k, rq_op = Some SelIn, rq_values = [v]\<rparr>) (match_labels sel) @
     map (\<lambda>e. \<lparr>rq_key = rq_key e, rq_op = node_selector_op (rq_op e), rq_values = rq_values e\<rparr>)
       (match_exprs sel)"

text \<open>Lines 622-632: the one term of the DaemonSet's required node affinity.\<close>

definition driver_node_term :: "drv_policy \<Rightarrow> requirement list" where
  "driver_node_term cr =
     labelSelectorToExpressions (DriverEffectiveNodeAffinity (dp_spec cr)) @
     [\<lparr>rq_key = LabelTenstorrentPresent, rq_op = Some SelIn, rq_values = [''true'']\<rparr>,
      \<lparr>rq_key = LabelDriverSkip, rq_op = Some SelDoesNotExist, rq_values = []\<rparr>]"

section \<open>The template\<close>

definition driverDaemonSetName :: "string \<Rightarrow> string" where
  "driverDaemonSetName crName = ''ttdrv-'' @ crName"

definition defaultDriverImage :: "platform \<Rightarrow> string" where
  "defaultDriverImage p =
     (let v = envOrDefault p ''DRIVER_IMAGE'' []
      in if v \<noteq> [] then v else ''ghcr.io/tenstorrent/tt-k8s-driver-manager-builder:dev'')"

definition driver_image :: "platform \<Rightarrow> drv_policy \<Rightarrow> string" where
  "driver_image p cr =
     (case dv_installer (dp_spec cr) of
        None \<Rightarrow> defaultDriverImage p
      | Some i \<Rightarrow> (if io_image i \<noteq> [] then io_image i else defaultDriverImage p))"

definition driver_pull_policy :: "drv_policy \<Rightarrow> string" where
  "driver_pull_policy cr =
     (case dv_installer (dp_spec cr) of
        None \<Rightarrow> ''IfNotPresent''
      | Some i \<Rightarrow> (if io_pull i \<noteq> [] then io_pull i else ''IfNotPresent''))"

definition driver_pod_labels :: "drv_policy \<Rightarrow> labels" where
  "driver_pod_labels cr =
     [''app.kubernetes.io/name'' \<mapsto> ''tt-kmd-installer'',
      ''app.kubernetes.io/component'' \<mapsto> ''driver'',
      ''driver.tenstorrent.com/cr'' \<mapsto> dp_name cr]"

definition proxy_vars :: "string list" where
  "proxy_vars = [''HTTPS_PROXY'', ''HTTP_PROXY'', ''NO_PROXY'', ''https_proxy'', ''http_proxy'',
     ''no_proxy'']"

definition builder_env :: "platform \<Rightarrow> drv_policy \<Rightarrow> env_var list" where
  "builder_env p cr =
     [env_lit ''TT_KMD_VERSION'' (dv_version (dp_spec cr)),
      \<lparr>ev_name = ''NODE_NAME'', ev_value = [], ev_field = Some ''spec.nodeName''\<rparr>,
      env_lit ''TT_FORCE_UNLOAD'' (boolEnv (du_force_unload (dv_upgrade (dp_spec cr))))] @
     concat (map (\<lambda>k. let v = os_getenv p k in if v \<noteq> [] then [env_lit k v] else []) proxy_vars)"

definition builder_probe :: probe where
  "builder_probe = \<lparr>pr_exec = [''test'', ''-f'', ''/tmp/ready''], pr_initial_delay = 5,
     pr_period = 10, pr_failure = 30, pr_success = 1, pr_timeout = 5\<rparr>"

definition builder_container :: "platform \<Rightarrow> drv_policy \<Rightarrow> container" where
  "builder_container p cr = zero_container\<lparr>
     ct_name := ''builder'',
     ct_image := driver_image p cr,
     ct_pull := driver_pull_policy cr,
     ct_env := builder_env p cr,
     ct_privileged := True,
     ct_mounts := [
       mount ''lib-modules'' ''/lib/modules'' True,
       mount ''usr-src'' ''/usr/src'' True,
       mount ''tt-kmd-cache'' ''/var/cache/tt-kmd'' False,
       mount ''var-lib-dkms'' ''/var/lib/dkms'' True,
       mount ''host-opt'' ''/host/opt'' False,
       mount ''host-usr-local-bin'' ''/host/usr/local/bin'' False,
       mount ''host-udev-rules'' ''/host/etc/udev/rules.d'' False,
       mount ''host-dev'' ''/host/dev'' False],
     ct_readiness := Some builder_probe\<rparr>"

definition builder_volumes :: "volume list" where
  "builder_volumes = [
     host_volume ''lib-modules'' ''/lib/modules'' (Some ''Directory''),
     host_volume ''usr-src'' ''/usr/src'' (Some ''Directory''),
     host_volume ''tt-kmd-cache'' ''/var/cache/tt-kmd'' (Some ''DirectoryOrCreate''),
     host_volume ''var-lib-dkms'' ''/var/lib/dkms'' (Some ''DirectoryOrCreate''),
     host_volume ''host-opt'' ''/opt'' (Some ''DirectoryOrCreate''),
     host_volume ''host-usr-local-bin'' ''/usr/local/bin'' (Some ''DirectoryOrCreate''),
     host_volume ''host-udev-rules'' ''/etc/udev/rules.d'' (Some ''DirectoryOrCreate''),
     host_volume ''host-dev'' ''/dev'' (Some ''Directory'')]"

definition builder_pod :: "platform \<Rightarrow> drv_policy \<Rightarrow> pod_spec" where
  "builder_pod p cr = zero_pod_spec\<lparr>
     ps_hostpid := du_force_unload (dv_upgrade (dp_spec cr)),
     ps_sa := envOrDefault p ''INSTALLER_SERVICE_ACCOUNT'' ''tt-k8s-driver-manager-installer'',
     ps_tolerations := [''Exists''],
     ps_affinity := [driver_node_term cr],
     ps_priority := ''system-node-critical'',
     ps_containers := [builder_container p cr],
     ps_volumes := builder_volumes\<rparr>"

definition driver_strategy :: update_strategy where
  "driver_strategy = \<lparr>us_type = ''RollingUpdate'', us_max_unavailable = ''25%''\<rparr>"

section \<open>The template hash\<close>

definition dsTemplateHashAnnotation :: string where [const_defs]:
  "dsTemplateHashAnnotation = ''driver.tenstorrent.com/template-hash''"

definition computeDSTemplateHash :: "platform \<Rightarrow> daemonset \<Rightarrow> string" where
  "computeDSTemplateHash p ds =
     take 16 (EncodeToString (Sum256 (bytes_of_string
       (lib_ds_json (pf_lib p) (dsp_pod (dm_spec ds)) (dsp_strategy (dm_spec ds))))))"

definition driver_owner_refs :: "drv_policy \<Rightarrow> owner_ref list" where
  "driver_owner_refs cr = [
     \<lparr>or_api = ''driver.tenstorrent.com/v1alpha1'', or_kind = ''TenstorrentDriverPolicy'',
      or_name = dp_name cr, or_uid = dp_uid cr, or_controller = True, or_block = True\<rparr>]"

definition buildDaemonSet :: "platform \<Rightarrow> drv_policy \<Rightarrow> string \<Rightarrow> daemonset" where
  "buildDaemonSet p cr name =
     (let ds = \<lparr>dm_name = name,
            dm_ns = operatorNamespace p,
            dm_labels = driver_pod_labels cr,
            dm_annos = Map.empty,
            dm_owners = driver_owner_refs cr,
            dm_spec = \<lparr>dsp_strategy = driver_strategy,
              dsp_selector = driver_pod_labels cr,
              dsp_labels = driver_pod_labels cr,
              dsp_pod = builder_pod p cr\<rparr>,
            dm_status = \<lparr>dss_desired = 0, dss_ready = 0, dss_available = 0\<rparr>\<rparr>
      in ds\<lparr>dm_annos := [dsTemplateHashAnnotation \<mapsto> computeDSTemplateHash p ds]\<rparr>)"

definition daemonSetNeedsUpdate :: "daemonset \<Rightarrow> daemonset \<Rightarrow> bool" where
  "daemonSetNeedsUpdate existing desired \<longleftrightarrow>
     sget (dm_annos existing) dsTemplateHashAnnotation
       \<noteq> sget (dm_annos desired) dsTemplateHashAnnotation"

end
