(* ===== verification/DriverNode.thy ===== *)
theory DriverNode
  imports DaemonSet Metrics
begin

text \<open>
  The per-node view of \<open>internal/controller/driver_policy_controller.go\<close>: what is read off a builder
  pod, the state and reason of a node, and the event a change of them emits.
\<close>

section \<open>Builder pods\<close>

definition podEnv :: "pod \<Rightarrow> string \<Rightarrow> string" where
  "podEnv pd name =
     (case ps_containers (pd_spec pd) of
        [] \<Rightarrow> []
      | c # _ \<Rightarrow> (case find (\<lambda>e. ev_name e = name) (ct_env c) of
                   None \<Rightarrow> [] | Some e \<Rightarrow> ev_value e))"

text \<open>The loop over the conditions that looks for \<open>PodReady\<close> being true, which three functions
  share.\<close>

definition pod_ready :: "pod \<Rightarrow> bool" where
  "pod_ready pd = list_ex (\<lambda>(t, st). t = ''Ready'' \<and> st = ConditionTrue) (pd_conds pd)"

record podInfo =
  pi_version :: string
  pi_ready :: bool
  pi_restarts :: int32
  pi_waiting :: string

definition zero_podInfo :: podInfo where
  "zero_podInfo = \<lparr>pi_version = [], pi_ready = False, pi_restarts = 0, pi_waiting = []\<rparr>"

text \<open>Lines 360-382: the info of one pod, from its first container status.\<close>

definition pod_info :: "pod \<Rightarrow> podInfo" where
  "pod_info pd =
     \<lparr>pi_version = podEnv pd ''TT_KMD_VERSION'',
      pi_ready = pod_ready pd,
      pi_restarts = (case pd_cstat pd of [] \<Rightarrow> 0 | cs # _ \<Rightarrow> cs_restarts cs),
      pi_waiting = (case pd_cstat pd of
          [] \<Rightarrow> []
        | cs # _ \<Rightarrow> (case cs_waiting cs of None \<Rightarrow> [] | Some r \<Rightarrow> r))\<rparr>"

text \<open>The map \<open>byNode\<close>: a later pod of the same node overwrites an earlier one.\<close>

fun pods_by_node :: "(string \<rightharpoonup> podInfo) \<Rightarrow> pod list \<Rightarrow> (string \<rightharpoonup> podInfo)" where
  "pods_by_node m [] = m"
| "pods_by_node m (pd # pds) =
     (if ps_node (pd_spec pd) = [] then pods_by_node m pds
      else pods_by_node (m(ps_node (pd_spec pd) \<mapsto> pod_info pd)) pds)"

definition info_of :: "(string \<rightharpoonup> podInfo) \<Rightarrow> string \<Rightarrow> podInfo" where
  "info_of m n = (case m n of None \<Rightarrow> zero_podInfo | Some i \<Rightarrow> i)"

section \<open>State and reason\<close>

definition computeDriverNodeStateReason ::
  "node \<Rightarrow> podInfo \<Rightarrow> drv_policy \<Rightarrow> drv_state \<times> string \<times> string" where
  "computeDriverNodeStateReason node info cr =
     (let target = dv_version (dp_spec cr);
          cordonedByUs = (sget (nd_annos node) AnnoDriverCordonedBy = dp_name cr)
      in if sget (nd_labels node) LabelInstallMode = ''host'' then
           (DrvHostManaged, ReasonHostManagedKMD,
            ''DKMS / host-managed kmd detected; operator standing down (see node label '' @
            LabelInstallMode @ ''=host)'')
         else if pi_waiting info = ''ImagePullBackOff'' \<or> pi_waiting info = ''ErrImagePull'' then
           (DrvFailed, ReasonBuilderImagePullFailed,
            ''kubelet: '' @ pi_waiting info @
            '' (check imagePullSecrets on the installer ServiceAccount)'')
         else if 3 \<le> sint (pi_restarts info) \<and> \<not> pi_ready info then
           (DrvFailed, ReasonBuilderCrashLoop,
            ''builder pod CrashLoopBackOff (restarts='' @ show_int (sint (pi_restarts info)) @
            ''); kubectl logs the pod for the underlying error '' @
            ''(rmmod / build / insmod / missing headers)'')
         else if pi_ready info \<and> pi_version info = target then
           (if cordonedByUs
            then (DrvUncordoning, ReasonUncordoning,
                  ''build succeeded; cordon will be lifted on next reconcile'')
            else (DrvDone, ReasonReady, []))
         else if pi_version info = target then
           (DrvUpgrading, ReasonInstalling,
            ''builder pod running; waiting on readiness probe '' @
            ''(cat /sys/module/tenstorrent/version)'')
         else if cordonedByUs then
           (DrvDraining, ReasonDraining,
            ''node cordoned; evicting /dev/tenstorrent holders before builder rolls'')
         else (DrvPending, [], []))"

section \<open>Events\<close>

definition driver_event_type :: "drv_state \<Rightarrow> string \<Rightarrow> event_type" where
  "driver_event_type state reason =
     (if reason \<in> {ReasonBuilderImagePullFailed, ReasonBuilderCrashLoop} \<or> state = DrvFailed
      then EventTypeWarning else EventTypeNormal)"

definition recordDriverNodeStateEvent ::
  "platform \<Rightarrow> drv_policy \<Rightarrow> string \<Rightarrow> drv_state \<Rightarrow> string \<Rightarrow> string \<Rightarrow> unit io" where
  "recordDriverNodeStateEvent p cr nodeName state reason msg =
     (if \<not> pf_recorder p \<or> reason = [] then State_Monad.return ()
      else (let body = (if msg \<noteq> [] then nodeName @ '': '' @ msg else nodeName)
            in emit_event (Event (dp_name cr) (driver_event_type state reason) reason body)))"

end
