(* ===== verification/DriverDrain.thy ===== *)
theory DriverDrain
  imports DriverNode
begin

text \<open>
  \<open>internal/controller/driver_drain.go\<close>: the cooperative drain around a kmd upgrade. Before the
  DaemonSet template changes, every matched node is cordoned, its deploy gates are set to
  \<open>"false"\<close> and its pods are evicted in two passes; afterwards the nodes whose builder is ready at
  the target version are opened again.
\<close>

section \<open>Switches\<close>

definition defaultDriverDeployGates :: "string list" where
  "defaultDriverDeployGates = [''tenstorrent.com/deploy.tt-telemetry'']"

definition driverDeployGates :: "platform \<Rightarrow> string list" where
  "driverDeployGates p =
     (let (raw, set) = envSet p ''DRIVER_DEPLOY_GATES''
      in if \<not> set then defaultDriverDeployGates
         else filter (\<lambda>g. g \<noteq> []) (map trim_space (split_at (CHR '','') raw)))"

definition drainEnabledForCR :: "drv_policy \<Rightarrow> bool" where
  "drainEnabledForCR cr =
     (case dd_enable (du_drain (dv_upgrade (dp_spec cr))) of None \<Rightarrow> True | Some b \<Rightarrow> b)"

definition fullNodeDrainEnabledForCR :: "drv_policy \<Rightarrow> bool" where
  "fullNodeDrainEnabledForCR cr =
     (case dd_full_node (du_drain (dv_upgrade (dp_spec cr))) of None \<Rightarrow> True | Some b \<Rightarrow> b)"

definition deleteEmptyDirForCR :: "drv_policy \<Rightarrow> bool" where
  "deleteEmptyDirForCR cr =
     (case dd_delete_empty_dir (du_drain (dv_upgrade (dp_spec cr))) of None \<Rightarrow> True | Some b \<Rightarrow> b)"

section \<open>Deploy gates\<close>

text \<open>The loops over the gate keys: the labels after them, and whether one changed.\<close>

fun gates_off :: "string list \<Rightarrow> labels \<Rightarrow> labels \<times> bool" where
  "gates_off [] l = (l, False)"
| "gates_off (key # keys) l =
     (if sget l key \<noteq> ''false''
      then (let (l', _) = gates_off keys (l(key \<mapsto> ''false'')) in (l', True))
      else gates_off keys l)"

fun gates_removed :: "string list \<Rightarrow> labels \<Rightarrow> labels \<times> bool" where
  "gates_removed [] l = (l, False)"
| "gates_removed (key # keys) l =
     (case l key of
        Some _ \<Rightarrow> (let (l', _) = gates_removed keys (l(key := None)) in (l', True))
      | None \<Rightarrow> gates_removed keys l)"

definition flipDeployGatesOff :: "platform \<Rightarrow> node \<Rightarrow> (err option \<times> node) io" where
  "flipDeployGatesOff p node =
     (let (l, changed) = gates_off (driverDeployGates p) (nd_labels node)
      in if \<not> changed then State_Monad.return (None, node)
         else patch_node p node (node\<lparr>nd_labels := l\<rparr>))"

definition removeDeployGates :: "platform \<Rightarrow> node \<Rightarrow> (err option \<times> node) io" where
  "removeDeployGates p node =
     (let (l, changed) = gates_removed (driverDeployGates p) (nd_labels node)
      in if \<not> changed then State_Monad.return (None, node)
         else patch_node p node (node\<lparr>nd_labels := l\<rparr>))"

definition driverCordonOpts :: "string \<Rightarrow> cordon_opts" where
  "driverCordonOpts crName =
     \<lparr>co_by = AnnoDriverCordonedBy, co_at = AnnoDriverCordonedAt, co_owner = crName\<rparr>"

section \<open>Matched nodes\<close>

fun filter_driver_matched :: "platform \<Rightarrow> (labels \<Rightarrow> bool) \<Rightarrow> node list \<Rightarrow> node list" where
  "filter_driver_matched p sel [] = []"
| "filter_driver_matched p sel (n # ns) =
     (let l = nd_labels n in
      if \<not> sel l then filter_driver_matched p sel ns
      else if requireTenstorrentLabel p \<and> sget l LabelTenstorrentPresent \<noteq> ''true''
        then filter_driver_matched p sel ns
      else if sget l LabelDriverSkip = ''true'' then filter_driver_matched p sel ns
      else n # filter_driver_matched p sel ns)"

definition listMatchedNodes :: "platform \<Rightarrow> drv_policy \<Rightarrow> (err + node list) io" where
  "listMatchedNodes p cr =
     (case lib_selector (pf_lib p) (DriverEffectiveNodeAffinity (dp_spec cr)) of
        Inl e \<Rightarrow> State_Monad.return (Inl e)
      | Inr sel \<Rightarrow> do {
          r \<leftarrow> list_nodes p;
          State_Monad.return (case r of
            Inl e \<Rightarrow> Inl e
          | Inr items \<Rightarrow> Inr (filter_driver_matched p sel items))
        })"

text \<open>The counting loop of \<open>countMatchedNodes\<close>: an \<open>int32\<close> that wraps.\<close>

fun count_driver_matched :: "platform \<Rightarrow> (labels \<Rightarrow> bool) \<Rightarrow> node list \<Rightarrow> int32" where
  "count_driver_matched p sel [] = 0"
| "count_driver_matched p sel (n # ns) =
     (let l = nd_labels n in
      if \<not> sel l then count_driver_matched p sel ns
      else if requireTenstorrentLabel p \<and> sget l LabelTenstorrentPresent \<noteq> ''true''
        then count_driver_matched p sel ns
      else if sget l LabelDriverSkip = ''true'' then count_driver_matched p sel ns
      else count_driver_matched p sel ns + 1)"

definition countMatchedNodes :: "platform \<Rightarrow> drv_policy \<Rightarrow> (err + int32) io" where
  "countMatchedNodes p cr =
     (case lib_selector (pf_lib p) (DriverEffectiveNodeAffinity (dp_spec cr)) of
        Inl e \<Rightarrow> State_Monad.return (Inl e)
      | Inr sel \<Rightarrow> do {
          r \<leftarrow> list_nodes p;
          State_Monad.return (case r of
            Inl e \<Rightarrow> Inl e
          | Inr items \<Rightarrow> Inr (count_driver_matched p sel items))
        })"

section \<open>Before the upgrade\<close>

definition buildFullNodeDrainFilter :: "platform \<Rightarrow> drv_policy \<Rightarrow> err + pod_filter" where
  "buildFullNodeDrainFilter p cr =
     (let raw = dd_pod_selector (du_drain (dv_upgrade (dp_spec cr)));
          deleteEmpty = deleteEmptyDirForCR cr;
          mk = (\<lambda>sel pd. if \<not> sel (pd_labels pd) then False
                 else if \<not> deleteEmpty \<and> PodHasEmptyDir pd then False
                 else True)
      in if raw = [] then Inr (mk (\<lambda>_. True))
         else (case lib_parse (pf_lib p) raw of
                 Inl e \<Rightarrow> Inl (wrap (''parse podSelectorLabel \"'' @ raw @ ''\"'') e)
               | Inr sel \<Rightarrow> Inr (mk sel)))"

fun evict_each :: "platform \<Rightarrow> string \<Rightarrow> string \<Rightarrow> pod list \<Rightarrow> unit io" where
  "evict_each p crName passLabel [] = State_Monad.return ()"
| "evict_each p crName passLabel (pd # pds) = do {
     r \<leftarrow> EvictPod p pd;
     (case r of
        Some (ErrEvictionBlocked _) \<Rightarrow> metric (MInc DriverDrainBlockedTotal [crName, passLabel])
      | Some (EvictFailed _) \<Rightarrow> inc_driver_error crName ''evict_pod''
      | None \<Rightarrow> metric (MInc DriverPodsEvictedTotal [crName, passLabel]));
     evict_each p crName passLabel pds
   }"

definition evictMatching ::
  "platform \<Rightarrow> string \<Rightarrow> string \<Rightarrow> bool \<Rightarrow> pod_filter \<Rightarrow> string \<Rightarrow> unit io" where
  "evictMatching p crName nodeName force flt passLabel = do {
     r \<leftarrow> ListDevicePodsOnNode p nodeName (operatorNamespace p) force (Some flt);
     (case r of
        Inl e \<Rightarrow> inc_driver_error crName ''list_pods_for_drain''
      | Inr pods \<Rightarrow> evict_each p crName passLabel pods)
   }"

text \<open>The body of the loop of \<open>prepareUpgrade\<close>: a node that cannot be cordoned is left alone; the
  error of the gate flip is only logged.\<close>

definition prepare_node :: "platform \<Rightarrow> drv_policy \<Rightarrow> pod_filter \<Rightarrow> node \<Rightarrow> unit io" where
  "prepare_node p cr pass2Filter node = do {
     let force = dd_force (du_drain (dv_upgrade (dp_spec cr)));
     (e, node) \<leftarrow> CordonNode p node (driverCordonOpts (dp_name cr));
     (case e of
        Some _ \<Rightarrow> State_Monad.return ()
      | None \<Rightarrow> do {
          (_, node) \<leftarrow> flipDeployGatesOff p node;
          evictMatching p (dp_name cr) (nd_name node) force PodUsesTenstorrentDevice DrainPass1;
          (if fullNodeDrainEnabledForCR cr
           then evictMatching p (dp_name cr) (nd_name node) force pass2Filter DrainPass2
           else State_Monad.return ())
        })
   }"

definition prepareUpgrade :: "platform \<Rightarrow> drv_policy \<Rightarrow> err option io" where
  "prepareUpgrade p cr = do {
     r \<leftarrow> listMatchedNodes p cr;
     (case r of
        Inl e \<Rightarrow> State_Monad.return (Some (wrap ''list matched nodes'' e))
      | Inr nodes \<Rightarrow>
          (case buildFullNodeDrainFilter p cr of
             Inl e \<Rightarrow> State_Monad.return (Some (wrap ''build full-node drain filter'' e))
           | Inr pass2Filter \<Rightarrow> do {
               each (prepare_node p cr pass2Filter) nodes;
               State_Monad.return None
             }))
   }"

section \<open>After the upgrade\<close>

text \<open>The map \<open>readyAtTarget\<close>: nodes with a ready builder pod templated at the target version.\<close>

definition ready_at_target :: "drv_policy \<Rightarrow> pod list \<Rightarrow> string \<Rightarrow> bool" where
  "ready_at_target cr pods n =
     list_ex (\<lambda>pd. ps_node (pd_spec pd) \<noteq> [] \<and>
                podEnv pd ''TT_KMD_VERSION'' = dv_version (dp_spec cr) \<and>
                pod_ready pd \<and> ps_node (pd_spec pd) = n) pods"

definition uncordon_node :: "platform \<Rightarrow> drv_policy \<Rightarrow> pod list \<Rightarrow> node \<Rightarrow> unit io" where
  "uncordon_node p cr pods node =
     (if sget (nd_annos node) AnnoDriverCordonedBy \<noteq> dp_name cr then State_Monad.return ()
      else if \<not> ready_at_target cr pods (nd_name node) then State_Monad.return ()
      else do {
        (e, node) \<leftarrow> UncordonNode p node (driverCordonOpts (dp_name cr));
        (case e of
           Some _ \<Rightarrow> State_Monad.return ()
         | None \<Rightarrow> do {
             (_, node) \<leftarrow> removeDeployGates p node;
             State_Monad.return ()
           })
      })"

text \<open>The installer pods of a policy, as three functions list them.\<close>

definition installer_pods :: "platform \<Rightarrow> drv_policy \<Rightarrow> (err + pod list) io" where
  "installer_pods p cr = do {
     r \<leftarrow> list_pods p (Some (operatorNamespace p)) [(''driver.tenstorrent.com/cr'', dp_name cr)];
     State_Monad.return (case r of
       Inl e \<Rightarrow> Inl (wrap ''list installer pods'' e)
     | Inr pods \<Rightarrow> Inr pods)
   }"

definition uncordonReadyNodes ::
  "platform \<Rightarrow> drv_policy \<Rightarrow> daemonset option \<Rightarrow> err option io" where
  "uncordonReadyNodes p cr ds =
     (case ds of
        None \<Rightarrow> State_Monad.return None
      | Some _ \<Rightarrow> do {
          r \<leftarrow> listMatchedNodes p cr;
          (case r of
             Inl e \<Rightarrow> State_Monad.return (Some (wrap ''list matched nodes'' e))
           | Inr nodes \<Rightarrow> do {
               pr \<leftarrow> installer_pods p cr;
               (case pr of
                  Inl e \<Rightarrow> State_Monad.return (Some e)
                | Inr pods \<Rightarrow> do {
                    each (uncordon_node p cr pods) nodes;
                    State_Monad.return None
                  })
             })
        })"

end
