(* ===== verification/DriverReconcile.thy ===== *)
theory DriverReconcile
  imports DriverDrain
begin

text \<open>
  \<open>DriverPolicyReconciler.Reconcile\<close> with the status it publishes
  (\<open>internal/controller/driver_policy_controller.go\<close>) and the gauges of
  \<open>internal/controller/driver_metrics.go\<close>.
\<close>

section \<open>driver_metrics.go\<close>

definition driverNodeStates :: "drv_state list" where
  "driverNodeStates = [DrvPending, DrvCordoning, DrvDraining, DrvUpgrading, DrvUncordoning,
     DrvDone, DrvFailed]"

definition driver_state_counts :: "drv_node_status list \<Rightarrow> (string \<times> int) list" where
  "driver_state_counts nodes =
     fold bump (map (\<lambda>ns. drv_state_str (dn_state ns)) nodes)
       (map (\<lambda>st. (drv_state_str st, 0)) driverNodeStates)"

definition recordDriverPolicyMetrics :: "drv_policy \<Rightarrow> unit io" where
  "recordDriverPolicyMetrics cr = do {
     SetDriverPolicyNodes (dp_name cr) (driver_state_counts (dst_nodes (dp_status cr)));
     SetDriverDesiredVersion (dp_name cr) (dv_version (dp_spec cr))
   }"

definition kmd_version_counts :: "node list \<Rightarrow> ((string \<times> string) \<times> int) list" where
  "kmd_version_counts nodes =
     fold bump (map (\<lambda>n. (sget (nd_labels n) LabelKMDVersion, sget (nd_labels n) LabelInstallMode))
       (filter (\<lambda>n. sget (nd_labels n) LabelKMDVersion \<noteq> []) nodes)) []"

definition recordKMDVersionMetrics :: "platform \<Rightarrow> err option io" where
  "recordKMDVersionMetrics p = do {
     r \<leftarrow> list_nodes p;
     (case r of
        Inl e \<Rightarrow> State_Monad.return (Some e)
      | Inr nodes \<Rightarrow> do {
          SetNodesByKMDVersion (kmd_version_counts nodes);
          State_Monad.return None
        })
   }"

section \<open>Node statuses\<close>

definition drv_prev_status :: "drv_node_status list \<Rightarrow> string \<rightharpoonup> drv_node_status" where
  "drv_prev_status nodes = map_of (rev (map (\<lambda>ns. (dn_name ns, ns)) nodes))"

text \<open>Lines 396-418: one node's new status, and the event when its state or reason changed.\<close>

definition driver_node_status ::
  "platform \<Rightarrow> drv_policy \<Rightarrow> (string \<rightharpoonup> podInfo) \<Rightarrow> (string \<rightharpoonup> drv_node_status) \<Rightarrow> node \<Rightarrow>
   drv_node_status io" where
  "driver_node_status p cr byNode prev node =
     (let info = info_of byNode (nd_name node);
          (state, reason, msg) = computeDriverNodeStateReason node info cr;
          mk = (\<lambda>t. \<lparr>dn_name = nd_name node, dn_state = state, dn_reason = reason,
                  dn_current = pi_version info, dn_msg = msg, dn_time = t\<rparr>);
          changed = do {
            t \<leftarrow> now p;
            (if prev (nd_name node) \<noteq> None \<or> (state \<noteq> DrvPending \<and> reason \<noteq> [])
             then recordDriverNodeStateEvent p cr (nd_name node) state reason msg
             else State_Monad.return ());
            State_Monad.return (mk t)
          }
      in case prev (nd_name node) of
           Some old \<Rightarrow>
             if dn_state old = state \<and> dn_reason old = reason
             then State_Monad.return (mk (dn_time old)) else changed
         | None \<Rightarrow> changed)"

text \<open>Lines 421-434: the two counters.\<close>

definition count_driver_state :: "int32 \<times> int32 \<Rightarrow> drv_state \<Rightarrow> int32 \<times> int32" where
  "count_driver_state c state =
     (let (upToDate, inProgress) = c in
      case state of
        DrvDone \<Rightarrow> (upToDate + 1, inProgress)
      | DrvHostManaged \<Rightarrow> (upToDate + 1, inProgress)
      | DrvCordoning \<Rightarrow> (upToDate, inProgress + 1)
      | DrvDraining \<Rightarrow> (upToDate, inProgress + 1)
      | DrvUpgrading \<Rightarrow> (upToDate, inProgress + 1)
      | DrvUncordoning \<Rightarrow> (upToDate, inProgress + 1)
      | _ \<Rightarrow> (upToDate, inProgress))"

fun driver_statuses ::
  "platform \<Rightarrow> drv_policy \<Rightarrow> (string \<rightharpoonup> podInfo) \<Rightarrow> (string \<rightharpoonup> drv_node_status) \<Rightarrow>
   int32 \<times> int32 \<Rightarrow> node list \<Rightarrow> (drv_node_status list \<times> int32 \<times> int32) io" where
  "driver_statuses p cr byNode prev c [] = State_Monad.return ([], c)"
| "driver_statuses p cr byNode prev c (n # ns) = do {
     x \<leftarrow> driver_node_status p cr byNode prev n;
     (xs, c) \<leftarrow> driver_statuses p cr byNode prev (count_driver_state c (dn_state x)) ns;
     State_Monad.return (x # xs, c)
   }"

definition populateNodeStatuses :: "platform \<Rightarrow> drv_policy \<Rightarrow> (err option \<times> drv_policy) io" where
  "populateNodeStatuses p cr = do {
     r \<leftarrow> listMatchedNodes p cr;
     (case r of
        Inl e \<Rightarrow> State_Monad.return (Some (wrap ''list matched nodes'' e), cr)
      | Inr nodes \<Rightarrow> do {
          pr \<leftarrow> installer_pods p cr;
          (case pr of
             Inl e \<Rightarrow> State_Monad.return (Some e, cr)
           | Inr pods \<Rightarrow> do {
               let byNode = pods_by_node Map.empty pods;
               let prev = drv_prev_status (dst_nodes (dp_status cr));
               (out, upToDate, inProgress) \<leftarrow> driver_statuses p cr byNode prev (0, 0) nodes;
               let st = dp_status cr;
               State_Monad.return (None, cr\<lparr>dp_status := st\<lparr>dst_nodes := out,
                 dst_summary := (dst_summary st)\<lparr>dsm_uptodate := upToDate,
                   dsm_inprogress := inProgress\<rparr>\<rparr>\<rparr>)
             })
        })
   }"

section \<open>Conditions\<close>

definition setDriverConditions :: "platform \<Rightarrow> drv_policy \<Rightarrow> drv_policy io" where
  "setDriverConditions p cr = do {
     t1 \<leftarrow> now p;
     t2 \<leftarrow> now p;
     let s = dst_summary (dp_status cr);
     let cond = (\<lambda>ty t st reason msg. \<lparr>mc_type = ty, mc_status = st, mc_reason = reason,
           mc_message = msg, mc_gen = dp_generation cr, mc_time = t\<rparr>);
     let ratio = show_int (sint (dsm_ready s)) @ ''/'' @ show_int (sint (dsm_desired s));
     let (ready, progressing) =
       (if dv_paused (dp_spec cr) then
          (cond ''Ready'' t1 ConditionUnknown ''Paused'' [],
           cond ''Progressing'' t2 ConditionFalse ''Paused'' [])
        else if dsm_desired s = 0 \<and> dsm_matched s = 0 then
          (cond ''Ready'' t1 ConditionTrue ''NoMatchingNodes'' ''No nodes match selector'',
           cond ''Progressing'' t2 ConditionFalse ''Idle'' [])
        else if dsm_ready s = dsm_desired s \<and> 0 < sint (dsm_desired s) then
          (cond ''Ready'' t1 ConditionTrue ''AllReady'' (ratio @ '' nodes have tt-kmd loaded''),
           cond ''Progressing'' t2 ConditionFalse ''Idle'' [])
        else
          (cond ''Ready'' t1 ConditionFalse ''Installing'' (ratio @ '' nodes ready''),
           cond ''Progressing'' t2 ConditionTrue ''Rolling'' []));
     let st = dp_status cr;
     let conds = lib_set_condition (pf_lib p) (dst_conds st) ready;
     let conds = lib_set_condition (pf_lib p) conds progressing;
     State_Monad.return (cr\<lparr>dp_status := st\<lparr>dst_conds := conds\<rparr>\<rparr>)
   }"

section \<open>Status\<close>

text \<open>Lines 294-319: the part of the summary that mirrors the DaemonSet.\<close>

definition mirror_daemonset :: "drv_policy \<Rightarrow> daemonset option \<Rightarrow> int32 \<Rightarrow> drv_policy" where
  "mirror_daemonset cr ds matched =
     (let st = (dp_status cr)\<lparr>dst_observed := dp_generation cr,
            dst_desired := dv_version (dp_spec cr)\<rparr>;
          sm = (dst_summary st)\<lparr>dsm_matched := matched\<rparr>
      in case ds of
           None \<Rightarrow> cr\<lparr>dp_status := st\<lparr>dst_daemonset := [],
             dst_summary := sm\<lparr>dsm_desired := 0, dsm_ready := 0, dsm_available := 0,
               dsm_failed := 0\<rparr>\<rparr>\<rparr>
         | Some d \<Rightarrow>
             (let s = dm_status d;
                  failed = dss_desired s - dss_available s;
                  failed = (if sint failed < 0 then 0 else failed)
              in cr\<lparr>dp_status := st\<lparr>dst_daemonset := dm_name d,
                   dst_summary := sm\<lparr>dsm_desired := dss_desired s, dsm_ready := dss_ready s,
                     dsm_available := dss_available s, dsm_failed := failed\<rparr>\<rparr>\<rparr>))"

definition updateStatus ::
  "platform \<Rightarrow> drv_policy \<Rightarrow> daemonset option \<Rightarrow> int32 \<Rightarrow> (err option \<times> drv_policy) io" where
  "updateStatus p cr ds matched = do {
     (e, cr) \<leftarrow> populateNodeStatuses p (mirror_daemonset cr ds matched);
     (case e of
        None \<Rightarrow> State_Monad.return ()
      | Some _ \<Rightarrow> inc_driver_error (dp_name cr) ''populate_node_statuses'');
     cr \<leftarrow> setDriverConditions p cr;
     recordDriverPolicyMetrics cr;
     r \<leftarrow> update_drv_status p cr;
     State_Monad.return (case r of Inl e \<Rightarrow> (Some e, cr) | Inr cr \<Rightarrow> (None, cr))
   }"

section \<open>Label clean-up\<close>

definition cleanup_pod :: "platform \<Rightarrow> pod \<Rightarrow> unit io" where
  "cleanup_pod p pd =
     (let nodeName = ps_node (pd_spec pd) in
      if nodeName = [] then State_Monad.return ()
      else if pod_ready pd then State_Monad.return ()
      else do {
        r \<leftarrow> get_node p nodeName;
        (case r of
           Inl _ \<Rightarrow> State_Monad.return ()
         | Inr node \<Rightarrow>
             (if sget (nd_labels node) LabelKMDVersion = [] then State_Monad.return ()
              else do {
                _ \<leftarrow> patch_node p node
                  (node\<lparr>nd_labels := (nd_labels node)(LabelKMDVersion := None)\<rparr>);
                State_Monad.return ()
              }))
      })"

definition cleanupKMDVersionLabels :: "platform \<Rightarrow> drv_policy \<Rightarrow> err option io" where
  "cleanupKMDVersionLabels p cr = do {
     r \<leftarrow> installer_pods p cr;
     (case r of
        Inl e \<Rightarrow> State_Monad.return (Some e)
      | Inr pods \<Rightarrow> do { each (cleanup_pod p) pods; State_Monad.return None })
   }"

section \<open>Reconcile\<close>

text \<open>The template is copied over the existing object and stamped with its hash (lines 130-134).\<close>

definition apply_template :: "daemonset \<Rightarrow> daemonset \<Rightarrow> daemonset" where
  "apply_template existing desired =
     existing\<lparr>dm_spec := dm_spec desired,
       dm_annos := (dm_annos existing)(dsTemplateHashAnnotation \<mapsto>
         sget (dm_annos desired) dsTemplateHashAnnotation)\<rparr>"

text \<open>Lines 114-142: the DaemonSet exists. On drift it is updated, after the drain.\<close>

definition sync_existing ::
  "platform \<Rightarrow> drv_policy \<Rightarrow> daemonset \<Rightarrow> daemonset \<Rightarrow> (err + daemonset) io" where
  "sync_existing p cr existing desired =
     (if \<not> dv_paused (dp_spec cr) \<and> daemonSetNeedsUpdate existing desired then do {
        (if drainEnabledForCR cr then do {
           e \<leftarrow> prepareUpgrade p cr;
           (case e of
              None \<Rightarrow> State_Monad.return ()
            | Some _ \<Rightarrow> inc_driver_error (dp_name cr) ''prepare_upgrade'')
         } else State_Monad.return ());
        r \<leftarrow> update_ds p (apply_template existing desired);
        (case r of
           Inl e \<Rightarrow> do {
             metric (MInc DriverDaemonSetOperations [dp_name cr, OperationUpdate, ResultError]);
             inc_driver_error (dp_name cr) ''update_daemonset'';
             State_Monad.return (Inl (wrap ''update daemonset'' e))
           }
         | Inr ds \<Rightarrow> do {
             metric (MInc DriverDaemonSetOperations [dp_name cr, OperationUpdate, ResultSuccess]);
             State_Monad.return (Inr ds)
           })
      }
      else State_Monad.return (Inr existing))"

definition create_desired ::
  "platform \<Rightarrow> drv_policy \<Rightarrow> daemonset \<Rightarrow> (err + daemonset) io" where
  "create_desired p cr desired = do {
     r \<leftarrow> create_ds p desired;
     (case r of
        Inl e \<Rightarrow> do {
          metric (MInc DriverDaemonSetOperations [dp_name cr, OperationCreate, ResultError]);
          inc_driver_error (dp_name cr) ''create_daemonset'';
          State_Monad.return (Inl (wrap ''create daemonset'' e))
        }
      | Inr ds \<Rightarrow> do {
          metric (MInc DriverDaemonSetOperations [dp_name cr, OperationCreate, ResultSuccess]);
          State_Monad.return (Inr ds)
        })
   }"

text \<open>Lines 145-189: status, label clean-up, fleet gauge, uncordon, requeue.\<close>

definition finish_driver ::
  "platform \<Rightarrow> drv_policy \<Rightarrow> daemonset \<Rightarrow> int32 \<Rightarrow> (rresult \<times> err option) io" where
  "finish_driver p cr existing matched = do {
     (ue, cr) \<leftarrow> updateStatus p cr (Some existing) matched;
     (case ue of
        Some e \<Rightarrow>
          if ekind e = Conflict
          then State_Monad.return (\<lparr>rr_requeue = True, rr_after = 0\<rparr>, None)
          else do {
            inc_driver_error (dp_name cr) ''update_status'';
            State_Monad.return (no_requeue, Some e)
          }
      | None \<Rightarrow> do {
          ce \<leftarrow> cleanupKMDVersionLabels p cr;
          (case ce of
             None \<Rightarrow> State_Monad.return ()
           | Some _ \<Rightarrow> inc_driver_error (dp_name cr) ''cleanup_kmd_version_labels'');
          ke \<leftarrow> recordKMDVersionMetrics p;
          (case ke of
             None \<Rightarrow> State_Monad.return ()
           | Some _ \<Rightarrow> inc_driver_error (dp_name cr) ''record_kmd_version_metrics'');
          (if drainEnabledForCR cr then do {
             une \<leftarrow> uncordonReadyNodes p cr (Some existing);
             (case une of
                None \<Rightarrow> State_Monad.return ()
              | Some _ \<Rightarrow> inc_driver_error (dp_name cr) ''uncordon_ready_nodes'')
           } else State_Monad.return ());
          DriverReconcileSucceeded p (dp_name cr);
          State_Monad.return
            (if sint (dss_ready (dm_status existing)) < sint (dss_desired (dm_status existing))
             then \<lparr>rr_requeue = False, rr_after = 15 * second\<rparr> else no_requeue, None)
        })
   }"

text \<open>Lines 82-143: the policy exists and is not being deleted.\<close>

definition reconcile_driver :: "platform \<Rightarrow> drv_policy \<Rightarrow> (rresult \<times> err option) io" where
  "reconcile_driver p cr = do {
     mr \<leftarrow> countMatchedNodes p cr;
     (case mr of
        Inl e \<Rightarrow> do {
          inc_driver_error (dp_name cr) ''count_matched_nodes'';
          State_Monad.return (no_requeue, Some (wrap ''count matched nodes'' e))
        }
      | Inr matched \<Rightarrow> do {
          let dsName = driverDaemonSetName (dp_name cr);
          let desired = buildDaemonSet p cr dsName;
          r \<leftarrow> get_ds p (operatorNamespace p) dsName;
          (case r of
             Inl e \<Rightarrow>
               if ekind e = NotFound then
                 (if dv_paused (dp_spec cr) then do {
                    DriverReconcileSucceeded p (dp_name cr);
                    (ue, _) \<leftarrow> updateStatus p cr None matched;
                    State_Monad.return (\<lparr>rr_requeue = False, rr_after = 30 * second\<rparr>, ue)
                  }
                  else do {
                    x \<leftarrow> create_desired p cr desired;
                    (case x of
                       Inl e \<Rightarrow> State_Monad.return (no_requeue, Some e)
                     | Inr existing \<Rightarrow> finish_driver p cr existing matched)
                  })
               else do {
                 inc_driver_error (dp_name cr) ''get_daemonset'';
                 State_Monad.return (no_requeue, Some (wrap ''get daemonset'' e))
               }
           | Inr existing \<Rightarrow> do {
               x \<leftarrow> sync_existing p cr existing desired;
               (case x of
                  Inl e \<Rightarrow> State_Monad.return (no_requeue, Some e)
                | Inr existing \<Rightarrow> finish_driver p cr existing matched)
             })
        })
   }"

definition DriverReconcile :: "platform \<Rightarrow> string \<Rightarrow> (rresult \<times> err option) io" where
  "DriverReconcile p name = do {
     r \<leftarrow> get_drv p name;
     (case r of
        Inl e \<Rightarrow>
          if ekind e = NotFound then do {
            DeleteDriverPolicySeries name;
            State_Monad.return (no_requeue, None)
          }
          else State_Monad.return (no_requeue, Some e)
      | Inr cr \<Rightarrow>
          if dp_deleted cr \<noteq> None then do {
            DeleteDriverPolicySeries (dp_name cr);
            State_Monad.return (no_requeue, None)
          }
          else reconcile_driver p cr)
   }"

definition mapNodeToDriverCRs :: "platform \<Rightarrow> string list io" where
  "mapNodeToDriverCRs p = do {
     r \<leftarrow> list_drv p;
     State_Monad.return (case r of Inl e \<Rightarrow> [] | Inr items \<Rightarrow> map dp_name items)
   }"

end
