(* ===== verification/DriverSafety.thy ===== *)
theory DriverSafety
  imports DriverReconcile TestBed
begin

text \<open>
  What a driver reconcile may do to the cluster: the footprint of its API calls, what a paused policy
  does, the drain that is asked of every matched node before the DaemonSet is updated, and the
  conditions under which a node is opened again.
\<close>

section \<open>What the functions ask of the API server\<close>

interpretation drv_cordon: cordon_protocol driverCordonOpts AnnoDriverCordonedBy AnnoDriverCordonedAt
  by unfold_locales (simp_all add: driverCordonOpts_def const_defs)

lemma gates_off_other: "k \<notin> set keys \<Longrightarrow> fst (gates_off keys l) k = l k"
  by (induction keys arbitrary: l) (auto simp: Let_def split_beta)

lemma gates_removed_other: "k \<notin> set keys \<Longrightarrow> fst (gates_removed keys l) k = l k"
  by (induction keys arbitrary: l) (auto simp: Let_def split_beta split: option.split)

lemma issues_gates:
  assumes "\<And>new e. node_patch (set (driverDeployGates p)) {} False node new \<Longrightarrow> P (CPatchNode node new e)"
  shows "issues P (flipDeployGatesOff p node)" "issues P (removeDeployGates p node)"
  unfolding flipDeployGatesOff_def removeDeployGates_def Let_def
  using gates_off_other [of _ "driverDeployGates p" "nd_labels node"]
    gates_removed_other [of _ "driverDeployGates p" "nd_labels node"]
  by (auto intro!: frame_rules assms simp: node_patch_def split_beta)

lemma issues_driver_reads [frame_rules]:
  "P CListNodes \<Longrightarrow> issues P (listMatchedNodes p cr)"
  "P CListNodes \<Longrightarrow> issues P (countMatchedNodes p cr)"
  "P CListNodes \<Longrightarrow> issues P (recordKMDVersionMetrics p)"
  "(\<And>ns sel. P (CListPods (Some ns) sel)) \<Longrightarrow> issues P (installer_pods p cr)"
  unfolding listMatchedNodes_def countMatchedNodes_def recordKMDVersionMetrics_def installer_pods_def
  by (intro frame_rules; simp)+

lemma issues_evict_each:
  "(\<And>pd e. pd \<in> set pds \<Longrightarrow> P (CEvict (pd_ns pd) (pd_name pd) e)) \<Longrightarrow>
   issues P (evict_each p crName pass pds)"
  by (induction pds) (auto intro!: frame_rules)

lemma issues_evictMatching:
  assumes "P (CListPods None [])" "\<And>ns n e. ns \<noteq> operatorNamespace p \<Longrightarrow> P (CEvict ns n e)"
  shows "issues P (evictMatching p crName nodeName force flt pass)"
proof -
  have drop: "pd_ns pd \<noteq> operatorNamespace p"
    if "result_of (ListDevicePodsOnNode p nodeName (operatorNamespace p) force (Some flt)) s = Inr pods"
      "pd \<in> set pods" for s pods pd
    using that by (auto simp: ListDevicePodsOnNode_def select_pods_eq drainable_def split: sum.splits)
  show ?thesis
    unfolding evictMatching_def
    by (intro issue.bind_result) (auto intro!: frame_rules issues_evict_each assms dest: drop
        split: sum.split)
qed

lemma issues_prepare_node:
  assumes "P CNow" "P (CListPods None [])" "\<And>ns n e. ns \<noteq> operatorNamespace p \<Longrightarrow> P (CEvict ns n e)"
    "\<And>base new e. cordon_patch (driverCordonOpts (dp_name cr)) base new \<Longrightarrow> P (CPatchNode base new e)"
    "\<And>base new e. node_patch (set (driverDeployGates p)) {} False base new \<Longrightarrow> P (CPatchNode base new e)"
  shows "issues P (prepare_node p cr flt node)"
  unfolding prepare_node_def Let_def
  by (intro frame_rules issues_CordonNode issues_gates issues_evictMatching assms)

lemma issues_prepareUpgrade:
  assumes "P CListNodes" "P CNow" "P (CListPods None [])"
    "\<And>ns n e. ns \<noteq> operatorNamespace p \<Longrightarrow> P (CEvict ns n e)"
    "\<And>base new e. cordon_patch (driverCordonOpts (dp_name cr)) base new \<Longrightarrow> P (CPatchNode base new e)"
    "\<And>base new e. node_patch (set (driverDeployGates p)) {} False base new \<Longrightarrow> P (CPatchNode base new e)"
  shows "issues P (prepareUpgrade p cr)"
  unfolding prepareUpgrade_def
  by (intro frame_rules issues_prepare_node assms)

lemma issues_uncordonReadyNodes:
  assumes "P CListNodes" "\<And>ns sel. P (CListPods (Some ns) sel)"
    "\<And>base new e. uncordon_patch (driverCordonOpts (dp_name cr)) base new \<Longrightarrow> P (CPatchNode base new e)"
    "\<And>base new e. node_patch (set (driverDeployGates p)) {} False base new \<Longrightarrow> P (CPatchNode base new e)"
  shows "issues P (uncordonReadyNodes p cr ds)"
  unfolding uncordonReadyNodes_def uncordon_node_def
  by (intro frame_rules issues_UncordonNode issues_gates assms)

lemma issues_cleanup:
  assumes "\<And>ns sel. P (CListPods (Some ns) sel)" "\<And>n. P (CGetNode n)"
    "\<And>base new e. node_patch {LabelKMDVersion} {} False base new \<Longrightarrow> P (CPatchNode base new e)"
  shows "issues P (cleanupKMDVersionLabels p cr)"
  unfolding cleanupKMDVersionLabels_def cleanup_pod_def Let_def
  by (intro frame_rules assms) (simp add: node_patch_def)

lemma issues_driver_statuses:
  "P CNow \<Longrightarrow> issues P (driver_statuses p cr byNode prev c nodes)"
proof (induction nodes arbitrary: c)
  case (Cons n ns)
  then show ?case
    unfolding driver_statuses.simps driver_node_status_def recordDriverNodeStateEvent_def Let_def
    by (intro frame_rules; simp)
qed (auto intro: frame_rules)

lemma populate_same_spec:
  "dp_name (snd (result_of (populateNodeStatuses p cr) s)) = dp_name cr"
  "dp_spec (snd (result_of (populateNodeStatuses p cr) s)) = dp_spec cr"
  by (auto simp: populateNodeStatuses_def Let_def split: sum.split prod.split)

lemma conditions_same_spec:
  "dp_name (result_of (setDriverConditions p cr) s) = dp_name cr"
  "dp_spec (result_of (setDriverConditions p cr) s) = dp_spec cr"
  by (simp_all add: setDriverConditions_def Let_def split: prod.split)

lemma mirror_same_spec [simp]:
  "dp_name (mirror_daemonset cr ds m) = dp_name cr" "dp_spec (mirror_daemonset cr ds m) = dp_spec cr"
  by (simp_all add: mirror_daemonset_def Let_def split: option.split)

lemma issues_updateStatus:
  assumes "P CNow" "P CListNodes" "\<And>ns sel. P (CListPods (Some ns) sel)"
    "\<And>cr' e. dp_name cr' = dp_name cr \<Longrightarrow> dp_spec cr' = dp_spec cr \<Longrightarrow> P (CUpdateDrvStatus cr' e)"
  shows "issues P (updateStatus p cr ds m)"
proof -
  have pop: "issues P (populateNodeStatuses p c)" for c
    unfolding populateNodeStatuses_def Let_def
    by (intro frame_rules issues_driver_statuses assms)
  have cond: "issues P (setDriverConditions p c)" for c
    unfolding setDriverConditions_def Let_def by (intro frame_rules assms)
  have rec: "issues P (recordDriverPolicyMetrics c)" for c
    unfolding recordDriverPolicyMetrics_def by (intro frame_rules)
  have log: "issues P (case e of None \<Rightarrow> State_Monad.return ()
      | Some _ \<Rightarrow> inc_driver_error n ''populate_node_statuses'')" for e :: "err option" and n
    by (intro frame_rules)
  have tail: "issues P (do {
      (case e of None \<Rightarrow> State_Monad.return ()
       | Some _ \<Rightarrow> inc_driver_error (dp_name c) ''populate_node_statuses'');
      cr \<leftarrow> setDriverConditions p c;
      recordDriverPolicyMetrics cr;
      r \<leftarrow> update_drv_status p cr;
      State_Monad.return (case r of Inl e \<Rightarrow> (Some e, cr) | Inr cr \<Rightarrow> (None, cr)) })"
    if "dp_name c = dp_name cr" "dp_spec c = dp_spec cr" for c and e :: "err option"
    by (rule issue.bind [OF log], rule issue.bind_result [OF cond])
      (intro issue.bind [OF rec] issue.bind [OF issues_writes(6)] issue.return assms(4);
        simp add: conditions_same_spec that)
  show ?thesis
    unfolding updateStatus_def
    by (intro issue.bind_result pop) (simp add: split_beta, intro tail; simp add: populate_same_spec)
qed

section \<open>Footprint\<close>

text \<open>Everything a driver reconcile may ask of the API server: reads, its own DaemonSet, node patches
  within the driver's cordon annotations, the deploy gates and the kmd-version label, evictions outside
  the operator's namespace, and the status of this policy.\<close>

fun drv_call :: "platform \<Rightarrow> drv_policy \<Rightarrow> call \<Rightarrow> bool" where
  "drv_call p cr (CCreateDS d e) = (d = buildDaemonSet p cr (driverDaemonSetName (dp_name cr)))"
| "drv_call p cr (CUpdateDS d e) =
     (\<exists>old. d = apply_template old (buildDaemonSet p cr (driverDaemonSetName (dp_name cr))))"
| "drv_call p cr (CPatchNode base new e) =
     node_patch (insert LabelKMDVersion (set (driverDeployGates p)))
       {AnnoDriverCordonedBy, AnnoDriverCordonedAt} True base new"
| "drv_call p cr (CEvict ns n e) = (ns \<noteq> operatorNamespace p)"
| "drv_call p cr (CUpdateDrvStatus cr' e) = True"
| "drv_call p cr (CCreateJob j e) = False"
| "drv_call p cr (CUpdateFwStatus c e) = False"
| "drv_call p cr _ = True"

lemma drv_patches:
  "cordon_patch (driverCordonOpts c) base new \<Longrightarrow> drv_call p cr (CPatchNode base new e)"
  "uncordon_patch (driverCordonOpts c) base new \<Longrightarrow> drv_call p cr (CPatchNode base new e)"
  "node_patch (set (driverDeployGates p)) {} False base new \<Longrightarrow> drv_call p cr (CPatchNode base new e)"
  "node_patch {LabelKMDVersion} {} False base new \<Longrightarrow> drv_call p cr (CPatchNode base new e)"
  by (auto simp: driverCordonOpts_def dest!: cordon_node_patch elim!: node_patch_mono)

lemma finish_driver_footprint: "issues (drv_call p cr) (finish_driver p c existing m)"
  unfolding finish_driver_def
  by (intro frame_rules issues_updateStatus issues_cleanup issues_uncordonReadyNodes drv_patches)
    simp_all

lemma sync_existing_footprint:
  "issues (drv_call p cr) (sync_existing p cr existing (buildDaemonSet p cr (driverDaemonSetName (dp_name cr))))"
  unfolding sync_existing_def
  by (intro frame_rules issues_prepareUpgrade drv_patches) auto

lemma reconcile_driver_footprint: "issues (drv_call p cr) (reconcile_driver p cr)"
  unfolding reconcile_driver_def create_desired_def Let_def
  by (intro frame_rules issues_updateStatus finish_driver_footprint sync_existing_footprint) simp_all

text \<open>C13: Every API call of a driver reconcile is a read, the creation or template update of the
  policy's own DaemonSet, a patch of a node within the two cordon annotations of the driver, the deploy
  gates and the kmd-version label (and the unschedulable flag), an eviction outside the operator's
  namespace, or the status of a driver policy. It never creates a Job and never writes an annotation of
  the firmware controller.\<close>

theorem driver_reconcile_footprint:
  "issues (\<lambda>c. \<exists>cr. drv_call p cr c) (DriverReconcile p name)"
proof -
  have "issues (\<lambda>c. \<exists>cr. drv_call p cr c) (reconcile_driver p cr)" for cr
    by (rule issues_mono [OF reconcile_driver_footprint]) blast
  then show ?thesis
    unfolding DriverReconcile_def by (intro frame_rules) simp_all
qed

section \<open>A paused policy\<close>

text \<open>No DaemonSet write, no eviction, and no node patch that closes a node.\<close>

fun paused_call :: "call \<Rightarrow> bool" where
  "paused_call (CPatchNode base new e) = (nd_unsched base \<or> \<not> nd_unsched new)"
| "paused_call (CUpdateDrvStatus c e) = True"
| "paused_call c = read_call c"

lemma finish_driver_paused: "issues paused_call (finish_driver p cr existing m)"
  unfolding finish_driver_def
  by (intro frame_rules issues_updateStatus issues_cleanup issues_uncordonReadyNodes)
    (auto simp: uncordon_patch_def node_patch_def)

text \<open>While a driver policy is paused, a reconcile neither creates nor updates the DaemonSet, evicts
  nothing and cordons no node; it still reports, cleans up labels and opens nodes that are ready.\<close>

theorem paused_driver_rolls_nothing:
  assumes "dv_paused (dp_spec cr)"
  shows "issues paused_call (reconcile_driver p cr)"
  unfolding reconcile_driver_def sync_existing_def Let_def
  using assms
  by (auto intro!: frame_rules issues_updateStatus finish_driver_paused)

lemma paused_driver_rolls_nothing_witness:
  "issues paused_call (reconcile_driver (testbed [plain_node ''n1''] [] [] [zero_ds ''ttdrv-d''])
     ((plain_drv ''d'')\<lparr>dp_spec := (dp_spec (plain_drv ''d''))\<lparr>dv_paused := True\<rparr>\<rparr>))"
  by (rule paused_driver_rolls_nothing) simp

section \<open>Drain before update\<close>

fun ds_write :: "call \<Rightarrow> bool" where
  "ds_write (CCreateDS d e) = True"
| "ds_write (CUpdateDS d e) = True"
| "ds_write _ = False"

lemma prepare_no_ds_write: "issues (\<lambda>c. \<not> ds_write c) (prepareUpgrade p cr)"
  by (rule issues_prepareUpgrade) simp_all

lemma result_update_ds: "final_of (update_ds p d) s =
  s\<lparr>hist := hist s @ [CUpdateDS d (err_of (srv_update_ds (pf_writes p) (hist s) d))]\<rparr>"
  by (simp add: update_ds_def)

text \<open>After an accepted update, or a creation, of the DaemonSet for an unchanged policy there is no
  drift, so the next reconcile neither drains nor updates. In particular a drain that a disruption
  budget blocked is not tried again for the same template.\<close>

theorem update_settles_drift:
  "\<not> daemonSetNeedsUpdate (apply_template existing (buildDaemonSet p cr n)) (buildDaemonSet p cr n) \<and>
   \<not> daemonSetNeedsUpdate (buildDaemonSet p cr n) (buildDaemonSet p cr n) \<and>
   final_of (sync_existing p cr (apply_template existing (buildDaemonSet p cr n)) (buildDaemonSet p cr n)) s = s"
  by (simp add: daemonSetNeedsUpdate_def apply_template_def sync_existing_def)

section \<open>Preparing the nodes\<close>

lemma issued_mem: "issued P s t \<Longrightarrow> c \<in> set (hist s) \<Longrightarrow> c \<in> set (hist t)"
  by (auto simp: issued_def)

lemma keeps_history: "issues (\<lambda>c. True) m \<Longrightarrow> c \<in> set (hist s) \<Longrightarrow> c \<in> set (hist (final_of m s))"
  by (auto simp: keeps_def dest!: spec [of _ s] intro: issued_mem)

lemma prepare_node_any: "issues (\<lambda>c. True) (prepare_node p cr flt node)"
  by (rule issues_prepare_node) simp_all

definition cordon_sent :: "drv_policy \<Rightarrow> node \<Rightarrow> call list \<Rightarrow> bool" where
  "cordon_sent cr node h \<longleftrightarrow>
     nd_unsched node \<and> sget (nd_annos node) AnnoDriverCordonedBy = dp_name cr \<or>
     (\<exists>new e. CPatchNode node new e \<in> set h \<and>
        cordon_patch (driverCordonOpts (dp_name cr)) node new)"

lemma CordonNode_sent:
  "cordon_sent cr node (hist (final_of (CordonNode p node (driverCordonOpts (dp_name cr))) s))"
proof (cases "nd_unsched node \<and> sget (nd_annos node) AnnoDriverCordonedBy = dp_name cr")
  case False
  then show ?thesis
    by (auto simp: CordonNode_def cordon_sent_def driverCordonOpts_def Let_def patch_node_def now_def
        cordon_patch_def)
qed (simp add: cordon_sent_def)

lemma cordon_sent_mono:
  "cordon_sent cr node (hist s) \<Longrightarrow> issues (\<lambda>c. True) m \<Longrightarrow> cordon_sent cr node (hist (final_of m s))"
  unfolding cordon_sent_def using keeps_history by blast

lemma prepare_node_sent: "cordon_sent cr node (hist (final_of (prepare_node p cr flt node) s))"
proof -
  have rest: "issues (\<lambda>c. True) (case r of (e, node) \<Rightarrow> case e of
        Some _ \<Rightarrow> State_Monad.return ()
      | None \<Rightarrow> do {
          (_, node) \<leftarrow> flipDeployGatesOff p node;
          evictMatching p (dp_name cr) (nd_name node) (dd_force (du_drain (dv_upgrade (dp_spec cr))))
            PodUsesTenstorrentDevice DrainPass1;
          (if fullNodeDrainEnabledForCR cr
           then evictMatching p (dp_name cr) (nd_name node) (dd_force (du_drain (dv_upgrade (dp_spec cr))))
             flt DrainPass2
           else State_Monad.return ())
        })" for r :: "err option \<times> node"
    by (intro frame_rules issues_gates issues_evictMatching) simp_all
  show ?thesis
    unfolding prepare_node_def Let_def final_of_bind
    by (rule cordon_sent_mono [OF CordonNode_sent rest])
qed

lemma each_sent:
  "n \<in> set nodes \<Longrightarrow> cordon_sent cr n (hist (final_of (each (prepare_node p cr flt) nodes) s))"
proof (induction nodes arbitrary: s)
  case (Cons m ms)
  have rest: "issues (\<lambda>c. True) (each (prepare_node p cr flt) ms)"
    by (intro issue.each prepare_node_any)
  show ?case
  proof (cases "n = m")
    case True
    then show ?thesis using cordon_sent_mono [OF prepare_node_sent rest] by simp
  next
    case False
    then show ?thesis using Cons by simp
  qed
qed simp

text \<open>Before the template changes, a cordon is requested for every matched node that the policy does
  not hold already, even when patches, gate flips or evictions on other nodes fail.\<close>

theorem prepare_cordons_every_node:
  assumes "lib_selector (pf_lib p) (DriverEffectiveNodeAffinity (dp_spec cr)) = Inr sel"
    "srv_list_nodes (pf_reads p) (hist s) = Inr items"
    "buildFullNodeDrainFilter p cr = Inr flt" "n \<in> set (filter_driver_matched p sel items)"
  shows "cordon_sent cr n (hist (final_of (prepareUpgrade p cr) s))"
  using assms
  by (simp add: prepareUpgrade_def listMatchedNodes_def list_nodes_def each_sent)

lemma prepare_cordons_every_node_witness:
  "cordon_sent (plain_drv ''d'') (plain_node ''n2'')
     (hist (final_of (prepareUpgrade (testbed [plain_node ''n1'', plain_node ''n2''] [] [] []) (plain_drv ''d'')) init_sys))"
  by (rule prepare_cordons_every_node [of _ _ "\<lambda>l. True" _ "[plain_node ''n1'', plain_node ''n2'']"])
    (simp_all add: buildFullNodeDrainFilter_def plain_drv_def plain_node_def const_defs Let_def)

section \<open>The drain of a node\<close>

text \<open>One pass of the drain was asked of the server: after the calls \<open>h0\<close> the pods were listed and, if the
  list came, the eviction of every pod that the pass selects was requested.\<close>

definition pass_asked ::
  "platform \<Rightarrow> drv_policy \<Rightarrow> string \<Rightarrow> pod_filter \<Rightarrow> call list \<Rightarrow> call list \<Rightarrow> bool" where
  "pass_asked p cr n flt h0 h \<longleftrightarrow> (\<exists>h1 h2. h = h0 @ h1 @ CListPods None [] # h2 \<and>
     (\<forall>pods. srv_list_pods (pf_reads p) (h0 @ h1) None [] = Inr pods \<longrightarrow>
        (\<forall>pd \<in> set pods. drainable n (operatorNamespace p) (dd_force (du_drain (dv_upgrade (dp_spec cr)))) (Some flt) pd \<longrightarrow>
           (\<exists>e. CEvict (pd_ns pd) (pd_name pd) e \<in> set h2))))"

text \<open>The whole drain of a node: its cordon, and then both passes (the second only with \<open>fullNode\<close>), unless
  the server refused the cordon.\<close>

definition drain_asked :: "platform \<Rightarrow> drv_policy \<Rightarrow> pod_filter \<Rightarrow> node \<Rightarrow> call list \<Rightarrow> bool" where
  "drain_asked p cr flt node h \<longleftrightarrow> (\<exists>h0. cordon_sent cr node h0 \<and>
     ((\<exists>hs. h = h0 @ hs) \<and> (\<exists>new e. CPatchNode node new (Some e) \<in> set h0 \<and>
        cordon_patch (driverCordonOpts (dp_name cr)) node new) \<or>
      pass_asked p cr (nd_name node) PodUsesTenstorrentDevice h0 h \<and>
        (fullNodeDrainEnabledForCR cr \<longrightarrow> pass_asked p cr (nd_name node) flt h0 h)))"

lemma pass_asked_later:
  assumes "pass_asked p cr n flt h0 h"
  shows "pass_asked p cr n flt h0 (h @ cs)"
proof -
  obtain h1 h2 where h: "h = h0 @ h1 @ CListPods None [] # h2"
    "\<forall>pods. srv_list_pods (pf_reads p) (h0 @ h1) None [] = Inr pods \<longrightarrow>
      (\<forall>pd \<in> set pods. drainable n (operatorNamespace p) (dd_force (du_drain (dv_upgrade (dp_spec cr)))) (Some flt) pd \<longrightarrow>
         (\<exists>e. CEvict (pd_ns pd) (pd_name pd) e \<in> set h2))"
    using assms unfolding pass_asked_def by blast
  show ?thesis
    unfolding pass_asked_def by (rule exI [of _ h1], rule exI [of _ "h2 @ cs"]) (use h in fastforce)
qed

lemma pass_asked_prefix: "pass_asked p cr n flt h0 h \<Longrightarrow> set h0 \<subseteq> set h"
  by (auto simp: pass_asked_def)

lemma pass_asked_earlier: "pass_asked p cr n flt (h0 @ hs) h \<Longrightarrow> pass_asked p cr n flt h0 h"
  unfolding pass_asked_def by (metis append.assoc)

lemma drain_asked_later: "drain_asked p cr flt node h \<Longrightarrow> drain_asked p cr flt node (h @ cs)"
  unfolding drain_asked_def using pass_asked_later by (metis append.assoc)

lemma drain_asked_cordon: "drain_asked p cr flt node h \<Longrightarrow> cordon_sent cr node h"
proof -
  assume "drain_asked p cr flt node h"
  then obtain h0 where "cordon_sent cr node h0" "set h0 \<subseteq> set h"
    unfolding drain_asked_def by (metis pass_asked_prefix set_append Un_upper1)
  then show ?thesis unfolding cordon_sent_def by blast
qed

lemma evict_each_calls:
  "\<exists>cs. hist (final_of (evict_each p y pass pds) s) = hist s @ cs \<and>
     (\<forall>pd \<in> set pds. \<exists>e. CEvict (pd_ns pd) (pd_name pd) e \<in> set cs)"
proof (induction pds arbitrary: s)
  case (Cons q pds)
  let ?t = "final_of (EvictPod p q) s"
  let ?m = "case result_of (EvictPod p q) s of Some (ErrEvictionBlocked _) \<Rightarrow> metric (MInc DriverDrainBlockedTotal [y, pass])
      | Some (EvictFailed _) \<Rightarrow> inc_driver_error y ''evict_pod''
      | None \<Rightarrow> metric (MInc DriverPodsEvictedTotal [y, pass])"
  obtain e where t: "hist ?t = hist s @ [CEvict (pd_ns q) (pd_name q) e]" by (auto simp: EvictPod_def evict_def)
  have "hist (final_of ?m ?t) = hist ?t" by (simp split: option.split evict_err.split)
  moreover obtain cs where "hist (final_of (evict_each p y pass pds) (final_of ?m ?t)) = hist (final_of ?m ?t) @ cs"
    "\<forall>pd \<in> set pds. \<exists>e. CEvict (pd_ns pd) (pd_name pd) e \<in> set cs" using Cons.IH by blast
  ultimately show ?case using t by (intro exI [of _ "CEvict (pd_ns q) (pd_name q) e # cs"]) auto
qed simp

lemma evict_each_sent: "pd \<in> set pds \<Longrightarrow>
    \<exists>e. CEvict (pd_ns pd) (pd_name pd) e \<in> set (hist (final_of (evict_each p y pass pds) s))"
  using evict_each_calls [of p y pass pds s] by fastforce

lemma evictMatching_asked:
  "pass_asked p cr n flt (hist s) (hist (final_of (evictMatching p y n (dd_force (du_drain (dv_upgrade (dp_spec cr)))) flt pass) s))"
proof (cases "srv_list_pods (pf_reads p) (hist s) None []")
  case (Inl e)
  then show ?thesis
    by (auto simp: evictMatching_def ListDevicePodsOnNode_def list_pods_def pass_asked_def intro!: exI [of _ "[]"])
next
  case (Inr pods)
  let ?sel = "drainable n (operatorNamespace p) (dd_force (du_drain (dv_upgrade (dp_spec cr)))) (Some flt)"
  let ?t = "s\<lparr>hist := hist s @ [CListPods None []]\<rparr>"
  let ?run = "evict_each p y pass (filter ?sel pods)"
  have run: "final_of (evictMatching p y n (dd_force (du_drain (dv_upgrade (dp_spec cr)))) flt pass) s = final_of ?run ?t"
    using Inr by (simp add: evictMatching_def ListDevicePodsOnNode_def list_pods_def select_pods_eq)
  obtain cs where cs: "hist (final_of ?run ?t) = hist ?t @ cs"
    "\<And>pd. pd \<in> set (filter ?sel pods) \<Longrightarrow> \<exists>e. CEvict (pd_ns pd) (pd_name pd) e \<in> set cs"
    using evict_each_calls [of p y pass "filter ?sel pods" ?t] by blast
  then show ?thesis
    unfolding run pass_asked_def using Inr by (intro exI [of _ "[]"] exI [of _ cs]) auto
qed

lemma CordonNode_answer:
  "result_of (CordonNode p node (driverCordonOpts y)) s = (Some e, node') \<Longrightarrow>
     \<exists>new. CPatchNode node new (Some e) \<in> set (hist (final_of (CordonNode p node (driverCordonOpts y)) s)) \<and>
       cordon_patch (driverCordonOpts y) node new"
  by (auto simp: CordonNode_def driverCordonOpts_def Let_def patch_node_def now_def cordon_patch_def
      split: if_splits sum.splits)

lemma driver_step_names:
  assumes "keeps_names p"
  shows "nd_name (snd (result_of (CordonNode p node (driverCordonOpts y)) s)) = nd_name node"
    "nd_name (snd (result_of (flipDeployGatesOff p node) s)) = nd_name node"
  by (auto simp: CordonNode_def flipDeployGatesOff_def Let_def split_beta patch_name [OF assms])

lemma prepare_node_asked:
  assumes "keeps_names p"
  shows "drain_asked p cr flt node (hist (final_of (prepare_node p cr flt node) s))"
proof -
  let ?cordon = "CordonNode p node (driverCordonOpts (dp_name cr))"
  let ?s0 = "final_of ?cordon s"
  let ?force = "dd_force (du_drain (dv_upgrade (dp_spec cr)))"
  obtain e nd1 where r: "result_of ?cordon s = (e, nd1)" by fastforce
  show ?thesis
  proof (cases e)
    case (Some x)
    then have "final_of (prepare_node p cr flt node) s = ?s0" by (simp add: prepare_node_def Let_def r)
    then show ?thesis
      unfolding drain_asked_def using CordonNode_sent [of cr node p s] CordonNode_answer [OF r [unfolded Some]]
      by (intro exI [of _ "hist ?s0"]) fastforce
  next
    case None
    let ?s1 = "final_of (flipDeployGatesOff p nd1) ?s0"
    let ?pass1 = "evictMatching p (dp_name cr) (nd_name node) ?force PodUsesTenstorrentDevice DrainPass1"
    let ?pass2 = "evictMatching p (dp_name cr) (nd_name node) ?force flt DrainPass2"
    let ?s2 = "final_of ?pass1 ?s1"
    have "nd_name nd1 = nd_name node" using driver_step_names(1) [OF assms, of node _ s] r by (metis snd_conv)
    then have run: "final_of (prepare_node p cr flt node) s = (if fullNodeDrainEnabledForCR cr then final_of ?pass2 ?s2 else ?s2)"
      using driver_step_names(2) [OF assms, of nd1] by (simp add: prepare_node_def Let_def r None split_beta)
    have "issues (\<lambda>_. True) (flipDeployGatesOff p nd1)" "issues (\<lambda>_. True) ?pass1" "issues (\<lambda>_. True) ?pass2"
      by (intro issues_gates issues_evictMatching; simp)+
    then obtain c1 c2 c3 where ext: "hist ?s1 = hist ?s0 @ c1" "hist ?s2 = hist ?s1 @ c2" "hist (final_of ?pass2 ?s2) = hist ?s2 @ c3"
      by (meson issuesD)
    have p1: "pass_asked p cr (nd_name node) PodUsesTenstorrentDevice (hist ?s0) (hist ?s2)"
      using evictMatching_asked [of p cr "nd_name node" PodUsesTenstorrentDevice ?s1] by (metis ext(1) pass_asked_earlier)
    have p2: "pass_asked p cr (nd_name node) flt (hist ?s0) (hist (final_of ?pass2 ?s2))"
      using evictMatching_asked [of p cr "nd_name node" flt ?s2] by (metis ext(1,2) append.assoc pass_asked_earlier)
    show ?thesis
      unfolding drain_asked_def run using CordonNode_sent [of cr node p s] p1 p2 pass_asked_later [OF p1, of c3] ext(3)
      by (intro exI [of _ "hist ?s0"]) simp
  qed
qed

lemma each_asked:
  "keeps_names p \<Longrightarrow> n \<in> set nodes \<Longrightarrow> drain_asked p cr flt n (hist (final_of (each (prepare_node p cr flt) nodes) s))"
proof (induction nodes arbitrary: s)
  case (Cons m ms)
  have "issues (\<lambda>c. True) (each (prepare_node p cr flt) ms)" by (intro issue.each prepare_node_any)
  then obtain cs where "hist (final_of (each (prepare_node p cr flt) ms) (final_of (prepare_node p cr flt m) s)) =
      hist (final_of (prepare_node p cr flt m) s) @ cs" by (meson issuesD)
  then show ?case
    using Cons.IH [OF Cons.prems(1), of "final_of (prepare_node p cr flt m) s"] Cons.prems(2)
      drain_asked_later [OF prepare_node_asked [OF Cons.prems(1)], of cr flt m s cs]
    by (cases "n = m") auto
qed simp

lemma prepareUpgrade_asked:
  assumes "keeps_names p" "lib_selector (pf_lib p) (DriverEffectiveNodeAffinity (dp_spec cr)) = Inr sel"
    "srv_list_nodes (pf_reads p) (hist s) = Inr items"
    "buildFullNodeDrainFilter p cr = Inr flt" "n \<in> set (filter_driver_matched p sel items)"
  shows "drain_asked p cr flt n (hist (final_of (prepareUpgrade p cr) s))"
  using assms by (simp add: prepareUpgrade_def listMatchedNodes_def list_nodes_def each_asked)



section \<open>Opening the nodes\<close>

fun opens_node :: "call \<Rightarrow> bool" where
  "opens_node (CPatchNode base new e) = (nd_unsched base \<and> \<not> nd_unsched new)"
| "opens_node _ = False"

text \<open>A patch that opens a node or drops the driver's mark from it.\<close>

fun releases :: "call \<Rightarrow> bool" where
  "releases (CPatchNode base new e) = (opens_node (CPatchNode base new e) \<or>
     nd_annos base AnnoDriverCordonedBy \<noteq> None \<and> nd_annos new AnnoDriverCordonedBy = None)"
| "releases _ = False"

text \<open>The step for one node: it opens a node of its own whose builder is ready, and makes no call for any
  other.\<close>

lemma uncordon_node_step:
  "if sget (nd_annos node) AnnoDriverCordonedBy = dp_name cr \<and> ready_at_target cr pods (nd_name node)
   then \<exists>new e cs. hist (final_of (uncordon_node p cr pods node) s) = hist s @ CPatchNode node new e # cs \<and>
          uncordon_patch (driverCordonOpts (dp_name cr)) node new
   else final_of (uncordon_node p cr pods node) s = s"
proof (cases "sget (nd_annos node) AnnoDriverCordonedBy = dp_name cr \<and> ready_at_target cr pods (nd_name node)")
  case True
  let ?rest = "\<lambda>r. case r :: err option \<times> node of (e, node) \<Rightarrow> (case e of
        Some _ \<Rightarrow> State_Monad.return ()
      | None \<Rightarrow> do { (_, node) \<leftarrow> removeDeployGates p node; State_Monad.return () })"
  have rest: "issues (\<lambda>c. True) (?rest r)" for r
    by (intro frame_rules issues_gates) simp_all
  obtain new e where u: "hist (final_of (UncordonNode p node (driverCordonOpts (dp_name cr))) s) =
      hist s @ [CPatchNode node new e]" "uncordon_patch (driverCordonOpts (dp_name cr)) node new"
    using True by (auto simp: UncordonNode_def driverCordonOpts_def patch_node_def uncordon_patch_def)
  have "final_of (uncordon_node p cr pods node) s =
      final_of (?rest (result_of (UncordonNode p node (driverCordonOpts (dp_name cr))) s))
        (final_of (UncordonNode p node (driverCordonOpts (dp_name cr))) s)"
    using True by (simp add: uncordon_node_def)
  then have "\<exists>cs. hist (final_of (uncordon_node p cr pods node) s) = hist s @ CPatchNode node new e # cs"
    using issuesD [OF rest] u(1) by (metis append.assoc append_Cons append_Nil)
  then show ?thesis using True u(2) by auto
next
  case False
  then show ?thesis by (auto simp: uncordon_node_def)
qed

text \<open>\<open>may_release p cr h node\<close>: among the calls \<open>h\<close> are a listing of the nodes that shows the node matched
  and annotated with the policy, and right after it a listing of the builder pods that shows one on it ready
  at the target version.\<close>

definition builder_listing :: "platform \<Rightarrow> drv_policy \<Rightarrow> call" where
  "builder_listing p cr = CListPods (Some (operatorNamespace p)) [(''driver.tenstorrent.com/cr'', dp_name cr)]"

definition listed_ready :: "platform \<Rightarrow> drv_policy \<Rightarrow> call list \<Rightarrow> node \<Rightarrow> bool" where
  "listed_ready p cr h0 node \<longleftrightarrow> (\<exists>sel items pods.
     lib_selector (pf_lib p) (DriverEffectiveNodeAffinity (dp_spec cr)) = Inr sel \<and>
     srv_list_nodes (pf_reads p) h0 = Inr items \<and> node \<in> set (filter_driver_matched p sel items) \<and>
     sget (nd_annos node) AnnoDriverCordonedBy = dp_name cr \<and>
     srv_list_pods (pf_reads p) (h0 @ [CListNodes]) (Some (operatorNamespace p))
       [(''driver.tenstorrent.com/cr'', dp_name cr)] = Inr pods \<and>
     ready_at_target cr pods (nd_name node))"

definition may_release :: "platform \<Rightarrow> drv_policy \<Rightarrow> call list \<Rightarrow> node \<Rightarrow> bool" where
  "may_release p cr h node \<longleftrightarrow> drainEnabledForCR cr \<and>
     (\<exists>h0 hs. h = h0 @ CListNodes # builder_listing p cr # hs \<and> listed_ready p cr h0 node)"

definition opens_well :: "platform \<Rightarrow> drv_policy \<Rightarrow> call list \<Rightarrow> call \<Rightarrow> bool" where
  "opens_well p cr h x \<longleftrightarrow> (releases x \<longrightarrow> (\<exists>node new e. x = CPatchNode node new e \<and>
     uncordon_patch (driverCordonOpts (dp_name cr)) node new \<and> may_release p cr h node))"

lemma opens_well_quiet: "issues (\<lambda>x. \<not> releases x) m \<Longrightarrow> keeps (issued_at (opens_well p cr)) m"
  by (erule issues_at_of) (simp add: opens_well_def)

text \<open>The listings at the head of the uncordon step.\<close>

lemma uncordonReadyNodes_run:
  "final_of (uncordonReadyNodes p cr (Some d)) s =
     (case (lib_selector (pf_lib p) (DriverEffectiveNodeAffinity (dp_spec cr))) of
        Inl e \<Rightarrow> s
      | Inr sel \<Rightarrow> (let s1 = s\<lparr>hist := hist s @ [CListNodes]\<rparr>; s2 = s1\<lparr>hist := hist s1 @ [builder_listing p cr]\<rparr> in
          case srv_list_nodes (pf_reads p) (hist s) of
            Inl e \<Rightarrow> s1
          | Inr items \<Rightarrow>
              (case srv_list_pods (pf_reads p) (hist s1) (Some (operatorNamespace p))
                  [(''driver.tenstorrent.com/cr'', dp_name cr)] of
                 Inl e \<Rightarrow> s2
               | Inr pods \<Rightarrow> final_of (each (uncordon_node p cr pods) (filter_driver_matched p sel items)) s2)))"
  by (simp add: uncordonReadyNodes_def listMatchedNodes_def list_nodes_def installer_pods_def list_pods_def
      builder_listing_def Let_def split: sum.split)

lemma uncordonReadyNodes_opens:
  assumes "drainEnabledForCR cr"
  shows "issued_at (opens_well p cr) s (final_of (uncordonReadyNodes p cr (Some d)) s)"
proof -
  have one: "issued_at (opens_well p cr) t (t\<lparr>hist := hist t @ [x]\<rparr>)" if "\<not> releases x" for t x
    by (rule issued_at_of [where P = "\<lambda>x. \<not> releases x"]) (simp_all add: issued_def that opens_well_def)
  let ?s1 = "s\<lparr>hist := hist s @ [CListNodes]\<rparr>"
  let ?s2 = "?s1\<lparr>hist := hist ?s1 @ [builder_listing p cr]\<rparr>"
  have s12: "issued_at (opens_well p cr) s ?s1" by (rule one) simp
  moreover have "issued_at (opens_well p cr) ?s1 ?s2" by (rule one) (simp add: builder_listing_def)
  ultimately have s2: "issued_at (opens_well p cr) s ?s2" by (rule issued_at_trans)
  have loop: "issued_at (opens_well p cr) s (final_of (each (uncordon_node p cr pods) (filter_driver_matched p sel items)) ?s2)"
    if "lib_selector (pf_lib p) (DriverEffectiveNodeAffinity (dp_spec cr)) = Inr sel"
      "srv_list_nodes (pf_reads p) (hist s) = Inr items" "srv_list_pods (pf_reads p) (hist ?s1) (Some (operatorNamespace p))
         [(''driver.tenstorrent.com/cr'', dp_name cr)] = Inr pods" for sel items pods
  proof -
    let ?P = "\<lambda>x. releases x \<longrightarrow> (\<exists>node new e. x = CPatchNode node new e \<and>
      uncordon_patch (driverCordonOpts (dp_name cr)) node new \<and> listed_ready p cr (hist s) node)"
    have node: "issues ?P (uncordon_node p cr pods nd)" if nd: "nd \<in> set (filter_driver_matched p sel items)" for nd
    proof (cases "sget (nd_annos nd) AnnoDriverCordonedBy = dp_name cr \<and> ready_at_target cr pods (nd_name nd)")
      case True
      then have "listed_ready p cr (hist s) nd"
        using that \<open>lib_selector _ _ = _\<close> \<open>srv_list_nodes _ _ = _\<close> \<open>srv_list_pods _ _ _ _ = _\<close> nd
        by (auto simp: listed_ready_def)
      then show ?thesis
        unfolding uncordon_node_def
        by (intro frame_rules issues_UncordonNode issues_gates) (auto simp: node_patch_def)
    qed (auto simp: uncordon_node_def intro!: frame_rules)
    have "issued ?P ?s2 (final_of (each (uncordon_node p cr pods) (filter_driver_matched p sel items)) ?s2)"
      by (rule keepsD) (intro issue.each node)
    then have "issued_at (opens_well p cr) ?s2 (final_of (each (uncordon_node p cr pods) (filter_driver_matched p sel items)) ?s2)"
      using assms by (fastforce simp: issued_def issued_at_def opens_well_def may_release_def)
    with s2 show ?thesis by (rule issued_at_trans)
  qed
  show ?thesis
    unfolding uncordonReadyNodes_run using s12 s2 loop
    by (auto simp: issue_at.refl Let_def split: sum.split)
qed

lemma each_uncordon_sent:
  assumes "n \<in> set nodes" "sget (nd_annos n) AnnoDriverCordonedBy = dp_name cr" "ready_at_target cr pods (nd_name n)"
  shows "\<exists>cs new e. hist (final_of (each (uncordon_node p cr pods) nodes) s) = hist s @ cs \<and>
    CPatchNode n new e \<in> set cs \<and> uncordon_patch (driverCordonOpts (dp_name cr)) n new"
  using assms(1)
proof (induction nodes arbitrary: s)
  case (Cons m ms)
  have any: "issues (\<lambda>c. True) (uncordon_node p cr pods x)" for x
    unfolding uncordon_node_def by (intro frame_rules issues_UncordonNode issues_gates) simp_all
  let ?t = "final_of (uncordon_node p cr pods m) s"
  have "issues (\<lambda>c. True) (each (uncordon_node p cr pods) ms)" by (intro issue.each any)
  then obtain cs ds where c: "hist ?t = hist s @ cs" "hist (final_of (each (uncordon_node p cr pods) ms) ?t) = hist ?t @ ds"
    using issuesD [OF any] by (meson issuesD)
  show ?case
  proof (cases "n = m")
    case True
    then obtain new e cs' where "hist ?t = hist s @ CPatchNode n new e # cs'"
      "uncordon_patch (driverCordonOpts (dp_name cr)) n new"
      using uncordon_node_step [of m cr pods p s] assms(2,3) by auto
    then show ?thesis using c by (intro exI [of _ "cs @ ds"]) auto
  next
    case False
    then obtain cs' new e where "hist (final_of (each (uncordon_node p cr pods) ms) ?t) = hist ?t @ cs'"
      "CPatchNode n new e \<in> set cs'" "uncordon_patch (driverCordonOpts (dp_name cr)) n new"
      using Cons by fastforce
    then show ?thesis using c(1) by (intro exI [of _ "cs @ cs'"]) auto
  qed
qed simp

text \<open>The step lists the nodes once, as its first call.\<close>

lemma uncordonReadyNodes_lists:
  assumes "lib_selector (pf_lib p) (DriverEffectiveNodeAffinity (dp_spec cr)) = Inr sel"
  shows "\<exists>cs. hist (final_of (uncordonReadyNodes p cr (Some d)) s) = hist s @ CListNodes # cs \<and> CListNodes \<notin> set cs"
proof -
  have "issues (\<lambda>x. x \<noteq> CListNodes) (each (uncordon_node p cr pods) nodes)" for pods nodes
    unfolding uncordon_node_def by (intro frame_rules issues_UncordonNode issues_gates) simp_all
  then have loop: "\<exists>cs. hist (final_of (each (uncordon_node p cr pods) nodes) t) = hist t @ cs \<and> CListNodes \<notin> set cs"
    for pods nodes t using issuesD by (fastforce simp: list_all_iff)
  show ?thesis
  proof (cases "srv_list_nodes (pf_reads p) (hist s)")
    case (Inr items)
    show ?thesis
    proof (cases "srv_list_pods (pf_reads p) (hist s @ [CListNodes]) (Some (operatorNamespace p))
        [(''driver.tenstorrent.com/cr'', dp_name cr)]")
      case (Inr pods)
      then show ?thesis
        using loop [of pods "filter_driver_matched p sel items" "s\<lparr>hist := hist s @ [CListNodes, builder_listing p cr]\<rparr>"]
        by (auto simp: uncordonReadyNodes_run assms \<open>srv_list_nodes _ _ = _\<close> builder_listing_def)
    qed (simp add: uncordonReadyNodes_run assms Inr builder_listing_def)
  qed (simp add: uncordonReadyNodes_run assms)
qed

text \<open>A status write does not touch the spec: the status subresource takes the status only, and the
  write is refused as a conflict when the object changed since it was read.\<close>

definition status_keeps_spec :: "platform \<Rightarrow> bool" where
  "status_keeps_spec p \<longleftrightarrow> (\<forall>h cr cr'. srv_update_drv (pf_writes p) h cr = Inr cr' \<longrightarrow>
     dp_name cr' = dp_name cr \<and> dp_spec cr' = dp_spec cr)"

lemma updateStatus_spec:
  "status_keeps_spec p \<Longrightarrow> dp_name (snd (result_of (updateStatus p cr ds m) s)) = dp_name cr \<and>
     dp_spec (snd (result_of (updateStatus p cr ds m) s)) = dp_spec cr"
  by (auto simp: updateStatus_def update_drv_status_def status_keeps_spec_def split_beta
      conditions_same_spec populate_same_spec split: sum.split)

lemma uncordonReadyNodes_cong:
  "dp_name cr' = dp_name cr \<Longrightarrow> dp_spec cr' = dp_spec cr \<Longrightarrow>
   uncordonReadyNodes p cr' ds = uncordonReadyNodes p cr ds"
proof -
  assume same: "dp_name cr' = dp_name cr" "dp_spec cr' = dp_spec cr"
  have "uncordon_node p cr' = uncordon_node p cr"
    by (intro ext) (simp add: uncordon_node_def ready_at_target_def same)
  moreover have "listMatchedNodes p cr' = listMatchedNodes p cr" "installer_pods p cr' = installer_pods p cr"
    by (simp_all add: listMatchedNodes_def installer_pods_def same)
  ultimately show ?thesis by (simp add: uncordonReadyNodes_def cong: option.case_cong sum.case_cong)
qed

text \<open>The end of a reconcile around the uncordon step.\<close>

definition before_uncordon :: "platform \<Rightarrow> drv_policy \<Rightarrow> unit io" where
  "before_uncordon p cr = do {
     ce \<leftarrow> cleanupKMDVersionLabels p cr;
     (case ce of None \<Rightarrow> State_Monad.return () | Some _ \<Rightarrow> inc_driver_error (dp_name cr) ''cleanup_kmd_version_labels'');
     ke \<leftarrow> recordKMDVersionMetrics p;
     (case ke of None \<Rightarrow> State_Monad.return () | Some _ \<Rightarrow> inc_driver_error (dp_name cr) ''record_kmd_version_metrics'')
   }"

definition after_uncordon :: "platform \<Rightarrow> drv_policy \<Rightarrow> err option \<Rightarrow> unit io" where
  "after_uncordon p cr une = do {
     (case une of None \<Rightarrow> State_Monad.return () | Some _ \<Rightarrow> inc_driver_error (dp_name cr) ''uncordon_ready_nodes'');
     DriverReconcileSucceeded p (dp_name cr)
   }"

lemma finish_driver_run:
  assumes "result_of (updateStatus p cr (Some d) m) s = (e, cr')"
  shows "final_of (finish_driver p cr d m) s = (let s1 = final_of (updateStatus p cr (Some d) m) s in
    case e of
      Some x \<Rightarrow> if ekind x = Conflict then s1 else final_of (inc_driver_error (dp_name cr') ''update_status'') s1
    | None \<Rightarrow> let s2 = final_of (before_uncordon p cr') s1 in
        if drainEnabledForCR cr'
        then final_of (after_uncordon p cr' (result_of (uncordonReadyNodes p cr' (Some d)) s2))
               (final_of (uncordonReadyNodes p cr' (Some d)) s2)
        else final_of (after_uncordon p cr' None) s2)"
  using assms by (simp add: finish_driver_def before_uncordon_def after_uncordon_def Let_def split: option.split)

lemma around_uncordon:
  "issues (\<lambda>x. \<not> releases x) (before_uncordon p cr)" "issues (\<lambda>x. \<not> releases x) (after_uncordon p cr une)"
  "issues (\<lambda>x. \<not> releases x) (inc_driver_error y st)" "issues (\<lambda>x. \<not> releases x) (updateStatus p cr ds m)"
  unfolding before_uncordon_def after_uncordon_def
  by (intro frame_rules issues_cleanup issues_updateStatus; auto simp: node_patch_def)+

lemma quiet_deletion: "issues (\<lambda>x. \<not> releases x) (DeleteDriverPolicySeries y)"
  by (intro frame_rules)

lemma finish_driver_opens:
  assumes "status_keeps_spec p"
  shows "keeps (issued_at (opens_well p cr)) (finish_driver p cr d m)"
proof -
  have "issued_at (opens_well p cr) s (final_of (finish_driver p cr d m) s)" for s
  proof -
    obtain e cr' where r: "result_of (updateStatus p cr (Some d) m) s = (e, cr')" by fastforce
    with updateStatus_spec [OF assms, of cr "Some d" m s] have same: "dp_name cr' = dp_name cr" "dp_spec cr' = dp_spec cr"
      by simp_all
    then have on: "drainEnabledForCR cr' = drainEnabledForCR cr" by (simp add: drainEnabledForCR_def)
    note parts = around_uncordon [THEN opens_well_quiet, THEN keepsD]
    let ?s1 = "final_of (updateStatus p cr (Some d) m) s"
    let ?s2 = "final_of (before_uncordon p cr') ?s1"
    have s1: "issued_at (opens_well p cr) s ?s1" by (rule parts(4))
    have s2: "issued_at (opens_well p cr) s ?s2" by (rule issued_at_trans [OF s1 parts(1)])
    have inc: "issued_at (opens_well p cr) ?s1 (final_of (inc_driver_error (dp_name cr') ''update_status'') ?s1)"
      by (rule parts(3))
    show ?thesis
    proof (cases e)
      case None
      then show ?thesis
        using issued_at_trans [OF s2 parts(2)] issued_at_trans [OF issued_at_trans [OF s2 uncordonReadyNodes_opens] parts(2)]
        by (simp add: finish_driver_run [OF r] Let_def on uncordonReadyNodes_cong [OF same])
    next
      case (Some x)
      then show ?thesis
        using s1 issued_at_trans [OF s1 inc] by (simp add: finish_driver_run [OF r] Let_def)
    qed
  qed
  then show ?thesis by (simp add: keeps_def)
qed

lemma drain_releases_nothing: "issues (\<lambda>x. \<not> releases x) (sync_existing p cr existing desired)"
  unfolding sync_existing_def
  by (intro frame_rules issues_prepareUpgrade) (auto simp: cordon_patch_def node_patch_def driverCordonOpts_def const_defs)

lemma reconcile_driver_opens:
  assumes "status_keeps_spec p"
  shows "keeps (issued_at (opens_well p cr)) (reconcile_driver p cr)"
  unfolding reconcile_driver_def create_desired_def Let_def
  by (intro issue_at.rules finish_driver_opens [OF assms] opens_well_quiet drain_releases_nothing around_uncordon;
      (intro frame_rules; simp)?)

lemma finish_driver_sends:
  assumes "status_keeps_spec p" and on: "drainEnabledForCR cr"
    and ok: "fst (result_of (updateStatus p cr (Some d) m) s) = None"
    and sel: "lib_selector (pf_lib p) (DriverEffectiveNodeAffinity (dp_spec cr)) = Inr sel"
  shows "\<exists>h0 hs. hist (final_of (finish_driver p cr d m) s) = h0 @ CListNodes # hs \<and> CListNodes \<notin> set hs \<and>
    (\<forall>node. listed_ready p cr h0 node \<longrightarrow>
       (\<exists>new e. CPatchNode node new e \<in> set hs \<and> uncordon_patch (driverCordonOpts (dp_name cr)) node new))"
proof -
  obtain cr' where r: "result_of (updateStatus p cr (Some d) m) s = (None, cr')"
    using ok by (metis prod.collapse)
  with updateStatus_spec [OF assms(1), of cr "Some d" m s] have same: "dp_name cr' = dp_name cr" "dp_spec cr' = dp_spec cr"
    by simp_all
  let ?s2 = "final_of (before_uncordon p cr') (final_of (updateStatus p cr (Some d) m) s)"
  let ?open = "uncordonReadyNodes p cr (Some d)"
  have run: "final_of (finish_driver p cr d m) s = final_of (after_uncordon p cr' (result_of ?open ?s2)) (final_of ?open ?s2)"
    using on by (simp add: finish_driver_run [OF r] Let_def uncordonReadyNodes_cong [OF same]) (simp add: drainEnabledForCR_def same)
  obtain c1 where c1: "hist (final_of ?open ?s2) = hist ?s2 @ CListNodes # c1" "CListNodes \<notin> set c1"
    using uncordonReadyNodes_lists [OF sel] by blast
  have "issues (\<lambda>x. x \<noteq> CListNodes) (after_uncordon p cr' une)" for une
    unfolding after_uncordon_def by (intro frame_rules; simp)
  then obtain c2 where c2: "hist (final_of (finish_driver p cr d m) s) = hist (final_of ?open ?s2) @ c2" "CListNodes \<notin> set c2"
    unfolding run using issuesD by (fastforce simp: list_all_iff)
  have "\<exists>new e. CPatchNode node new e \<in> set c1 \<and> uncordon_patch (driverCordonOpts (dp_name cr)) node new"
    if shown: "listed_ready p cr (hist ?s2) node" for node
  proof -
    obtain sel items pods where l: "lib_selector (pf_lib p) (DriverEffectiveNodeAffinity (dp_spec cr)) = Inr sel"
      "srv_list_nodes (pf_reads p) (hist ?s2) = Inr items" "node \<in> set (filter_driver_matched p sel items)"
      "sget (nd_annos node) AnnoDriverCordonedBy = dp_name cr" "ready_at_target cr pods (nd_name node)"
      "srv_list_pods (pf_reads p) (hist ?s2 @ [CListNodes]) (Some (operatorNamespace p))
         [(''driver.tenstorrent.com/cr'', dp_name cr)] = Inr pods"
      using shown unfolding listed_ready_def by blast
    let ?t = "?s2\<lparr>hist := hist ?s2 @ [CListNodes, builder_listing p cr]\<rparr>"
    have "final_of ?open ?s2 = final_of (each (uncordon_node p cr pods) (filter_driver_matched p sel items)) ?t"
      by (simp add: uncordonReadyNodes_run l(1,2,6))
    then show ?thesis using each_uncordon_sent [OF l(3-5), of p ?t] c1(1) by fastforce
  qed
  then show ?thesis
    using c1 c2 by - (rule exI [of _ "hist ?s2"], rule exI [of _ "c1 @ c2"], fastforce)
qed

text \<open>The builder of the policy, ready on a node.\<close>

definition builder_at :: "string \<Rightarrow> pod" where
  "builder_at n = (plain_pod ''tt-k8s-driver-manager-system'' ''builder'' n)\<lparr>pd_labels := driver_pod_labels (plain_drv ''d''),
     pd_spec := zero_pod_spec\<lparr>ps_node := n,
       ps_containers := [builder_container (testbed [] [] [] []) (plain_drv ''d'')]\<rparr>,
     pd_conds := [(''Ready'', ConditionTrue)]\<rparr>"



end
