(* ===== verification/DriverStatus.thy ===== *)
theory DriverStatus
  imports DriverSafety
begin

text \<open>
  The report of a driver reconcile: the state of a node and the uncordon step, the node statuses with their
  events and counters, every status that is written, the summary mirrored from the DaemonSet, the conditions
  and the gauges.
\<close>

section \<open>The state of a node\<close>

definition image_pull_failed :: "podInfo \<Rightarrow> bool" where
  "image_pull_failed info \<longleftrightarrow> pi_waiting info = ''ImagePullBackOff'' \<or> pi_waiting info = ''ErrImagePull''"

definition crash_looping :: "podInfo \<Rightarrow> bool" where
  "crash_looping info \<longleftrightarrow> 3 \<le> sint (pi_restarts info) \<and> \<not> pi_ready info"

definition host_managed :: "node \<Rightarrow> bool" where
  "host_managed node \<longleftrightarrow> sget (nd_labels node) LabelInstallMode = ''host''"

definition held_by_policy :: "drv_policy \<Rightarrow> node \<Rightarrow> bool" where
  "held_by_policy cr node \<longleftrightarrow> sget (nd_annos node) AnnoDriverCordonedBy = dp_name cr"

lemma at_target_not_failed: "pi_ready info \<Longrightarrow> \<not> crash_looping info"
  by (simp add: crash_looping_def)

lemmas state_defs = computeDriverNodeStateReason_def image_pull_failed_def crash_looping_def
  host_managed_def held_by_policy_def const_defs Let_def

lemma uncordoning_cause:
  "fst (computeDriverNodeStateReason node info cr) = DrvUncordoning \<longleftrightarrow>
     \<not> host_managed node \<and> \<not> image_pull_failed info \<and> pi_ready info \<and> pi_version info = dv_version (dp_spec cr) \<and>
     held_by_policy cr node"
  by (auto simp: state_defs)

lemma silent_state:
  "fst (snd (computeDriverNodeStateReason node info cr)) = [] \<longleftrightarrow>
   fst (computeDriverNodeStateReason node info cr) = DrvPending"
  by (auto simp: state_defs)

text \<open>The entry of a node, by the causes of its state. A node under way is \<open>Uncordoning\<close> or \<open>Draining\<close> by the
  policy's annotation alone; nothing is ever reported as \<open>Cordoning\<close>.\<close>

definition state_caused :: "drv_policy \<Rightarrow> (string \<rightharpoonup> podInfo) \<Rightarrow> node \<Rightarrow> drv_node_status \<Rightarrow> bool" where
  "state_caused cr byNode node x \<longleftrightarrow>
     (let info = info_of byNode (nd_name node);
          ok = (\<not> host_managed node \<and> \<not> image_pull_failed info);
          target = (pi_version info = dv_version (dp_spec cr))
      in dn_name x = nd_name node \<and> dn_current x = pi_version info \<and>
         (dn_state x = DrvHostManaged \<longleftrightarrow> host_managed node) \<and>
         (dn_state x = DrvFailed \<longleftrightarrow> \<not> host_managed node \<and> (image_pull_failed info \<or> crash_looping info)) \<and>
         (dn_state x = DrvDone \<longleftrightarrow> ok \<and> pi_ready info \<and> target \<and> \<not> held_by_policy cr node) \<and>
         (dn_state x = DrvUncordoning \<longleftrightarrow> ok \<and> pi_ready info \<and> target \<and> held_by_policy cr node) \<and>
         (dn_state x = DrvUpgrading \<longleftrightarrow> ok \<and> \<not> pi_ready info \<and> \<not> crash_looping info \<and> target) \<and>
         (dn_state x = DrvDraining \<longleftrightarrow> ok \<and> \<not> crash_looping info \<and> \<not> target \<and> held_by_policy cr node) \<and>
         dn_state x \<noteq> DrvCordoning \<and> (dn_reason x = [] \<longleftrightarrow> dn_state x = DrvPending))"

lemma computed_state_caused:
  "dn_name x = nd_name node \<Longrightarrow> dn_current x = pi_version (info_of byNode (nd_name node)) \<Longrightarrow>
   (dn_state x, dn_reason x, msg) = computeDriverNodeStateReason node (info_of byNode (nd_name node)) cr \<Longrightarrow>
   state_caused cr byNode node x"
  unfolding state_caused_def by (auto simp: state_defs split: if_splits)

section \<open>Pods by node\<close>

lemma pods_by_node_last:
  "pods_by_node m pods n =
     (case filter (\<lambda>pd. ps_node (pd_spec pd) = n \<and> n \<noteq> []) pods of
        [] \<Rightarrow> m n
      | x # xs \<Rightarrow> Some (pod_info (last (x # xs))))"
proof (induction pods arbitrary: m n)
  case (Cons pd pds)
  show ?case
    by (cases "n = []"; cases "ps_node (pd_spec pd) = n") (auto simp: Cons.IH split: list.split)
qed simp

text \<open>At most one builder pod sits on each node.\<close>

definition one_pod_per_node :: "pod list \<Rightarrow> bool" where
  "one_pod_per_node pods \<longleftrightarrow>
     distinct (map (\<lambda>pd. ps_node (pd_spec pd)) (filter (\<lambda>pd. ps_node (pd_spec pd) \<noteq> []) pods))"

lemma one_pod_filter:
  assumes "one_pod_per_node pods" "pd \<in> set pods" "ps_node (pd_spec pd) = n" "n \<noteq> []"
  shows "filter (\<lambda>pd. ps_node (pd_spec pd) = n \<and> n \<noteq> []) pods = [pd]"
  using assms
proof (induction pods)
  case (Cons q qs)
  then have rest: "one_pod_per_node qs"
    by (auto simp: one_pod_per_node_def split: if_splits)
  show ?case
  proof (cases "q = pd")
    case True
    then have "ps_node (pd_spec x) \<noteq> n" if "x \<in> set qs" for x
      using Cons.prems that by (auto simp: one_pod_per_node_def image_iff split: if_splits)
    then show ?thesis using True Cons.prems by (auto simp: filter_empty_conv)
  next
    case False
    then have "pd \<in> set qs" using Cons.prems by simp
    then have "ps_node (pd_spec q) \<noteq> n"
      using Cons.prems by (auto simp: one_pod_per_node_def image_iff split: if_splits)
    then show ?thesis using Cons rest \<open>pd \<in> set qs\<close> by simp
  qed
qed simp

lemma one_pod_info:
  assumes "one_pod_per_node pods" "pd \<in> set pods" "ps_node (pd_spec pd) = n" "n \<noteq> []"
  shows "info_of (pods_by_node Map.empty pods) n = pod_info pd"
  unfolding info_of_def pods_by_node_last one_pod_filter [OF assms] by simp

lemma ready_at_target_info:
  assumes "one_pod_per_node pods" "n \<noteq> []"
  shows "ready_at_target cr pods n \<longleftrightarrow> pi_ready (info_of (pods_by_node Map.empty pods) n) \<and>
    pi_version (info_of (pods_by_node Map.empty pods) n) = dv_version (dp_spec cr)"
proof (cases "\<exists>pd \<in> set pods. ps_node (pd_spec pd) = n")
  case True
  then obtain pd where pd: "pd \<in> set pods" "ps_node (pd_spec pd) = n" by blast
  have only: "q = pd" if "q \<in> set pods" "ps_node (pd_spec q) = n" for q
  proof -
    have "q \<in> set (filter (\<lambda>pd. ps_node (pd_spec pd) = n \<and> n \<noteq> []) pods)" using that assms(2) by simp
    then show ?thesis by (simp only: one_pod_filter [OF assms(1) pd assms(2)]) simp
  qed
  show ?thesis
    using one_pod_info [OF assms(1) pd assms(2)] pd assms(2)
    by (auto simp: ready_at_target_def list_ex_iff pod_info_def intro!: bexI [of _ pd] dest: only)
next
  case False
  then have "info_of (pods_by_node Map.empty pods) n = zero_podInfo"
    by (auto simp: info_of_def pods_by_node_last filter_empty_conv split: list.split)
  then show ?thesis using False by (auto simp: ready_at_target_def list_ex_iff zero_podInfo_def)
qed

text \<open>C26: The report and the uncordon step agree: with at most one builder pod per node, a node that is
  not host-managed and whose builder is not stuck on an image pull is reported \<open>Uncordoning\<close> exactly when
  the uncordon step, run on the same node and pods, sends a patch for it, and that patch opens the node and
  removes the policy's annotation. (For a host-managed node, or one stuck on an image pull, the report says
  something else, while the step does not look at either.)\<close>

theorem reported_uncordoning_is_opened:
  assumes "one_pod_per_node pods" "\<not> host_managed node" "nd_name node \<noteq> []"
    "\<not> image_pull_failed (info_of (pods_by_node Map.empty pods) (nd_name node))"
  shows "fst (computeDriverNodeStateReason node (info_of (pods_by_node Map.empty pods) (nd_name node)) cr)
       = DrvUncordoning \<longleftrightarrow>
     (\<exists>new e cs. hist (final_of (uncordon_node p cr pods node) s) = hist s @ CPatchNode node new e # cs \<and>
        \<not> nd_unsched new \<and> nd_annos new AnnoDriverCordonedBy = None)"
proof -
  let ?i = "info_of (pods_by_node Map.empty pods) (nd_name node)"
  have "fst (computeDriverNodeStateReason node ?i cr) = DrvUncordoning \<longleftrightarrow>
      sget (nd_annos node) AnnoDriverCordonedBy = dp_name cr \<and> ready_at_target cr pods (nd_name node)"
    using assms(2,4) ready_at_target_info [OF assms(1,3)] by (auto simp: uncordoning_cause held_by_policy_def)
  also have "\<dots> \<longleftrightarrow> (\<exists>new e cs. hist (final_of (uncordon_node p cr pods node) s) = hist s @ CPatchNode node new e # cs \<and>
      \<not> nd_unsched new \<and> nd_annos new AnnoDriverCordonedBy = None)"
    using uncordon_node_step [of node cr pods p s]
    by (auto simp: uncordon_patch_def driverCordonOpts_def split: if_splits)
  finally show ?thesis .
qed

text \<open>A node that the policy holds, with its builder ready: both sides are true.\<close>

lemma reported_uncordoning_is_opened_witness:
  "let node = (plain_node ''n1'')\<lparr>nd_unsched := True, nd_annos := [AnnoDriverCordonedBy \<mapsto> ''d'']\<rparr>
   in fst (computeDriverNodeStateReason node (info_of (pods_by_node Map.empty [builder_at ''n1'']) ''n1'') (plain_drv ''d''))
        = DrvUncordoning \<and>
      (\<exists>new e cs. hist (final_of (uncordon_node (testbed [node] [] [] []) (plain_drv ''d'') [builder_at ''n1''] node) init_sys) =
         CPatchNode node new e # cs \<and> \<not> nd_unsched new)"
proof -
  let ?n = "(plain_node ''n1'')\<lparr>nd_unsched := True, nd_annos := [AnnoDriverCordonedBy \<mapsto> ''d'']\<rparr>"
  let ?pods = "[builder_at ''n1'']"
  have n: "nd_name ?n = ''n1''" "\<not> host_managed ?n" "held_by_policy (plain_drv ''d'') ?n"
    by (simp_all add: plain_node_def host_managed_def held_by_policy_def plain_drv_def const_defs)
  have i: "info_of (pods_by_node Map.empty ?pods) ''n1'' = pod_info (builder_at ''n1'')"
    by (simp add: info_of_def builder_at_def)
  then have pull: "\<not> image_pull_failed (info_of (pods_by_node Map.empty ?pods) (nd_name ?n))"
    using n(1) by (simp add: pod_info_def image_pull_failed_def builder_at_def plain_pod_def)
  have state: "fst (computeDriverNodeStateReason ?n (info_of (pods_by_node Map.empty ?pods) (nd_name ?n)) (plain_drv ''d'')) = DrvUncordoning"
    using n by (simp add: uncordoning_cause info_of_def pod_info_def image_pull_failed_def builder_at_def plain_pod_def plain_drv_def
        podEnv_def builder_container_def builder_env_def env_lit_def pod_ready_def const_defs)
  have one: "one_pod_per_node ?pods" by (simp add: one_pod_per_node_def)
  have "nd_name ?n \<noteq> []" using n(1) by simp
  from iffD1 [OF reported_uncordoning_is_opened [OF one n(2) this pull] state, of "testbed [?n] [] [] []" init_sys]
  obtain new e cs where "hist (final_of (uncordon_node (testbed [?n] [] [] []) (plain_drv ''d'') ?pods ?n) init_sys) =
      CPatchNode ?n new e # cs" "\<not> nd_unsched new"
    by (auto simp: init_sys_def)
  then show ?thesis using state n(1) unfolding Let_def by auto
qed

section \<open>Node statuses\<close>

definition drv_unchanged :: "(string \<rightharpoonup> drv_node_status) \<Rightarrow> string \<Rightarrow> drv_state \<Rightarrow> string \<Rightarrow> bool" where
  "drv_unchanged prev n state reason \<longleftrightarrow>
     (\<exists>old. prev n = Some old \<and> dn_state old = state \<and> dn_reason old = reason)"

lemma run_driver_node_status:
  assumes "computeDriverNodeStateReason node (info_of byNode (nd_name node)) cr = (state, reason, msg)"
  shows "result_of (driver_node_status p cr byNode prev node) s =
     \<lparr>dn_name = nd_name node, dn_state = state, dn_reason = reason,
       dn_current = pi_version (info_of byNode (nd_name node)), dn_msg = msg,
       dn_time = (if drv_unchanged prev (nd_name node) state reason
         then dn_time (the (prev (nd_name node))) else pf_now p (hist s))\<rparr>"
    and "evts (final_of (driver_node_status p cr byNode prev node) s) = evts s @
      (if drv_unchanged prev (nd_name node) state reason \<or> \<not> pf_recorder p \<or> reason = [] then []
       else [Event (dp_name cr) (driver_event_type state reason) reason
         (if msg \<noteq> [] then nd_name node @ '': '' @ msg else nd_name node)])"
proof -
  have "reason = [] \<longleftrightarrow> state = DrvPending"
    using silent_state [of node "info_of byNode (nd_name node)" cr] assms by simp
  then show "result_of (driver_node_status p cr byNode prev node) s =
     \<lparr>dn_name = nd_name node, dn_state = state, dn_reason = reason,
       dn_current = pi_version (info_of byNode (nd_name node)), dn_msg = msg,
       dn_time = (if drv_unchanged prev (nd_name node) state reason
         then dn_time (the (prev (nd_name node))) else pf_now p (hist s))\<rparr>"
    "evts (final_of (driver_node_status p cr byNode prev node) s) = evts s @
      (if drv_unchanged prev (nd_name node) state reason \<or> \<not> pf_recorder p \<or> reason = [] then []
       else [Event (dp_name cr) (driver_event_type state reason) reason
         (if msg \<noteq> [] then nd_name node @ '': '' @ msg else nd_name node)])"
    using assms
    by (auto simp: driver_node_status_def drv_unchanged_def recordDriverNodeStateEvent_def now_def
        Let_def split: option.splits)
qed

definition drv_report :: "drv_policy \<Rightarrow> (string \<rightharpoonup> podInfo) \<Rightarrow> node \<Rightarrow> drv_state \<times> string \<times> string" where
  "drv_report cr byNode node = computeDriverNodeStateReason node (info_of byNode (nd_name node)) cr"

text \<open>The entry of a node: its computed state, and the old transition time unless something changed.\<close>

definition drv_entry :: "drv_policy \<Rightarrow> (string \<rightharpoonup> podInfo) \<Rightarrow> (string \<rightharpoonup> drv_node_status) \<Rightarrow> node \<Rightarrow>
    drv_node_status \<Rightarrow> bool" where
  "drv_entry cr byNode prev node x \<longleftrightarrow>
     dn_name x = nd_name node \<and> (dn_state x, dn_reason x, dn_msg x) = drv_report cr byNode node \<and>
     dn_current x = pi_version (info_of byNode (nd_name node)) \<and>
     (drv_unchanged prev (nd_name node) (dn_state x) (dn_reason x) \<longrightarrow>
        dn_time x = dn_time (the (prev (nd_name node))))"

definition drv_event :: "drv_policy \<Rightarrow> (string \<rightharpoonup> podInfo) \<Rightarrow> (string \<rightharpoonup> drv_node_status) \<Rightarrow> node \<Rightarrow> event list" where
  "drv_event cr byNode prev node =
     (let (state, reason, msg) = drv_report cr byNode node in
      if drv_unchanged prev (nd_name node) state reason \<or> reason = [] then []
      else [Event (dp_name cr) (driver_event_type state reason) reason
         (if msg \<noteq> [] then nd_name node @ '': '' @ msg else nd_name node)])"

lemma entry_of_run:
  "drv_entry cr byNode prev node (result_of (driver_node_status p cr byNode prev node) s)"
  "evts (final_of (driver_node_status p cr byNode prev node) s) =
     evts s @ (if pf_recorder p then drv_event cr byNode prev node else [])"
  using run_driver_node_status [of node byNode cr _ _ _ p prev s]
  by (cases "drv_report cr byNode node"; simp add: drv_entry_def drv_report_def drv_event_def)+

text \<open>The driver status lists the matched nodes in order with their computed states; a transition time
  is kept exactly while state and reason stay the same, and every other node with a reason gets one
  event, in node order.\<close>

theorem driver_statuses_entries:
  "list_all2 (drv_entry cr byNode prev) nodes
       (fst (result_of (driver_statuses p cr byNode prev c nodes) s)) \<and>
   evts (final_of (driver_statuses p cr byNode prev c nodes) s) =
     evts s @ (if pf_recorder p then concat (map (drv_event cr byNode prev) nodes) else [])"
proof (induction nodes arbitrary: c s)
  case (Cons n ns)
  show ?case using Cons.IH by (simp add: entry_of_run split_beta)
qed simp

lemma entry_caused: "drv_entry cr byNode prev node x \<Longrightarrow> state_caused cr byNode node x"
  by (rule computed_state_caused) (auto simp: drv_entry_def drv_report_def)

lemma state_caused_same:
  "dp_name c = dp_name cr \<Longrightarrow> dp_spec c = dp_spec cr \<Longrightarrow> state_caused c = state_caused cr"
  by (intro ext) (simp add: state_caused_def held_by_policy_def Let_def)

section \<open>The written statuses\<close>

text \<open>The node statuses of \<open>cr'\<close> are those that the listings after \<open>h0\<close> give rise to; if one of them fails
  the entries of \<open>cr\<close> are kept.\<close>

definition nodes_reported ::
  "platform \<Rightarrow> drv_policy \<Rightarrow> (labels \<Rightarrow> bool) \<Rightarrow> call list \<Rightarrow> drv_policy \<Rightarrow> bool" where
  "nodes_reported p cr sel h0 cr' \<longleftrightarrow>
     (case srv_list_nodes (pf_reads p) h0 of
        Inl _ \<Rightarrow> dst_nodes (dp_status cr') = dst_nodes (dp_status cr)
      | Inr items \<Rightarrow>
          (case srv_list_pods (pf_reads p) (h0 @ [CListNodes]) (Some (operatorNamespace p))
              [(''driver.tenstorrent.com/cr'', dp_name cr)] of
             Inl _ \<Rightarrow> dst_nodes (dp_status cr') = dst_nodes (dp_status cr)
           | Inr pods \<Rightarrow> list_all2 (state_caused cr (pods_by_node Map.empty pods))
               (filter_driver_matched p sel items) (dst_nodes (dp_status cr'))))"

lemma driver_statuses_quiet: "issues (\<lambda>x. x = CNow) (driver_statuses p cr byNode prev c nodes)"
  by (rule issues_driver_statuses) simp

lemma populate_reports:
  assumes "lib_selector (pf_lib p) (DriverEffectiveNodeAffinity (dp_spec cr)) = Inr sel"
  shows "\<exists>hs. hist (final_of (populateNodeStatuses p cr) s) = hist s @ CListNodes # hs \<and> CListNodes \<notin> set hs \<and>
      nodes_reported p cr sel (hist s) (snd (result_of (populateNodeStatuses p cr) s))"
proof (cases "srv_list_nodes (pf_reads p) (hist s)")
  case (Inl e)
  then show ?thesis
    by (simp add: populateNodeStatuses_def listMatchedNodes_def list_nodes_def assms nodes_reported_def)
next
  case (Inr items)
  let ?s1 = "s\<lparr>hist := hist s @ [CListNodes]\<rparr>"
  let ?s2 = "s\<lparr>hist := hist s @ [CListNodes, builder_listing p cr]\<rparr>"
  have l: "result_of (listMatchedNodes p cr) s = Inr (filter_driver_matched p sel items)" "final_of (listMatchedNodes p cr) s = ?s1"
    using Inr by (simp_all add: listMatchedNodes_def list_nodes_def assms)
  have pods: "final_of (installer_pods p cr) ?s1 = ?s2" by (simp add: installer_pods_def list_pods_def builder_listing_def)
  show ?thesis
  proof (cases "srv_list_pods (pf_reads p) (hist s @ [CListNodes]) (Some (operatorNamespace p))
      [(''driver.tenstorrent.com/cr'', dp_name cr)]")
    case (Inl e)
    then have "result_of (installer_pods p cr) ?s1 = Inl (wrap ''list installer pods'' e)"
      by (simp add: installer_pods_def list_pods_def)
    then show ?thesis using Inr Inl by (simp add: populateNodeStatuses_def l pods nodes_reported_def builder_listing_def)
  next
    case (Inr pds)
    then have r: "result_of (installer_pods p cr) ?s1 = Inr pds" by (simp add: installer_pods_def list_pods_def)
    let ?st = "driver_statuses p cr (pods_by_node Map.empty pds) (drv_prev_status (dst_nodes (dp_status cr))) (0, 0)
      (filter_driver_matched p sel items)"
    obtain cs where cs: "hist (final_of ?st ?s2) = hist ?s2 @ cs" "CListNodes \<notin> set cs"
      using issuesD [OF driver_statuses_quiet] by (fastforce simp: list_all_iff)
    have "list_all2 (state_caused cr (pods_by_node Map.empty pds)) (filter_driver_matched p sel items)
        (fst (result_of ?st ?s2))"
      using driver_statuses_entries [THEN conjunct1] by (rule list_all2_mono) (rule entry_caused)
    then show ?thesis
      using \<open>srv_list_nodes _ _ = _\<close> Inr cs
      by (simp add: populateNodeStatuses_def l pods r nodes_reported_def builder_listing_def Let_def split_beta)
  qed
qed

lemma updateStatus_reports:
  assumes "lib_selector (pf_lib p) (DriverEffectiveNodeAffinity (dp_spec cr)) = Inr sel"
  shows "\<exists>hs cr' e. hist (final_of (updateStatus p cr ds m) s) = hist s @ CListNodes # hs @ [CUpdateDrvStatus cr' e] \<and>
    CListNodes \<notin> set hs \<and> list_all (\<lambda>x. \<forall>c e. x \<noteq> CUpdateDrvStatus c e) hs \<and> nodes_reported p cr sel (hist s) cr'"
proof -
  let ?m = "mirror_daemonset cr ds m"
  have same: "dp_name ?m = dp_name cr" "dp_spec ?m = dp_spec cr" "dst_nodes (dp_status ?m) = dst_nodes (dp_status cr)"
    by (simp_all add: mirror_daemonset_def Let_def split: option.split)
  let ?t = "final_of (populateNodeStatuses p ?m) s"
  obtain e c where r: "result_of (populateNodeStatuses p ?m) s = (e, c)" by fastforce
  obtain hs where hs: "hist ?t = hist s @ CListNodes # hs" "CListNodes \<notin> set hs" "nodes_reported p ?m sel (hist s) c"
    using populate_reports [of p ?m sel s] assms r by (auto simp: same)
  have "issues (\<lambda>x. \<forall>c e. x \<noteq> CUpdateDrvStatus c e) (populateNodeStatuses p ?m)"
    unfolding populateNodeStatuses_def Let_def by (intro frame_rules issues_driver_statuses; simp)
  from issuesD [OF this, of s] have none: "list_all (\<lambda>x. \<forall>c e. x \<noteq> CUpdateDrvStatus c e) hs" using hs(1) by auto
  let ?log = "case e of None \<Rightarrow> State_Monad.return ()
    | Some _ \<Rightarrow> inc_driver_error (dp_name c) ''populate_node_statuses''"
  have log: "hist (final_of ?log t) = hist t" for t by (simp split: option.split)
  let ?u = "final_of ?log ?t"
  let ?c = "result_of (setDriverConditions p c) ?u"
  have cond: "hist (final_of (setDriverConditions p c) t) = hist t @ [CNow, CNow]" for t
    by (simp add: setDriverConditions_def now_def Let_def split_beta)
  have "dst_nodes (dp_status ?c) = dst_nodes (dp_status c)"
    by (simp add: setDriverConditions_def Let_def split_beta)
  then have rep: "nodes_reported p cr sel (hist s) ?c"
    using hs(3) state_caused_same [OF same(1,2)] by (simp add: nodes_reported_def same cong: sum.case_cong)
  have rec: "hist (final_of (recordDriverPolicyMetrics x) t) = hist t" for x t
    by (simp add: recordDriverPolicyMetrics_def final_SetPolicyNodes final_SetDesiredVersion)
  have "\<exists>e. hist (final_of (updateStatus p cr ds m) s) = (hist ?u @ [CNow, CNow]) @ [CUpdateDrvStatus ?c e]"
    by (simp add: updateStatus_def r update_drv_status_def rec cond)
  then obtain e' where "hist (final_of (updateStatus p cr ds m) s) = hist s @ CListNodes # (hs @ [CNow, CNow]) @ [CUpdateDrvStatus ?c e']"
    using hs(1) log by auto
  with hs(2) none rep show ?thesis by (intro exI [of _ "hs @ [CNow, CNow]"] exI [of _ ?c] exI [of _ e']) simp
qed

text \<open>Every status write of a reconcile comes from there.\<close>

definition reports_well :: "platform \<Rightarrow> drv_policy \<Rightarrow> (labels \<Rightarrow> bool) \<Rightarrow> call list \<Rightarrow> call \<Rightarrow> bool" where
  "reports_well p cr sel h x \<longleftrightarrow> (\<forall>cr' e. x = CUpdateDrvStatus cr' e \<longrightarrow>
     (\<exists>h0 hs. h = h0 @ CListNodes # hs \<and> CListNodes \<notin> set hs \<and> nodes_reported p cr sel h0 cr'))"

abbreviation no_report :: "call \<Rightarrow> bool" where
  "no_report x \<equiv> \<forall>c e. x \<noteq> CUpdateDrvStatus c e"

lemma reports_well_quiet: "issues no_report m \<Longrightarrow> keeps (issued_at (reports_well p cr sel)) m"
  by (erule issues_at_of) (simp add: reports_well_def)

lemma updateStatus_at:
  assumes "lib_selector (pf_lib p) (DriverEffectiveNodeAffinity (dp_spec cr)) = Inr sel"
  shows "keeps (issued_at (reports_well p cr sel)) (updateStatus p cr ds m)"
proof -
  have "issued_at (reports_well p cr sel) s (final_of (updateStatus p cr ds m) s)" for s
  proof -
    obtain hs cr' e where u: "hist (final_of (updateStatus p cr ds m) s) = hist s @ CListNodes # hs @ [CUpdateDrvStatus cr' e]"
      "CListNodes \<notin> set hs" "list_all no_report hs" "nodes_reported p cr sel (hist s) cr'"
      using updateStatus_reports [OF assms] by blast
    have "reports_well p cr sel (hist s @ h1) x"
      if split: "CListNodes # hs @ [CUpdateDrvStatus cr' e] = h1 @ x # h2" for h1 x h2
    proof (cases "h2 = []")
      case True
      then have "h1 = CListNodes # hs" "x = CUpdateDrvStatus cr' e" using split by (metis append_Cons append1_eq_conv)+
      then show ?thesis using u(2,4) by (auto simp: reports_well_def)
    next
      case False
      then obtain ys y where "h2 = ys @ [y]" by (metis rev_exhaust)
      then have "x \<in> set (CListNodes # hs)"
        using split by (metis append_Cons append_assoc butlast_snoc in_set_conv_decomp)
      then show ?thesis using u(3) by (auto simp: reports_well_def list_all_iff)
    qed
    then show ?thesis unfolding issued_at_def using u(1) by blast
  qed
  then show ?thesis by (simp add: keeps_def)
qed

lemma driver_parts_no_report:
  "issues no_report (cleanupKMDVersionLabels p cr)" "issues no_report (recordKMDVersionMetrics p)"
  "issues no_report (uncordonReadyNodes p cr ds)" "issues no_report (DriverReconcileSucceeded p y)"
  "issues no_report (inc_driver_error y st)" "issues no_report (sync_existing p cr existing desired)"
  "issues no_report (create_desired p cr desired)" "issues no_report (countMatchedNodes p cr)"
  "issues no_report (get_ds p ns n)" "issues no_report (metric x)" "issues no_report (DeleteDriverPolicySeries y)"
  "issues no_report (get_drv p y)"
  unfolding sync_existing_def create_desired_def
  by (intro frame_rules issues_cleanup issues_uncordonReadyNodes issues_prepareUpgrade; simp)+

lemmas report_rules = issue_at.rules driver_parts_no_report [THEN reports_well_quiet]

lemma reconcile_driver_reports:
  assumes "lib_selector (pf_lib p) (DriverEffectiveNodeAffinity (dp_spec cr)) = Inr sel"
  shows "keeps (issued_at (reports_well p cr sel)) (reconcile_driver p cr)"
  unfolding reconcile_driver_def finish_driver_def Let_def
  by (intro report_rules updateStatus_at [OF assms])

text \<open>C25: Every status that a driver reconcile writes, on any platform, lists the matched nodes of the last
  listing before it, in order, each with its name, the version of its builder and the state its causes
  determine (in both directions): host-managed; failed on an image-pull error or on three restarts without
  readiness; done when the builder is ready at the target version and the policy holds no cordon,
  uncordoning while it does; upgrading, draining, or pending, the one state without a reason. No node is
  reported as \<open>Cordoning\<close>, and the drain settings play no part: a node that still carries the annotation is
  reported as draining or uncordoning with drain disabled as well. If a listing fails the old entries are
  kept.\<close>

theorem driver_state_causes:
  assumes "srv_get_drv (pf_reads p) (hist s) name = Inr cr"
    "hist (final_of (DriverReconcile p name) s) = hist s @ h @ CUpdateDrvStatus cr' e # h'"
  shows "\<exists>sel h0 hs. lib_selector (pf_lib p) (DriverEffectiveNodeAffinity (dp_spec cr)) = Inr sel \<and>
    hist s @ h = h0 @ CListNodes # hs \<and> CListNodes \<notin> set hs \<and> nodes_reported p cr sel h0 cr'"
proof (cases "lib_selector (pf_lib p) (DriverEffectiveNodeAffinity (dp_spec cr))")
  case (Inl x)
  then have "issued no_report s (final_of (DriverReconcile p name) s)"
    using assms(1) keepsD [OF driver_parts_no_report(11)]
    by (auto simp: DriverReconcile_def get_drv_def reconcile_driver_def countMatchedNodes_def issued_def final_DeleteSeries)
  with assms(2) show ?thesis by (auto simp: issued_def)
next
  case (Inr sel)
  let ?s1 = "s\<lparr>hist := hist s @ [CGetDrv name]\<rparr>"
  have "issued_at (reports_well p cr sel) s ?s1"
    by (rule issued_at_of [where P = no_report]) (simp_all add: issued_def reports_well_def)
  moreover have "issued_at (reports_well p cr sel) ?s1 (final_of (DriverReconcile p name) s)"
    using assms(1) keepsD [OF reconcile_driver_reports [OF Inr], of ?s1]
      keepsD [OF reports_well_quiet [OF driver_parts_no_report(11)], of p cr sel ?s1 "dp_name cr"]
    by (simp add: DriverReconcile_def get_drv_def)
  ultimately have "reports_well p cr sel (hist s @ h) (CUpdateDrvStatus cr' e)"
    using issued_at_trans issued_atD assms(2) by blast
  then show ?thesis using Inr by (auto simp: reports_well_def)
qed

text \<open>A paused policy without a DaemonSet: the reconcile ends with the status write.\<close>

lemma paused_absent_run:
  assumes "dv_paused (dp_spec cr)" "result_of (countMatchedNodes p cr) s = Inr m"
    "\<And>h. srv_get_ds (pf_reads p) h (operatorNamespace p) (driverDaemonSetName (dp_name cr)) = Inl (Err NotFound x)"
  defines "g \<equiv> final_of (DriverReconcileSucceeded p (dp_name cr))
    (final_of (get_ds p (operatorNamespace p) (driverDaemonSetName (dp_name cr))) (final_of (countMatchedNodes p cr) s))"
  shows "snd (result_of (reconcile_driver p cr) s) = fst (result_of (updateStatus p cr None m) g)"
    "final_of (reconcile_driver p cr) s = final_of (updateStatus p cr None m) g"
  using assms(1,2,3) unfolding g_def by (simp_all add: reconcile_driver_def get_ds_def Let_def split_beta)

text \<open>A paused policy, a node that the policy still holds, and a builder that is ready on it.\<close>

lemma driver_state_causes_witness:
  "let node = (plain_node ''n1'')\<lparr>nd_unsched := True, nd_annos := [AnnoDriverCordonedBy \<mapsto> ''d'']\<rparr>;
       cr = (plain_drv ''d'')\<lparr>dp_spec := (dp_spec (plain_drv ''d''))\<lparr>dv_paused := True\<rparr>\<rparr>;
       bed = testbed [node] [builder_at ''n1''] [] [];
       p = bed\<lparr>pf_reads := (pf_reads bed)\<lparr>srv_get_drv := \<lambda>h n. Inr cr\<rparr>\<rparr>
   in \<exists>h cr' e. hist (final_of (DriverReconcile p ''d'') init_sys) = h @ [CUpdateDrvStatus cr' e] \<and>
        map dn_state (dst_nodes (dp_status cr')) = [DrvUncordoning]"
proof -
  let ?n = "(plain_node ''n1'')\<lparr>nd_unsched := True, nd_annos := [AnnoDriverCordonedBy \<mapsto> ''d'']\<rparr>"
  let ?cr = "(plain_drv ''d'')\<lparr>dp_spec := (dp_spec (plain_drv ''d''))\<lparr>dv_paused := True\<rparr>\<rparr>"
  let ?bed = "testbed [?n] [builder_at ''n1''] [] []"
  let ?p = "?bed\<lparr>pf_reads := (pf_reads ?bed)\<lparr>srv_get_drv := \<lambda>h n. Inr ?cr\<rparr>\<rparr>"
  have sel: "lib_selector (pf_lib ?p) (DriverEffectiveNodeAffinity (dp_spec ?cr)) = Inr (\<lambda>l. True)" by simp
  have cr: "dv_paused (dp_spec ?cr)" "dp_deleted ?cr = None" by (simp_all add: plain_drv_def)
  have get: "srv_get_drv (pf_reads ?p) h n = Inr ?cr" for h n by simp
  let ?s1 = "init_sys\<lparr>hist := hist init_sys @ [CGetDrv ''d'']\<rparr>"
  have "result_of (countMatchedNodes ?p ?cr) ?s1 = Inr (count_driver_matched ?p (\<lambda>l. True) [?n])"
    unfolding countMatchedNodes_def sel by (simp add: list_nodes_def)
  moreover have "srv_get_ds (pf_reads ?p) h (operatorNamespace ?p) (driverDaemonSetName (dp_name ?cr)) = Inl (Err NotFound ''not found'')" for h
    by (simp add: lookup_by_def)
  ultimately have "\<exists>t m. final_of (reconcile_driver ?p ?cr) ?s1 = final_of (updateStatus ?p ?cr None m) t"
    using paused_absent_run(2) [OF cr(1)] by blast
  moreover have "final_of (DriverReconcile ?p ''d'') init_sys = final_of (reconcile_driver ?p ?cr) ?s1"
    unfolding DriverReconcile_def get_drv_def
    by (simp only: final_of_bind result_interact final_interact get sum.case cr(2) simp_thms if_False)
  ultimately obtain t m where run: "final_of (DriverReconcile ?p ''d'') init_sys = final_of (updateStatus ?p ?cr None m) t" by auto
  obtain hs cr' e where "hist (final_of (updateStatus ?p ?cr None m) t) = hist t @ CListNodes # hs @ [CUpdateDrvStatus cr' e]"
    using updateStatus_reports [OF sel, of None m t] by blast
  then obtain h where h: "hist (final_of (DriverReconcile ?p ''d'') init_sys) = h @ [CUpdateDrvStatus cr' e]"
    unfolding run by (metis append.assoc append_Cons)
  from h have "hist (final_of (DriverReconcile ?p ''d'') init_sys) = hist init_sys @ h @ CUpdateDrvStatus cr' e # []"
    by (simp add: init_sys_def)
  from driver_state_causes [OF get this] obtain h0 where "nodes_reported ?p ?cr (\<lambda>l. True) h0 cr'"
    using sel by auto
  then have "list_all2 (state_caused ?cr (pods_by_node Map.empty [builder_at ''n1''])) [?n] (dst_nodes (dp_status cr'))"
    by (simp add: nodes_reported_def plain_node_def const_defs Let_def)
  then obtain x where x: "dst_nodes (dp_status cr') = [x]" "state_caused ?cr (pods_by_node Map.empty [builder_at ''n1'']) ?n x"
    by (auto simp: list_all2_Cons1)
  have "dn_state x = DrvUncordoning"
    using x(2) by (simp add: state_caused_def state_defs info_of_def builder_at_def pod_info_def plain_pod_def plain_drv_def plain_node_def
        podEnv_def builder_container_def builder_env_def env_lit_def pod_ready_def)
  then show ?thesis unfolding Let_def using h x(1) by auto
qed

definition drv_class :: "drv_state \<Rightarrow> nat" where
  "drv_class st = (if st \<in> {DrvDone, DrvHostManaged} then 0
     else if st \<in> {DrvCordoning, DrvDraining, DrvUpgrading, DrvUncordoning} then 1 else 2)"

definition drv_in_class :: "nat \<Rightarrow> drv_node_status list \<Rightarrow> int32" where
  "drv_in_class k xs = word_of_nat (length (filter (\<lambda>x. drv_class (dn_state x) = k) xs))"

lemma count_driver_state_class:
  "count_driver_state (u, i) st = (u + (if drv_class st = 0 then 1 else 0), i + (if drv_class st = 1 then 1 else 0))"
  by (cases st) (simp_all add: count_driver_state_def drv_class_def)

lemma driver_statuses_counts:
  "snd (result_of (driver_statuses p cr byNode prev (u, i) nodes) s) =
     (let xs = fst (result_of (driver_statuses p cr byNode prev (u, i) nodes) s)
      in (u + drv_in_class 0 xs, i + drv_in_class 1 xs))"
proof (induction nodes arbitrary: u i s)
  case (Cons n ns)
  show ?case
    using Cons.IH by (simp add: split_beta count_driver_state_class drv_in_class_def Let_def)
qed (simp add: drv_in_class_def)

section \<open>The summary\<close>

text \<open>C33: What a status update fills in: the counters mirror the DaemonSet (all zero without one),
  \<open>failed\<close> is \<open>desired - available\<close> cut at zero, so it is never negative, and it is exact for counts a
  cluster can have; \<open>upToDate\<close> and \<open>inProgress\<close> count the listed nodes that are done or host-managed and
  those under way.\<close>

theorem driver_summary_mirrors:
  assumes "0 \<le> sint (dss_desired (dm_status d))" "0 \<le> sint (dss_available (dm_status d))"
    "result_of (populateNodeStatuses p (mirror_daemonset cr (Some d) m)) s = (None, cr')"
  shows "let sm = dst_summary (dp_status cr'); nodes = dst_nodes (dp_status cr') in
     dsm_matched sm = m \<and> dsm_desired sm = dss_desired (dm_status d) \<and>
     dsm_ready sm = dss_ready (dm_status d) \<and> dsm_available sm = dss_available (dm_status d) \<and>
     sint (dsm_failed sm) = max 0 (sint (dss_desired (dm_status d)) - sint (dss_available (dm_status d))) \<and>
     dsm_uptodate sm = drv_in_class 0 nodes \<and> dsm_inprogress sm = drv_in_class 1 nodes"
proof -
  let ?f = "dss_desired (dm_status d) - dss_available (dm_status d)"
  have "sint ?f = sint (dss_desired (dm_status d)) - sint (dss_available (dm_status d))"
    using assms(1,2) sint_lt [of "dss_desired (dm_status d)"] sint_lt [of "dss_available (dm_status d)"]
    by (simp add: sint_word_ariths(2) signed_take_bit_int_eq_self)
  then show ?thesis
    using assms(3) driver_statuses_counts [of p _ _ _ 0 0]
    by (auto simp: populateNodeStatuses_def mirror_daemonset_def Let_def split_beta prod_eq_iff
        split: sum.splits if_splits)
qed

section \<open>Conditions\<close>

definition driver_ready :: "drv_summary \<Rightarrow> bool" where
  "driver_ready s \<longleftrightarrow> dsm_desired s = 0 \<and> dsm_matched s = 0 \<or>
     dsm_ready s = dsm_desired s \<and> 0 < sint (dsm_desired s)"

text \<open>A reconcile sets \<open>Ready\<close> and then \<open>Progressing\<close> for the current generation. While paused they
  are unknown and false; otherwise \<open>Ready\<close> is true exactly when nothing matches or every desired pod is
  ready, and \<open>Progressing\<close> is its negation.\<close>

theorem driver_conditions:
  "\<exists>ready progressing.
     dst_conds (dp_status (result_of (setDriverConditions p cr) s)) =
       lib_set_condition (pf_lib p) (lib_set_condition (pf_lib p) (dst_conds (dp_status cr)) ready) progressing \<and>
     mc_type ready = ''Ready'' \<and> mc_type progressing = ''Progressing'' \<and>
     mc_gen ready = dp_generation cr \<and> mc_gen progressing = dp_generation cr \<and>
     (if dv_paused (dp_spec cr)
      then mc_status ready = ConditionUnknown \<and> mc_status progressing = ConditionFalse
      else mc_status ready =
             (if driver_ready (dst_summary (dp_status cr)) then ConditionTrue else ConditionFalse) \<and>
           mc_status progressing =
             (if driver_ready (dst_summary (dp_status cr)) then ConditionFalse else ConditionTrue))"
  unfolding setDriverConditions_def Let_def driver_ready_def
  by (simp add: now_def split: if_split) (intro conjI impI; (rule exI, rule exI, rule conjI, rule refl, force)?)

lemma driver_summary_mirrors_witness:
  "sint (dsm_failed (dst_summary (dp_status (snd (result_of (populateNodeStatuses
     (testbed [plain_node ''n1''] [] [] []) (mirror_daemonset (plain_drv ''d'') (Some (zero_ds ''ds'')) 1))
     init_sys))))) = 0"
proof -
  let ?r = "result_of (populateNodeStatuses (testbed [plain_node ''n1''] [] [] [])
    (mirror_daemonset (plain_drv ''d'') (Some (zero_ds ''ds'')) 1)) init_sys"
  have "fst ?r = None"
    by (simp add: populateNodeStatuses_def listMatchedNodes_def installer_pods_def list_nodes_def
        list_pods_def Let_def split_beta)
  then have "?r = (None, snd ?r)" by (simp add: prod_eq_iff)
  from driver_summary_mirrors [OF _ _ this] show ?thesis
    by (simp add: zero_ds_def Let_def)
qed

section \<open>Gauges\<close>

lemma driver_state_counts_spec:
  "distinct (map fst (driver_state_counts nodes))"
  "map_of (driver_state_counts nodes) (drv_state_str st) =
     (let n = int (length (filter (\<lambda>x. dn_state x = st) nodes))
      in if st = DrvHostManaged \<and> n = 0 then None else Some n)"
proof -
  show "distinct (map fst (driver_state_counts nodes))"
    unfolding driver_state_counts_def
    by (rule distinct_fold_bump) (simp add: driverNodeStates_def)
  have cnt: "count_list (map (\<lambda>x. drv_state_str (dn_state x)) nodes) (drv_state_str st) =
      length (filter (\<lambda>x. dn_state x = st) nodes)"
    by (induction nodes) auto
  have mem: "drv_state_str st \<in> set (map (\<lambda>x. drv_state_str (dn_state x)) nodes) \<longleftrightarrow>
      length (filter (\<lambda>x. dn_state x = st) nodes) \<noteq> 0"
    using cnt count_list_0_iff [of "map (\<lambda>x. drv_state_str (dn_state x)) nodes" "drv_state_str st"] by simp
  show "map_of (driver_state_counts nodes) (drv_state_str st) =
     (let n = int (length (filter (\<lambda>x. dn_state x = st) nodes))
      in if st = DrvHostManaged \<and> n = 0 then None else Some n)"
    unfolding driver_state_counts_def map_of_fold_bump mem cnt
    by (cases st) (simp_all add: driverNodeStates_def Let_def)
qed

lemma driver_gauge_set:
  assumes "(drv_state_str st, n) \<in> set (driver_state_counts (dst_nodes (dp_status cr)))"
  shows "table_series (mops (final_of (recordDriverPolicyMetrics cr) s)) DriverPolicyNodes
     [dp_name cr, drv_state_str st] = Some n"
proof -
  let ?c = "driver_state_counts (dst_nodes (dp_status cr))"
  have "table_series (mops s @ map (\<lambda>(k, n). MSet DriverPolicyNodes [dp_name cr, k] n) ?c)
      DriverPolicyNodes [dp_name cr, drv_state_str st] = Some n"
    using table.set_each [of ?c "\<lambda>k. [dp_name cr, k]", OF driver_state_counts_spec(1) _ assms]
    by (simp add: inj_on_def)
  then show ?thesis
    using table.untouched [where f = DriverPolicyNodes
        and ms = "[MDelete DriverPolicyDesiredVersion (dp_name cr),
          MSet DriverPolicyDesiredVersion [dp_name cr, dv_version (dp_spec cr)] 1]"
        and ops = "mops s @ map (\<lambda>(k, n). MSet DriverPolicyNodes [dp_name cr, k] n) ?c"]
    by (simp add: recordDriverPolicyMetrics_def final_SetPolicyNodes final_SetDesiredVersion)
qed

text \<open>After a status update the node gauge of a policy shows, for every state but \<open>HostManaged\<close>, the
  number of listed nodes in that state, zero included. \<open>HostManaged\<close> is shown only when some node is
  host-managed: when the last one leaves that state the series keeps its old value.\<close>

theorem driver_gauge_counts:
  "table_series (mops (final_of (recordDriverPolicyMetrics cr) s)) DriverPolicyNodes
       [dp_name cr, drv_state_str st] =
     (let n = int (length (filter (\<lambda>x. dn_state x = st) (dst_nodes (dp_status cr))))
      in if st = DrvHostManaged \<and> n = 0
         then table_series (mops s) DriverPolicyNodes [dp_name cr, drv_state_str st] else Some n)"
proof (cases "map_of (driver_state_counts (dst_nodes (dp_status cr))) (drv_state_str st)")
  case (Some n)
  then show ?thesis
    using driver_gauge_set [OF map_of_SomeD [OF Some]] driver_state_counts_spec(2) [of "dst_nodes (dp_status cr)" st]
    by (auto simp: Let_def split: if_splits)
next
  case None
  then have "drv_state_str st \<notin> fst ` set (driver_state_counts (dst_nodes (dp_status cr)))"
    by (simp add: map_of_eq_None_iff)
  then have "table_series (mops s @ (map (\<lambda>(k, n). MSet DriverPolicyNodes [dp_name cr, k] n)
        (driver_state_counts (dst_nodes (dp_status cr))) @
      [MDelete DriverPolicyDesiredVersion (dp_name cr),
       MSet DriverPolicyDesiredVersion [dp_name cr, dv_version (dp_spec cr)] 1]))
      DriverPolicyNodes [dp_name cr, drv_state_str st] =
      table_series (mops s) DriverPolicyNodes [dp_name cr, drv_state_str st]"
    by (intro table.untouched) (auto simp: image_iff)
  then show ?thesis
    using None driver_state_counts_spec(2) [of "dst_nodes (dp_status cr)" st]
    by (simp add: Let_def recordDriverPolicyMetrics_def final_SetPolicyNodes final_SetDesiredVersion
        split: if_splits)
qed

end
