(* ===== verification/DriverGaps.thy ===== *)
theory DriverGaps
  imports DriverStatus
begin

text \<open>
  The edges of the driver reconcile: requeue and deletion, the two gate operations, the fleet
  gauge, and the paths on which a node that was closed is not opened again.
\<close>

section \<open>Requeue and deletion\<close>

text \<open>A roll-out is not dropped: a reconcile that ends without an error while fewer builder pods are
  ready than desired asks for a requeue, at once after a conflict and otherwise in fifteen seconds;
  nothing is requeued when every pod is ready and the status was accepted.\<close>

theorem unready_daemonset_requeued:
  assumes "result_of (finish_driver p cr d m) s = (r, None)"
  shows "(sint (dss_ready (dm_status d)) < sint (dss_desired (dm_status d)) \<longrightarrow>
      rr_requeue r \<or> rr_after r = 15 * second) \<and>
    (rr_after r \<noteq> 0 \<longrightarrow> sint (dss_ready (dm_status d)) < sint (dss_desired (dm_status d)))"
proof -
  obtain ue cr' where u: "result_of (updateStatus p cr (Some d) m) s = (ue, cr')"
    by (cases "result_of (updateStatus p cr (Some d) m) s")
  show ?thesis
    using assms u
    by (cases ue) (auto simp: finish_driver_def no_requeue_def split: if_splits option.splits)
qed

lemma unready_daemonset_requeued_witness:
  "let d = (zero_ds ''ds'')\<lparr>dm_status := \<lparr>dss_desired = 2, dss_ready = 1, dss_available = 1\<rparr>\<rparr>;
       r = result_of (finish_driver (testbed [] [] [] []) (plain_drv ''d'') d 1) init_sys
   in rr_requeue (fst r) \<or> rr_after (fst r) = 15 * second"
proof -
  let ?d = "(zero_ds ''ds'')\<lparr>dm_status := \<lparr>dss_desired = 2, dss_ready = 1, dss_available = 1\<rparr>\<rparr>"
  let ?p = "testbed [] [] [] []"
  obtain ue cr' where u: "result_of (updateStatus ?p (plain_drv ''d'') (Some ?d) 1) init_sys = (ue, cr')"
    by (cases "result_of (updateStatus ?p (plain_drv ''d'') (Some ?d) 1) init_sys")
  have "ue = None"
    using u by (auto simp: updateStatus_def update_drv_status_def split_beta split: option.splits)
  then have "snd (result_of (finish_driver ?p (plain_drv ''d'') ?d 1) init_sys) = None"
    using u by (simp add: finish_driver_def)
  then have "result_of (finish_driver ?p (plain_drv ''d'') ?d 1) init_sys =
      (fst (result_of (finish_driver ?p (plain_drv ''d'') ?d 1) init_sys), None)"
    by (simp add: prod_eq_iff)
  from unready_daemonset_requeued [OF this] show ?thesis by (simp add: Let_def)
qed

text \<open>For a driver policy that is gone or being deleted a reconcile reads the policy and nothing else,
  and leaves no series of that policy in any per-policy vector.\<close>

theorem deleted_driver_policy_forgotten:
  assumes "srv_get_drv (pf_reads p) (hist s) name = Inl (Err NotFound m) \<or>
    srv_get_drv (pf_reads p) (hist s) name = Inr cr \<and> dp_deleted cr \<noteq> None \<and> dp_name cr = name"
    "t = final_of (DriverReconcile p name) s"
  shows "result_of (DriverReconcile p name) s = (no_requeue, None) \<and>
    hist t = hist s @ [CGetDrv name] \<and>
    list_all (\<lambda>f. table_series (mops t) f (name # l) = None) driver_cr_families"
proof -
  have "t = final_of (DeleteDriverPolicySeries name) (s\<lparr>hist := hist s @ [CGetDrv name]\<rparr>)"
    "result_of (DriverReconcile p name) s = (no_requeue, None)"
    using assms by (auto simp: DriverReconcile_def get_drv_def)
  then show ?thesis
    by (simp add: final_DeleteSeries list_all_iff table.delete_all)
qed

lemma deleted_driver_policy_forgotten_witness:
  "table_series (mops (final_of (DriverReconcile (testbed [] [] [] []) ''d'')
     (init_sys\<lparr>mops := [MSet DriverPolicyNodes [''d'', ''Done''] 3]\<rparr>))) DriverPolicyNodes [''d'', ''Done''] = None"
  using deleted_driver_policy_forgotten [of "testbed [] [] [] []"
      "init_sys\<lparr>mops := [MSet DriverPolicyNodes [''d'', ''Done''] 3]\<rparr>" "''d''" "''d''" _ _ "[''Done'']", OF _ refl]
  by (simp add: testbed_def driver_cr_families_def)

section \<open>Deploy gates\<close>

lemma gates_off_spec: "fst (gates_off keys l) k = (if k \<in> set keys then Some ''false'' else l k)"
proof (induction keys arbitrary: l k)
  case (Cons key keys)
  show ?case
    using sget_nonempty [of l key] by (auto simp: Cons.IH split_beta Let_def)
qed simp

lemma gates_removed_spec: "fst (gates_removed keys l) k = (if k \<in> set keys then None else l k)"
  by (induction keys arbitrary: l) (auto simp: split_beta Let_def split: option.split)

lemma gates_changed:
  "\<not> snd (gates_off keys l) \<Longrightarrow> fst (gates_off keys l) = l"
  "\<not> snd (gates_removed keys l) \<Longrightarrow> fst (gates_removed keys l) = l"
  by (induction keys arbitrary: l) (auto simp: split_beta Let_def split: option.splits if_splits)

lemma result_gates:
  assumes "accepts_patches p"
  shows "result_of (flipDeployGatesOff p node) s =
      (None, node\<lparr>nd_labels := fst (gates_off (driverDeployGates p) (nd_labels node))\<rparr>)"
    "result_of (removeDeployGates p node) s =
      (None, node\<lparr>nd_labels := fst (gates_removed (driverDeployGates p) (nd_labels node))\<rparr>)"
  using gates_changed [of "driverDeployGates p" "nd_labels node"]
  by (auto simp: flipDeployGatesOff_def removeDeployGates_def patch_node_accepts [OF assms] split_beta)

text \<open>The two gate operations one after the other, on a server that accepts every patch as sent: every
  configured gate label reads \<open>"false"\<close> after the first and is gone after the second, no other label changes,
  and the node is back to its labels of before exactly when it carried none of the gates; a gate that an
  administrator had set is lost.\<close>

theorem gates_flip_and_remove:
  assumes "accepts_patches p" "result_of (flipDeployGatesOff p node) s = (e, node')"
    "result_of (removeDeployGates p node') t = (e', node'')"
  shows "(\<forall>k. nd_labels node' k = (if k \<in> set (driverDeployGates p) then Some ''false'' else nd_labels node k)) \<and>
    (\<forall>k. nd_labels node'' k = (if k \<in> set (driverDeployGates p) then None else nd_labels node k)) \<and>
    (node'' = node \<longleftrightarrow> (\<forall>k \<in> set (driverDeployGates p). nd_labels node k = None))"
proof -
  have n: "node' = node\<lparr>nd_labels := fst (gates_off (driverDeployGates p) (nd_labels node))\<rparr>"
    "node'' = node'\<lparr>nd_labels := fst (gates_removed (driverDeployGates p) (nd_labels node'))\<rparr>"
    using assms(2,3) by (simp_all add: result_gates [OF assms(1)])
  then have l: "nd_labels node' k = (if k \<in> set (driverDeployGates p) then Some ''false'' else nd_labels node k)"
    "nd_labels node'' k = (if k \<in> set (driverDeployGates p) then None else nd_labels node k)" for k
    by (simp_all add: gates_off_spec gates_removed_spec)
  have "node'' = node \<longleftrightarrow> nd_labels node'' = nd_labels node"
    using n by (cases node) simp
  also have "\<dots> \<longleftrightarrow> (\<forall>k \<in> set (driverDeployGates p). nd_labels node k = None)"
    using l(2) by (auto simp: fun_eq_iff)
  finally show ?thesis using l by blast
qed

lemma gates_flip_and_remove_witness:
  "let node = plain_node ''n1''; p = testbed [] [] [] [];
       node' = snd (result_of (flipDeployGatesOff p node) init_sys)
   in snd (result_of (removeDeployGates p node') init_sys) = node"
  using gates_flip_and_remove [of "testbed [] [] [] []" "plain_node ''n1''" init_sys _ _ init_sys,
      OF _ prod.collapse [symmetric] prod.collapse [symmetric]]
  by (simp add: Let_def driverDeployGates_def envSet_def defaultDriverDeployGates_def plain_node_def
      const_defs)

text \<open>When a node was opened but its gates could not be removed, no later reconcile of the policy
  removes them: the opened node no longer carries the policy's annotation, so the uncordon step makes no
  call for it, and its gate labels still read \<open>"false"\<close>.\<close>

theorem gates_stick_after_failed_removal:
  assumes "result_of (UncordonNode p node (driverCordonOpts (dp_name cr))) s = (None, node')"
    "accepts_patches p" "sget (nd_annos node) AnnoDriverCordonedBy = dp_name cr" "dp_name cr \<noteq> []"
    "k \<in> set (driverDeployGates p)" "sget (nd_labels node) k = ''false''"
  shows "sget (nd_labels node') k = ''false'' \<and> (\<forall>q pods t. final_of (uncordon_node q cr pods node') t = t)"
  using assms drv_cordon.uncordon_result [OF assms(2,3), of s]
  by (auto simp: uncordon_node_def driverCordonOpts_def const_defs)

lemma gates_stick_after_failed_removal_witness:
  "let cr = plain_drv ''d'';
       gate = ''tenstorrent.com/deploy.tt-telemetry'';
       node = (plain_node ''n1'')\<lparr>nd_annos := [AnnoDriverCordonedBy \<mapsto> ''d''], nd_labels := [gate \<mapsto> ''false'']\<rparr>;
       node' = snd (result_of (UncordonNode (testbed [] [] [] []) node (driverCordonOpts ''d'')) init_sys)
   in sget (nd_labels node') gate = ''false''"
  using gates_stick_after_failed_removal [of "testbed [] [] [] []"
      "(plain_node ''n1'')\<lparr>nd_annos := [AnnoDriverCordonedBy \<mapsto> ''d''],
         nd_labels := [''tenstorrent.com/deploy.tt-telemetry'' \<mapsto> ''false'']\<rparr>"
      "plain_drv ''d''" init_sys _ "''tenstorrent.com/deploy.tt-telemetry''"]
  by (simp add: UncordonNode_def driverCordonOpts_def patch_node_accepts plain_drv_def Let_def
      driverDeployGates_def envSet_def defaultDriverDeployGates_def)

section \<open>Nodes that stay closed\<close>

text \<open>With drain switched off a reconcile opens no node and evicts nothing: a node that the policy
  closed while drain was on keeps its cordon.\<close>

theorem disabled_drain_opens_nothing:
  assumes "\<not> drainEnabledForCR cr" "status_keeps_spec p"
  shows "issues (\<lambda>c. \<not> opens_node c \<and> (\<forall>ns n e. c \<noteq> CEvict ns n e)) (reconcile_driver p cr)"
proof -
  have fin: "issues (\<lambda>c. \<not> opens_node c \<and> (\<forall>ns n e. c \<noteq> CEvict ns n e)) (finish_driver p cr d m)" for d m
  proof -
    have off: "\<not> drainEnabledForCR cr'"
      if "result_of (updateStatus p cr (Some d) m) s = (x, cr')" for s x cr'
      using assms updateStatus_spec [OF assms(2), of cr "Some d" m s] that by (simp add: drainEnabledForCR_def)
    show ?thesis
      unfolding finish_driver_def
      by (intro issue.bind_result)
        (auto intro!: frame_rules issues_updateStatus issues_cleanup dest: off simp: node_patch_def)
  qed
  show ?thesis
    unfolding reconcile_driver_def sync_existing_def create_desired_def Let_def
    using assms by (auto intro!: frame_rules issues_updateStatus fin)
qed

lemma disabled_drain_opens_nothing_witness:
  "let cr = (plain_drv ''d'')\<lparr>dp_spec := (dp_spec (plain_drv ''d''))\<lparr>dv_upgrade :=
       \<lparr>du_drain = \<lparr>dd_enable = Some False, dd_full_node = None, dd_pod_selector = [],
          dd_force = False, dd_delete_empty_dir = None, dd_timeout = 0\<rparr>, du_force_unload = False\<rparr>\<rparr>\<rparr>
   in issues (\<lambda>c. \<not> opens_node c \<and> (\<forall>ns n e. c \<noteq> CEvict ns n e))
        (reconcile_driver (testbed [plain_node ''n1''] [] [] []) cr)"
  unfolding Let_def
  by (rule disabled_drain_opens_nothing) (simp_all add: drainEnabledForCR_def status_keeps_spec_def)

text \<open>A host-managed node, for which the report says that the operator stands down, is treated like
  any other before an upgrade: when it is matched, its cordon is requested and its device pods are
  evicted with the rest.\<close>

theorem host_managed_node_is_cordoned:
  assumes "lib_selector (pf_lib p) (DriverEffectiveNodeAffinity (dp_spec cr)) = Inr sel"
    "srv_list_nodes (pf_reads p) (hist s) = Inr items"
    "buildFullNodeDrainFilter p cr = Inr flt" "n \<in> set (filter_driver_matched p sel items)"
    "sget (nd_labels n) LabelInstallMode = ''host''"
  shows "cordon_sent cr n (hist (final_of (prepareUpgrade p cr) s)) \<and>
    fst (computeDriverNodeStateReason n info cr) = DrvHostManaged"
  using assms
  by (simp add: prepareUpgrade_def listMatchedNodes_def list_nodes_def each_sent computeDriverNodeStateReason_def)

lemma host_managed_node_is_cordoned_witness:
  "let n = (plain_node ''n1'')\<lparr>nd_labels := (nd_labels (plain_node ''n1''))(LabelInstallMode \<mapsto> ''host'')\<rparr>
   in cordon_sent (plain_drv ''d'') n (hist (final_of (prepareUpgrade (testbed [n] [] [] []) (plain_drv ''d'')) init_sys))"
proof -
  let ?n = "(plain_node ''n1'')\<lparr>nd_labels := (nd_labels (plain_node ''n1''))(LabelInstallMode \<mapsto> ''host'')\<rparr>"
  show ?thesis
    unfolding Let_def
    by (rule host_managed_node_is_cordoned
        [of "testbed [?n] [] [] []" "plain_drv ''d''" "\<lambda>l. True" _ "[?n]", THEN conjunct1])
      (simp_all add: buildFullNodeDrainFilter_def plain_drv_def plain_node_def const_defs Let_def)
qed

section \<open>A filter that does not parse\<close>

text \<open>C32: A \<open>podSelectorLabel\<close> that does not parse switches the whole drain off, but not the roll-out: on drift the
  reconcile cordons no node and evicts no pod, in neither pass, even if the full-node drain that the filter is for
  is disabled, and then updates the template all the same.\<close>

theorem unparsable_filter_updates_undrained:
  assumes "dd_pod_selector (du_drain (dv_upgrade (dp_spec cr))) \<noteq> []"
    "lib_parse (pf_lib p) (dd_pod_selector (du_drain (dv_upgrade (dp_spec cr)))) = Inl e"
    "\<not> dv_paused (dp_spec cr)" "daemonSetNeedsUpdate existing desired"
  shows "\<exists>cs. set cs \<subseteq> {CListNodes} \<and> hist (final_of (sync_existing p cr existing desired) s) =
    hist s @ cs @ [CUpdateDS (apply_template existing desired)
      (err_of (srv_update_ds (pf_writes p) (hist s @ cs) (apply_template existing desired)))]"
proof -
  let ?d = "if drainEnabledForCR cr then do {
      e \<leftarrow> prepareUpgrade p cr;
      (case e of None \<Rightarrow> State_Monad.return ()
       | Some _ \<Rightarrow> inc_driver_error (dp_name cr) ''prepare_upgrade'')
    } else State_Monad.return ()"
  have "\<exists>cs. set cs \<subseteq> {CListNodes} \<and> hist (final_of ?d s) = hist s @ cs"
    using assms(1,2)
    by (auto simp: prepareUpgrade_def listMatchedNodes_def list_nodes_def buildFullNodeDrainFilter_def Let_def
        split: sum.split option.split)
  moreover have "hist (final_of (sync_existing p cr existing desired) s) = hist (final_of ?d s) @
      [CUpdateDS (apply_template existing desired)
        (err_of (srv_update_ds (pf_writes p) (hist (final_of ?d s)) (apply_template existing desired)))]"
    using assms(3,4) unfolding sync_existing_def
    by (simp add: result_update_ds del: result_of_bind split: sum.split)
  ultimately show ?thesis by auto
qed

definition typo_policy :: drv_policy where
  "typo_policy = (plain_drv ''d'')\<lparr>dp_spec := (dp_spec (plain_drv ''d''))\<lparr>dv_upgrade :=
     (dv_upgrade (dp_spec (plain_drv ''d'')))\<lparr>du_drain := (du_drain (dv_upgrade (dp_spec (plain_drv ''d''))))
       \<lparr>dd_pod_selector := ''app in ('', dd_full_node := Some False\<rparr>\<rparr>\<rparr>\<rparr>"

definition strict_bed :: platform where
  "strict_bed = (testbed [plain_node ''n1''] [plain_pod ''w'' ''a'' ''n1''] [] [])\<lparr>pf_lib :=
     (pf_lib (testbed [] [] [] []))\<lparr>lib_parse := \<lambda>raw. Inl (Err OtherErr ''unable to parse'')\<rparr>\<rparr>"

lemma unparsable_filter_updates_undrained_witness:
  "\<exists>cs ds e. set cs \<subseteq> {CListNodes} \<and> hist (final_of (sync_existing strict_bed typo_policy (zero_ds ''ttdrv-d'')
     ((zero_ds ''ttdrv-d'')\<lparr>dm_annos := [dsTemplateHashAnnotation \<mapsto> ''x'']\<rparr>)) init_sys) = cs @ [CUpdateDS ds e]"
proof -
  have "daemonSetNeedsUpdate (zero_ds ''ttdrv-d'') ((zero_ds ''ttdrv-d'')\<lparr>dm_annos := [dsTemplateHashAnnotation \<mapsto> ''x'']\<rparr>)"
    by (simp add: daemonSetNeedsUpdate_def zero_ds_def)
  then show ?thesis
    using unparsable_filter_updates_undrained [of typo_policy strict_bed "Err OtherErr ''unable to parse''" "zero_ds ''ttdrv-d''"
        "(zero_ds ''ttdrv-d'')\<lparr>dm_annos := [dsTemplateHashAnnotation \<mapsto> ''x'']\<rparr>" init_sys]
    by (simp add: typo_policy_def strict_bed_def plain_drv_def init_sys_def) blast
qed

section \<open>The success time stamp of a paused policy\<close>

lemma mops_driver_statuses: "mops (final_of (driver_statuses p cr byNode prev c nodes) s) = mops s"
proof (induction nodes arbitrary: c s)
  case (Cons n ns)
  have "mops (final_of (driver_node_status p cr byNode prev n) s) = mops s" for s
    by (auto simp: driver_node_status_def recordDriverNodeStateEvent_def now_def Let_def split_beta
        split: option.splits)
  then show ?case by (simp add: Cons.IH split_beta)
qed simp

lemma mops_updateStatus: "set (mops s) \<subseteq> set (mops (final_of (updateStatus p cr ds m) s))"
proof -
  have pop: "mops (final_of (populateNodeStatuses p c) t) = mops t" for c t
    by (auto simp: populateNodeStatuses_def listMatchedNodes_def list_nodes_def installer_pods_def
        list_pods_def mops_driver_statuses Let_def split_beta split: sum.splits)
  have cond: "mops (final_of (setDriverConditions p c) t) = mops t" for c t
    by (simp add: setDriverConditions_def now_def Let_def split_beta)
  have inc: "set (mops s) \<subseteq> set (mops (final_of (case e of None \<Rightarrow> State_Monad.return ()
      | Some x \<Rightarrow> inc_driver_error n st) s))" for e :: "err option" and n st s
    by (auto split: option.split)
  show ?thesis
    unfolding updateStatus_def
    using inc by (fastforce simp: split_beta pop cond recordDriverPolicyMetrics_def final_SetPolicyNodes
        final_SetDesiredVersion update_drv_status_def)
qed

text \<open>Without a DaemonSet a paused policy is reported as reconciled before its status is written: when
  that write fails the reconcile returns the error, but the time stamp of the last successful reconcile
  has already been advanced.\<close>

theorem paused_success_precedes_status:
  assumes "dv_paused (dp_spec cr)"
    "result_of (countMatchedNodes p cr) s = Inr m"
    "\<And>h. srv_get_ds (pf_reads p) h (operatorNamespace p) (driverDaemonSetName (dp_name cr)) = Inl (Err NotFound x)"
    "\<And>h c. srv_update_drv (pf_writes p) h c = Inl e"
  shows "snd (result_of (reconcile_driver p cr) s) = Some e \<and>
    (\<exists>t. MSet DriverLastReconcileTimestamp [dp_name cr] t \<in> set (mops (final_of (reconcile_driver p cr) s)))"
proof -
  let ?c = "final_of (countMatchedNodes p cr) s"
  let ?g = "final_of (DriverReconcileSucceeded p (dp_name cr))
    (final_of (get_ds p (operatorNamespace p) (driverDaemonSetName (dp_name cr))) ?c)"
  have run: "snd (result_of (reconcile_driver p cr) s) = fst (result_of (updateStatus p cr None m) ?g)"
    "final_of (reconcile_driver p cr) s = final_of (updateStatus p cr None m) ?g"
    by (rule paused_absent_run [OF assms(1-3)])+
  have "\<exists>t. MSet DriverLastReconcileTimestamp [dp_name cr] t \<in> set (mops ?g)"
    by (auto simp: DriverReconcileSucceeded_def)
  moreover have "fst (result_of (updateStatus p cr None m) ?g) = Some e"
    using assms(4) by (simp add: updateStatus_def update_drv_status_def split_beta)
  ultimately show ?thesis using run mops_updateStatus [of ?g p cr None m] by auto
qed

text \<open>A server that refuses the status write.\<close>

definition no_status_writes :: "platform \<Rightarrow> platform" where
  "no_status_writes p = p\<lparr>pf_writes := (pf_writes p)\<lparr>srv_update_drv := (\<lambda>h c. Inl (Err OtherErr ''down''))\<rparr>\<rparr>"

lemma paused_success_precedes_status_witness:
  "let cr = (plain_drv ''d'')\<lparr>dp_spec := (dp_spec (plain_drv ''d''))\<lparr>dv_paused := True\<rparr>\<rparr>
   in snd (result_of (reconcile_driver (no_status_writes (testbed [] [] [] [])) cr) init_sys) =
      Some (Err OtherErr ''down'')"
proof -
  let ?cr = "(plain_drv ''d'')\<lparr>dp_spec := (dp_spec (plain_drv ''d''))\<lparr>dv_paused := True\<rparr>\<rparr>"
  have "result_of (countMatchedNodes (no_status_writes (testbed [] [] [] [])) ?cr) init_sys = Inr 0"
    by (simp add: countMatchedNodes_def no_status_writes_def list_nodes_def testbed_def)
  then show ?thesis
    unfolding Let_def
    by (intro paused_success_precedes_status [THEN conjunct1])
      (auto simp: no_status_writes_def testbed_def lookup_by_def)
qed

section \<open>The fleet gauge\<close>

definition kmd_series :: "string \<times> string \<Rightarrow> string list" where
  "kmd_series vm = [fst vm, if snd vm = [] then InstallModeUnknown else snd vm]"

definition kmd_key :: "node \<Rightarrow> string \<times> string" where
  "kmd_key n = (sget (nd_labels n) LabelKMDVersion, sget (nd_labels n) LabelInstallMode)"

definition kmd_nodes :: "node list \<Rightarrow> node list" where
  "kmd_nodes nodes = filter (\<lambda>n. sget (nd_labels n) LabelKMDVersion \<noteq> []) nodes"

lemma kmd_counts_spec:
  "distinct (map fst (kmd_version_counts nodes))"
  "fst ` set (kmd_version_counts nodes) = kmd_key ` set (kmd_nodes nodes)"
  "map_of (kmd_version_counts nodes) k =
     (let n = int (length (filter (\<lambda>x. kmd_key x = k) (kmd_nodes nodes))) in if n = 0 then None else Some n)"
proof -
  have c: "kmd_version_counts nodes = fold bump (map kmd_key (kmd_nodes nodes)) []"
    by (simp add: kmd_version_counts_def kmd_key_def [abs_def] kmd_nodes_def)
  show "distinct (map fst (kmd_version_counts nodes))"
    unfolding c by (rule distinct_fold_bump) simp
  have keys: "fst ` set (fold bump ks xs) = set ks \<union> fst ` set xs" for ks :: "(string \<times> string) list" and xs
    by (induction ks arbitrary: xs) (auto simp: keys_bump)
  show "fst ` set (kmd_version_counts nodes) = kmd_key ` set (kmd_nodes nodes)"
    unfolding c keys by simp
  have "count_list (map kmd_key xs) k = length (filter (\<lambda>x. kmd_key x = k) xs)" for xs
    by (induction xs) auto
  then show "map_of (kmd_version_counts nodes) k =
     (let n = int (length (filter (\<lambda>x. kmd_key x = k) (kmd_nodes nodes))) in if n = 0 then None else Some n)"
    unfolding c map_of_fold_bump
    using count_list_0_iff [of "map kmd_key (kmd_nodes nodes)" k] by (simp add: Let_def)
qed

lemma kmd_gauge_run:
  assumes "srv_list_nodes (pf_reads p) (hist s) = Inr nodes"
  shows "mops (final_of (recordKMDVersionMetrics p) s) =
    (mops s @ [MReset DriverNodesByKMDVersion]) @
      map (\<lambda>(k, n). MSet DriverNodesByKMDVersion (kmd_series k) n) (kmd_version_counts nodes)"
  using assms
  by (simp add: recordKMDVersionMetrics_def list_nodes_def final_SetNodesByKMDVersion kmd_series_def
      case_prod_unfold)

text \<open>The fleet gauge is exact when no node carries the install mode \<open>"unknown"\<close> literally: after a
  reconcile a series exists exactly for the pairs of version and mode that some labelled node has, with
  the number of such nodes, and the series of versions that vanished are gone.\<close>

theorem kmd_gauge_exact:
  assumes "srv_list_nodes (pf_reads p) (hist s) = Inr nodes"
    "list_all (\<lambda>n. sget (nd_labels n) LabelInstallMode \<noteq> InstallModeUnknown) nodes"
    "mode \<noteq> InstallModeUnknown"
  shows "table_series (mops (final_of (recordKMDVersionMetrics p) s)) DriverNodesByKMDVersion
      (kmd_series (v, mode)) =
    (let n = int (length (filter (\<lambda>x. kmd_key x = (v, mode)) (kmd_nodes nodes)))
     in if n = 0 then None else Some n)"
proof -
  let ?c = "kmd_version_counts nodes"
  let ?ops = "mops s @ [MReset DriverNodesByKMDVersion]"
  have ser: "kmd_series k = kmd_series k' \<longleftrightarrow> k = k'"
    if "snd k \<noteq> InstallModeUnknown" "snd k' \<noteq> InstallModeUnknown" for k k'
    using that by (auto simp: kmd_series_def prod_eq_iff split: if_splits)
  have mode: "snd k \<noteq> InstallModeUnknown" if "k \<in> fst ` set ?c" for k
    using that assms(2) unfolding kmd_counts_spec(2) by (auto simp: kmd_nodes_def kmd_key_def list_all_iff)
  have inj: "inj_on kmd_series (fst ` set ?c)"
    using ser mode by (intro inj_onI) blast
  show ?thesis
  proof (cases "map_of ?c (v, mode)")
    case (Some n)
    then show ?thesis
      using table.set_each [OF kmd_counts_spec(1) inj map_of_SomeD [OF Some], of ?ops DriverNodesByKMDVersion]
        kmd_counts_spec(3) [of nodes "(v, mode)"]
      by (auto simp: kmd_gauge_run [OF assms(1)] Let_def split: if_splits)
  next
    case None
    then have "(v, mode) \<notin> fst ` set ?c" by (simp add: map_of_eq_None_iff)
    then have "\<not> touches m DriverNodesByKMDVersion (kmd_series (v, mode))"
      if "m \<in> set (map (\<lambda>(k, n). MSet DriverNodesByKMDVersion (kmd_series k) n) ?c)" for m
      using that ser [of _ "(v, mode)"] mode assms(3) by (force simp: image_iff)
    then have "table_series (mops (final_of (recordKMDVersionMetrics p) s)) DriverNodesByKMDVersion
        (kmd_series (v, mode)) = None"
      unfolding kmd_gauge_run [OF assms(1)] by (intro table.gone table.reset) blast
    then show ?thesis
      using None kmd_counts_spec(3) [of nodes "(v, mode)"] by (auto simp: Let_def split: if_splits)
  qed
qed

lemma kmd_gauge_exact_witness:
  "let n = (plain_node ''n1'')\<lparr>nd_labels := [LabelKMDVersion \<mapsto> ''2.0.0'']\<rparr>
   in table_series (mops (final_of (recordKMDVersionMetrics (testbed [n, n\<lparr>nd_name := ''n2''\<rparr>] [] [] [])) init_sys))
        DriverNodesByKMDVersion [''2.0.0'', ''unknown''] = Some 2"
  unfolding Let_def
  using kmd_gauge_exact [of "testbed [(plain_node ''n1'')\<lparr>nd_labels := [LabelKMDVersion \<mapsto> ''2.0.0'']\<rparr>,
      (plain_node ''n1'')\<lparr>nd_labels := [LabelKMDVersion \<mapsto> ''2.0.0'']\<rparr>\<lparr>nd_name := ''n2''\<rparr>] [] [] []"
      init_sys _ "[]" "''2.0.0''"]
  by (simp add: kmd_series_def kmd_key_def kmd_nodes_def const_defs)

text \<open>A node whose install mode is missing and one whose mode is \<open>"unknown"\<close> share a series, and the
  gauge shows one of the two counts instead of their sum.\<close>

theorem kmd_gauge_collision:
  "let a = (plain_node ''a'')\<lparr>nd_labels := [LabelKMDVersion \<mapsto> v]\<rparr>;
       b = (plain_node ''b'')\<lparr>nd_labels := [LabelKMDVersion \<mapsto> v, LabelInstallMode \<mapsto> InstallModeUnknown]\<rparr>
   in table_series (mops (final_of (recordKMDVersionMetrics (testbed [a, b] [] [] [])) s))
        DriverNodesByKMDVersion [v, InstallModeUnknown] = (if v = [] then None else Some 1)"
  by (simp add: Let_def kmd_gauge_run [OF testbed_reads(4)] kmd_version_counts_def kmd_series_def
      table_series_def const_defs)

end
