(* ===== verification/Cooperation.thy ===== *)
theory Cooperation
  imports FirmwareNode DriverSafety
begin

text \<open>
  The two controllers on one node: each with its own cordon annotations, both with the one
  unschedulable flag, and both with the same selection of pods to evict.
\<close>

section \<open>Two owners, one flag\<close>

interpretation fw_drv: two_cordons firmwareCordonOpts AnnoCordonedBy AnnoCordonedAt
    driverCordonOpts AnnoDriverCordonedBy AnnoDriverCordonedAt
  by unfold_locales (simp_all add: const_defs)

interpretation drv_fw: two_cordons driverCordonOpts AnnoDriverCordonedBy AnnoDriverCordonedAt
    firmwareCordonOpts AnnoCordonedBy AnnoCordonedAt
  by unfold_locales (simp_all add: const_defs)

text \<open>C22: For both controllers cordoning a free node and then uncordoning it gives back the node as it was,
  with every label and annotation, and in between the node is closed and carries the policy's name.\<close>

theorem cordon_uncordon_roundtrip:
  assumes "accepts_patches p" "\<not> nd_unsched node"
    "opts = firmwareCordonOpts cr \<or> opts = driverCordonOpts cr"
    "nd_annos node (co_by opts) = None" "nd_annos node (co_at opts) = None"
    "result_of (CordonNode p node opts) s = (e, node')"
  shows "e = None \<and> nd_unsched node' \<and> sget (nd_annos node') (co_by opts) = cr \<and>
    result_of (UncordonNode p node' opts) t = (None, node)"
proof (cases "opts = firmwareCordonOpts cr")
  case True
  then show ?thesis
    using assms fw_cordon.cordon_establishes [of p node cr s e node']
      fw_cordon.cordon_uncordon [of p node cr s e node' t]
    by (simp add: fw_cordon.by_key fw_cordon.at_key fw_cordon.held_by_def)
next
  case False
  then show ?thesis
    using assms drv_cordon.cordon_establishes [of p node cr s e node']
      drv_cordon.cordon_uncordon [of p node cr s e node' t]
    by (simp add: drv_cordon.by_key drv_cordon.at_key drv_cordon.held_by_def)
qed

lemma cordon_uncordon_roundtrip_witness:
  "let p = testbed [] [] [] []; node = plain_node ''n1'';
       node' = snd (result_of (CordonNode p node (driverCordonOpts ''d'')) init_sys)
   in nd_unsched node' \<and> result_of (UncordonNode p node' (driverCordonOpts ''d'')) init_sys = (None, node)"
  using cordon_uncordon_roundtrip [of "testbed [] [] [] []" "plain_node ''n1''" "driverCordonOpts ''d''" "''d''"
      init_sys, OF _ _ _ _ _ prod.collapse [symmetric], of init_sys]
  by (simp add: plain_node_def Let_def)

text \<open>C23: The drain clock of the firmware controller: a cordon that finds no time stamp starts it, and the
  elapsed time read later is the time since then, to the second; a cordon that finds a time stamp, even
  one left over from an earlier owner, keeps it, so the clock goes on from there.\<close>

theorem drain_clock:
  assumes "accepts_patches p" "result_of (CordonNode p node (firmwareCordonOpts cr)) s = (e, node')"
    "\<not> (nd_unsched node \<and> sget (nd_annos node) AnnoCordonedBy = cr)"
    "0 \<le> year_of (pf_now p (hist s))" "year_of (pf_now p (hist s)) < 10000"
  shows "result_of (cordonElapsed p node') t =
    (if sget (nd_annos node) AnnoCordonedAt = []
     then since (pf_now p (hist s) div second * second) (pf_now p (hist t))
     else result_of (cordonElapsed p node) t)"
proof (cases "sget (nd_annos node) AnnoCordonedAt = []")
  case True
  then show ?thesis
    using assms fw_cordon.cordon_clock_started [of p node cr s e node' t]
    by (simp add: cordonElapsed_def fw_cordon.held_by_def)
next
  case False
  then show ?thesis
    using fw_cordon.cordon_clock_kept [OF assms(1) False assms(2)]
    by (simp add: cordonElapsed_def CordonElapsed_def)
qed

lemma year_of_epoch: "year_of 0 = 1970"
  by code_simp

lemma drain_clock_witness:
  "let p = testbed [] [] [] [];
       node = (plain_node ''n1'')\<lparr>nd_annos := [AnnoCordonedAt \<mapsto> ''1969-12-31T23:00:00Z'']\<rparr>;
       node' = snd (result_of (CordonNode p node (firmwareCordonOpts ''fw'')) init_sys)
   in result_of (cordonElapsed p node') init_sys = result_of (cordonElapsed p node) init_sys"
  using drain_clock [of "testbed [] [] [] []" "(plain_node ''n1'')\<lparr>nd_annos := [AnnoCordonedAt \<mapsto> ''1969-12-31T23:00:00Z'']\<rparr>"
      "''fw''" init_sys, OF _ prod.collapse [symmetric], of init_sys]
  by (simp add: plain_node_def year_of_epoch Let_def)

text \<open>The flag is shared: when the driver controller opens a node that the firmware controller also
  holds, the node becomes schedulable while the firmware annotation stays, and a node whose flash Job is
  running is then reported as \<open>Flashing\<close>, a state in which the firmware controller makes no call that
  would close it again.\<close>

theorem driver_uncordon_opens_flashing_node:
  assumes "accepts_patches p" "nd_unsched node" "sget (nd_annos node) AnnoCordonedBy = fp_name fw"
    "sget (nd_annos node) AnnoDriverCordonedBy = cr"
    "result_of (UncordonNode p node (driverCordonOpts cr)) s = (e, node')"
    "srv_get_job (pf_reads p) (hist t) (operatorNamespace p)
       (jobName fw (nd_name node) (fs_version (fp_spec fw))) = Inr j" "\<not> fst (jobFinished j)"
  shows "\<not> nd_unsched node' \<and> sget (nd_annos node') AnnoCordonedBy = fp_name fw \<and>
    ns_state (result_of (observeNode p fw node') t) = NodeStateFlashing \<and>
    \<not> isAdvanceable (ns_state (result_of (observeNode p fw node') t))"
proof -
  have o: "sget (nd_annos node') AnnoCordonedBy = fp_name fw \<and> \<not> nd_unsched node'"
    using assms(2-4)
    by (intro drv_fw.uncordon_opens_other [OF assms(1) _ _ assms(5)])
      (simp_all add: drv_cordon.held_by_def fw_cordon.held_by_def)
  have n: "nd_name node' = nd_name node"
    using drv_cordon.uncordon_result [OF assms(1), of node cr s] assms(4,5)
    by auto
  have "ns_state (result_of (observe_job p fw node' j) u) = NodeStateFlashing" for u
    using assms(7) by (auto simp: observe_job_def Let_def split_beta split: if_splits)
  then show ?thesis
    using o n assms(6) by (simp add: observeNode_def get_job_def)
qed

lemma driver_uncordon_opens_flashing_node_witness:
  "let j = plain_job (jobName (plain_fw ''fw'') ''n1'' ''19.8.0'');
       p = testbed [] [] [j] [];
       node = (plain_node ''n1'')\<lparr>nd_unsched := True,
         nd_annos := [AnnoCordonedBy \<mapsto> ''fw'', AnnoDriverCordonedBy \<mapsto> ''d'']\<rparr>;
       node' = snd (result_of (UncordonNode p node (driverCordonOpts ''d'')) init_sys)
   in \<not> nd_unsched node' \<and> ns_state (result_of (observeNode p (plain_fw ''fw'') node') init_sys) = NodeStateFlashing"
proof -
  let ?j = "plain_job (jobName (plain_fw ''fw'') ''n1'' ''19.8.0'')"
  let ?node = "(plain_node ''n1'')\<lparr>nd_unsched := True,
    nd_annos := [AnnoCordonedBy \<mapsto> ''fw'', AnnoDriverCordonedBy \<mapsto> ''d'']\<rparr>"
  show ?thesis
    using driver_uncordon_opens_flashing_node [of "testbed [] [] [?j] []" ?node "plain_fw ''fw''" "''d''"
        init_sys, OF _ _ _ _ prod.collapse [symmetric], of init_sys ?j]
    by (simp add: objects const_defs Let_def jobFinished_def zero_job_status_def)
qed

text \<open>The driver controller takes over a cordon it did not set: a node that an administrator closed,
  without any annotation of the driver, is open after the policy's cordon and uncordon, and nothing tells
  it from a node that was free before.\<close>

theorem driver_loses_external_cordon:
  assumes "accepts_patches p" "nd_annos node AnnoDriverCordonedBy = None"
    "nd_annos node AnnoDriverCordonedAt = None" "cr \<noteq> []"
    "result_of (CordonNode p node (driverCordonOpts cr)) s = (e, node')"
    "result_of (UncordonNode p node' (driverCordonOpts cr)) t = (e', node'')"
  shows "node'' = node\<lparr>nd_unsched := False\<rparr>"
proof -
  have "\<not> drv_cordon.held_by cr node"
    using assms(2,4) by (simp add: drv_cordon.held_by_def sget_def)
  from drv_cordon.cordon_result [OF assms(1) this, of s] assms(2,3,5)
  have n: "node' = node\<lparr>nd_unsched := True, nd_annos := (nd_annos node)
      (AnnoDriverCordonedBy \<mapsto> cr, AnnoDriverCordonedAt \<mapsto> format_rfc3339 (pf_now p (hist s)))\<rparr>"
    by (auto simp: sget_def Let_def)
  then have "node'' = node'\<lparr>nd_unsched := False,
      nd_annos := (nd_annos node')(AnnoDriverCordonedBy := None, AnnoDriverCordonedAt := None)\<rparr>"
    using drv_cordon.uncordon_result [OF assms(1), of node' cr t] assms(6) drv_cordon.keys by auto
  moreover have "(nd_annos node)(AnnoDriverCordonedBy := None, AnnoDriverCordonedAt := None) = nd_annos node"
    using assms(2,3) by (simp add: fun_upd_idem)
  ultimately show ?thesis
    using n drv_cordon.keys by (simp add: fun_upd_twist)
qed

lemma driver_loses_external_cordon_witness:
  "let p = testbed [] [] [] []; node = (plain_node ''n1'')\<lparr>nd_unsched := True\<rparr>;
       node' = snd (result_of (CordonNode p node (driverCordonOpts ''d'')) init_sys)
   in snd (result_of (UncordonNode p node' (driverCordonOpts ''d'')) init_sys) = plain_node ''n1''"
  using driver_loses_external_cordon [of "testbed [] [] [] []" "(plain_node ''n1'')\<lparr>nd_unsched := True\<rparr>" "''d''"
      init_sys, OF _ _ _ _ prod.collapse [symmetric] prod.collapse [symmetric], of init_sys]
  by (simp add: plain_node_def Let_def)

section \<open>Evictions\<close>

text \<open>The eviction request for a pod, with some answer.\<close>

definition eviction_of :: "pod \<Rightarrow> call \<Rightarrow> bool" where
  "eviction_of pd c \<longleftrightarrow> (\<exists>e. c = CEvict (pd_ns pd) (pd_name pd) e)"

lemma run_EvictPod:
  "\<exists>c. hist (final_of (EvictPod p pd) s) = hist s @ [c] \<and> eviction_of pd c"
  "mops (final_of (EvictPod p pd) s) = mops s"
  by (simp_all add: EvictPod_def evict_def eviction_of_def)

text \<open>What the drains of both controllers select: exactly the pods on the node, outside the operator's
  namespace, that pass the filter, have not ended, are not owned by a DaemonSet, and have an owner unless
  the drain is forced; in the order of the listing, each once per listing entry. Forcing adds the pods
  without an owner and nothing else.\<close>

theorem drain_selection:
  assumes "srv_list_pods (pf_reads p) (hist s) None [] = Inr items"
  shows "\<exists>sel. result_of (ListDevicePodsOnNode p n x force (Some f)) s = Inr sel \<and>
      sel = filter (\<lambda>pd. ps_node (pd_spec pd) = n \<and> pd_ns pd \<noteq> x \<and> f pd \<and>
        pd_phase pd \<notin> {PodSucceeded, PodFailed} \<and> \<not> PodIsDaemonSetOwned pd \<and>
        (pd_owners pd = [] \<longrightarrow> force)) items"
  using assms
  by (auto simp: ListDevicePodsOnNode_def list_pods_def select_pods_eq drainable_def IsTerminalPhase_def
      PodIsBare_def intro!: filter_cong)

lemma drain_selection_witness:
  "result_of (ListDevicePodsOnNode (testbed [] [plain_pod ''ns'' ''a'' ''n1'', plain_pod ''ns'' ''b'' ''n2''] [] [])
     ''n1'' ''op'' False (Some PodUsesTenstorrentDevice)) init_sys = Inr [plain_pod ''ns'' ''a'' ''n1'']"
  using drain_selection [of "testbed [] [plain_pod ''ns'' ''a'' ''n1'', plain_pod ''ns'' ''b'' ''n2''] [] []"
      init_sys _ "''n1''" "''op''" False PodUsesTenstorrentDevice, OF testbed_reads(5)]
  by (simp add: plain_pod_def PodUsesTenstorrentDevice_def PodIsDaemonSetOwned_def host_volume_def
      zero_pod_spec_def)

text \<open>The metric operations one eviction pass of the driver adds.\<close>

definition pass_metric :: "string \<Rightarrow> string \<Rightarrow> mop \<Rightarrow> bool" where
  "pass_metric cr pass m \<longleftrightarrow> m \<in> {MInc DriverPodsEvictedTotal [cr, pass],
     MInc DriverDrainBlockedTotal [cr, pass], MInc DriverErrorsTotal [cr, ''evict_pod'']}"

text \<open>The driver's eviction pass is best effort: every pod handed to it is asked to go exactly once, in
  order, whatever the server answered for the pods before it, and each answer is counted in exactly one
  of the evicted, blocked and error counters.\<close>

theorem driver_evicts_every_pod:
  "\<exists>cs ms. hist (final_of (evict_each p cr pass pds) s) = hist s @ cs \<and> list_all2 eviction_of pds cs \<and>
     mops (final_of (evict_each p cr pass pds) s) = mops s @ ms \<and> length ms = length pds \<and>
     list_all (pass_metric cr pass) ms"
proof (induction pds arbitrary: s)
  case (Cons pd pds)
  let ?r = "result_of (EvictPod p pd) s"
  let ?t = "final_of (EvictPod p pd) s"
  let ?m = "case ?r of Some (ErrEvictionBlocked _) \<Rightarrow> MInc DriverDrainBlockedTotal [cr, pass]
    | Some (EvictFailed _) \<Rightarrow> MInc DriverErrorsTotal [cr, ''evict_pod'']
    | None \<Rightarrow> MInc DriverPodsEvictedTotal [cr, pass]"
  obtain c where c: "hist ?t = hist s @ [c]" "eviction_of pd c" using run_EvictPod by blast
  have step: "final_of (evict_each p cr pass (pd # pds)) s =
      final_of (evict_each p cr pass pds) (?t\<lparr>mops := mops s @ [?m]\<rparr>)"
    by (simp add: run_EvictPod(2) split: option.split evict_err.split)
  have m: "pass_metric cr pass ?m" by (simp add: pass_metric_def split: option.split evict_err.split)
  obtain cs ms where ih: "hist (final_of (evict_each p cr pass pds) (?t\<lparr>mops := mops s @ [?m]\<rparr>)) = hist ?t @ cs"
    "list_all2 eviction_of pds cs"
    "mops (final_of (evict_each p cr pass pds) (?t\<lparr>mops := mops s @ [?m]\<rparr>)) = (mops s @ [?m]) @ ms"
    "length ms = length pds" "list_all (pass_metric cr pass) ms"
    using Cons.IH [of "?t\<lparr>mops := mops s @ [?m]\<rparr>"] by auto
  show ?case
    unfolding step
    by (rule exI [of _ "c # cs"], rule exI [of _ "?m # ms"]) (use c ih m in simp)
qed simp

text \<open>The firmware controller's eviction loop goes through the pods in order and stops at the first
  error other than a disruption budget: it asks a prefix of the pods to go, each once, and without an
  error that is all of them. Whatever the answers, the node's state and name stay as observed.\<close>

theorem firmware_evicts_in_order:
  "\<exists>k cs. k \<le> length pds \<and>
     hist (final_of (evict_device_pods p cr ns pds) s) = hist s @ cs \<and>
     list_all2 eviction_of (take k pds) cs \<and>
     (fst (result_of (evict_device_pods p cr ns pds) s) = None \<longrightarrow> k = length pds) \<and>
     ns_state (snd (result_of (evict_device_pods p cr ns pds) s)) = ns_state ns \<and>
     ns_name (snd (result_of (evict_device_pods p cr ns pds) s)) = ns_name ns"
proof (induction pds arbitrary: ns s)
  case (Cons pd pds)
  let ?r = "result_of (EvictPod p pd) s"
  let ?t = "final_of (EvictPod p pd) s"
  obtain c where c: "hist ?t = hist s @ [c]" "eviction_of pd c" using run_EvictPod by blast
  show ?case
  proof (cases "\<exists>e. ?r = Some (EvictFailed e)")
    case True
    then show ?thesis
      using c by (intro exI [of _ 1] exI [of _ "[c]"]) (auto simp: evictPod_def)
  next
    case False
    then consider "?r = None" | b where "?r = Some (ErrEvictionBlocked b)"
      by (metis evict_err.exhaust option.exhaust)
    then obtain ns' m where step:
      "result_of (evict_device_pods p cr ns (pd # pds)) s =
         result_of (evict_device_pods p cr ns' pds) (?t\<lparr>mops := mops ?t @ [m]\<rparr>)"
      "final_of (evict_device_pods p cr ns (pd # pds)) s =
         final_of (evict_device_pods p cr ns' pds) (?t\<lparr>mops := mops ?t @ [m]\<rparr>)"
      "ns_state ns' = ns_state ns" "ns_name ns' = ns_name ns"
    proof cases
      case 1
      then show ?thesis by (intro that [of ns]) (simp_all add: evictPod_def)
    next
      case (2 b)
      show ?thesis
        by (rule that [of "ns\<lparr>ns_reason := ReasonEvictionBlocked, ns_msg := ''eviction of '' @ pd_ns pd @
            ''/'' @ pd_name pd @ '' blocked by PDB; will retry''\<rparr>"]) (simp_all add: 2 evictPod_def)
    qed
    from Cons.IH [of ns' "?t\<lparr>mops := mops ?t @ [m]\<rparr>"] obtain k cs where
      "k \<le> length pds" "hist (final_of (evict_device_pods p cr ns' pds) (?t\<lparr>mops := mops ?t @ [m]\<rparr>)) = hist ?t @ cs"
      "list_all2 eviction_of (take k pds) cs"
      "fst (result_of (evict_device_pods p cr ns' pds) (?t\<lparr>mops := mops ?t @ [m]\<rparr>)) = None \<longrightarrow> k = length pds"
      "ns_state (snd (result_of (evict_device_pods p cr ns' pds) (?t\<lparr>mops := mops ?t @ [m]\<rparr>))) = ns_state ns'"
      "ns_name (snd (result_of (evict_device_pods p cr ns' pds) (?t\<lparr>mops := mops ?t @ [m]\<rparr>))) = ns_name ns'"
      by auto
    then show ?thesis
      using c step by (intro exI [of _ "Suc k"] exI [of _ "c # cs"]) simp
  qed
qed simp

lemma firmware_evicts_in_order_witness:
  "let p = testbed [] [] [] []; pds = [plain_pod ''ns'' ''a'' ''n1'', plain_pod ''ns'' ''b'' ''n1''];
       t = final_of (evict_device_pods p (plain_fw ''fw'') (base_status (plain_node ''n1'')) pds) init_sys
   in length (hist t) = 2"
proof -
  let ?p = "testbed [] [] [] []" and ?pds = "[plain_pod ''ns'' ''a'' ''n1'', plain_pod ''ns'' ''b'' ''n1'']"
  have "fst (result_of (evict_device_pods ?p (plain_fw ''fw'') (base_status (plain_node ''n1'')) ?pds) init_sys) = None"
    by (simp add: evictPod_def EvictPod_def evict_def)
  then show ?thesis
    using firmware_evicts_in_order [of ?pds ?p "plain_fw ''fw''" "base_status (plain_node ''n1'')" init_sys]
    by (auto simp: Let_def init_sys_def list_all2_conv_all_nth)
qed

end
