(* ===== verification/Templates.thy ===== *)
theory Templates
  imports DriverDrain TestBed "HOL-Library.Multiset"
begin

text \<open>
  What the two workload templates promise: the builder DaemonSet is scheduled on the nodes the
  controller matches, its hash and its version can be read back, and a flash Job runs once, on its
  node, under a name of its own.
\<close>

section \<open>Selectors\<close>

text \<open>The documented meaning of label selectors and node-selector terms, which the code leaves to the
  libraries.\<close>

definition requirement_holds :: "labels \<Rightarrow> requirement \<Rightarrow> bool" where
  "requirement_holds l r =
     (case rq_op r of
        None \<Rightarrow> False
      | Some SelIn \<Rightarrow> (case l (rq_key r) of None \<Rightarrow> False | Some v \<Rightarrow> v \<in> set (rq_values r))
      | Some SelNotIn \<Rightarrow> (case l (rq_key r) of None \<Rightarrow> True | Some v \<Rightarrow> v \<notin> set (rq_values r))
      | Some SelExists \<Rightarrow> l (rq_key r) \<noteq> None
      | Some SelDoesNotExist \<Rightarrow> l (rq_key r) = None)"

definition selector_holds :: "label_selector \<Rightarrow> labels \<Rightarrow> bool" where
  "selector_holds sel l \<longleftrightarrow>
     list_all (\<lambda>(k, v). l k = Some v) (match_labels sel) \<and> list_all (requirement_holds l) (match_exprs sel)"

text \<open>A selector is refused exactly when it has an unknown operator.\<close>

definition documented_selector :: "label_selector \<Rightarrow> err + (labels \<Rightarrow> bool)" where
  "documented_selector sel =
     (if list_all (\<lambda>e. rq_op e \<noteq> None) (match_exprs sel) then Inr (selector_holds sel)
      else Inl (Err OtherErr ''not a valid label selector operator''))"

definition documented_selectors :: "platform \<Rightarrow> bool" where
  "documented_selectors p \<longleftrightarrow> lib_selector (pf_lib p) = documented_selector"

definition with_selectors :: "platform \<Rightarrow> platform" where
  "with_selectors p = p\<lparr>pf_lib := (pf_lib p)\<lparr>lib_selector := documented_selector\<rparr>\<rparr>"

lemma with_selectors_documented [simp]: "documented_selectors (with_selectors p)"
  by (simp add: documented_selectors_def with_selectors_def)

lemma node_selector_op_id [simp]: "node_selector_op op = op"
  by (cases op rule: node_selector_op.cases) simp_all

lemma requirement_in_single [simp]:
  "requirement_holds l \<lparr>rq_key = k, rq_op = Some SelIn, rq_values = [v]\<rparr> \<longleftrightarrow> l k = Some v"
  by (simp add: requirement_holds_def split: option.split)

lemma requirement_copy [simp]: "\<lparr>rq_key = rq_key e, rq_op = rq_op e, rq_values = rq_values e\<rparr> = e"
  by (cases e) simp

lemma expressions_hold:
  "list_all (requirement_holds l) (labelSelectorToExpressions sel) \<longleftrightarrow> selector_holds sel l"
  by (simp add: labelSelectorToExpressions_def selector_holds_def list.pred_map comp_def case_prod_unfold)

text \<open>The nodes on which the DaemonSet controller puts a builder pod.\<close>

definition eligible :: "drv_policy \<Rightarrow> node \<Rightarrow> bool" where
  "eligible cr node \<longleftrightarrow> list_all (requirement_holds (nd_labels node)) (driver_node_term cr)"

lemma eligible_iff:
  "eligible cr node \<longleftrightarrow> selector_holds (DriverEffectiveNodeAffinity (dp_spec cr)) (nd_labels node) \<and>
     nd_labels node LabelTenstorrentPresent = Some ''true'' \<and> nd_labels node LabelDriverSkip = None"
  by (auto simp: eligible_def driver_node_term_def expressions_hold requirement_holds_def
      split: option.split)

lemma matched_iff:
  "node \<in> set (filter_driver_matched p sel nodes) \<longleftrightarrow> node \<in> set nodes \<and> sel (nd_labels node) \<and>
     (requireTenstorrentLabel p \<longrightarrow> sget (nd_labels node) LabelTenstorrentPresent = ''true'') \<and>
     sget (nd_labels node) LabelDriverSkip \<noteq> ''true''"
  by (induction nodes) (auto simp: Let_def)

text \<open>C27: Every node on which the DaemonSet may run is a matched node. The converse holds for a node that
  carries the device label and whose skip label is absent or \<open>"true"\<close>; a node whose skip label has
  another value is matched, and so counted and cordoned, but never gets a builder pod.\<close>

theorem daemonset_runs_on_matched_nodes:
  assumes "documented_selectors p"
    "lib_selector (pf_lib p) (DriverEffectiveNodeAffinity (dp_spec cr)) = Inr sel" "node \<in> set nodes"
  shows "(eligible cr node \<longrightarrow> node \<in> set (filter_driver_matched p sel nodes)) \<and>
    (node \<in> set (filter_driver_matched p sel nodes) \<longrightarrow>
      (eligible cr node \<longleftrightarrow> nd_labels node LabelTenstorrentPresent = Some ''true'' \<and>
         nd_labels node LabelDriverSkip = None)) \<and>
    (nd_labels node LabelDriverSkip \<notin> {None, Some ''true''} \<longrightarrow> \<not> eligible cr node)"
proof -
  have "sel = selector_holds (DriverEffectiveNodeAffinity (dp_spec cr))"
    using assms(1,2) by (auto simp: documented_selectors_def documented_selector_def split: if_splits)
  then show ?thesis using assms(3) by (auto simp: eligible_iff matched_iff sget_def)
qed

lemma daemonset_runs_on_matched_nodes_witness:
  "let n = (plain_node ''n1'')\<lparr>nd_labels := [LabelTenstorrentPresent \<mapsto> ''true'', LabelDriverSkip \<mapsto> ''false'']\<rparr>;
       p = with_selectors (testbed [n] [] [] [])
   in n \<in> set (filter_driver_matched p (selector_holds empty_selector) [n]) \<and> \<not> eligible (plain_drv ''d'') n"
proof -
  let ?n = "(plain_node ''n1'')\<lparr>nd_labels := [LabelTenstorrentPresent \<mapsto> ''true'', LabelDriverSkip \<mapsto> ''false'']\<rparr>"
  let ?p = "with_selectors (testbed [?n] [] [] [])"
  have "lib_selector (pf_lib ?p) (DriverEffectiveNodeAffinity (dp_spec (plain_drv ''d''))) =
      Inr (selector_holds empty_selector)"
    by (simp add: with_selectors_def documented_selector_def DriverEffectiveNodeAffinity_def
        plain_drv_def empty_selector_def)
  from daemonset_runs_on_matched_nodes [OF with_selectors_documented this, of ?n "[?n]"]
  show ?thesis
    by (simp add: Let_def const_defs matched_iff selector_holds_def empty_selector_def
        requireTenstorrentLabel_def os_getenv_def with_selectors_def testbed_def)
qed

section \<open>The template hash\<close>

lemma hex_digits: "set (EncodeToString bs) \<subseteq> hex_digit ` {..<16}"
proof -
  have "unat b div 16 < 16" for b :: "8 word"
  proof -
    have "unat b < 256" using unsigned_less [of b] by simp
    then show ?thesis by (simp add: less_mult_imp_div_less)
  qed
  then show ?thesis by (auto simp: EncodeToString_def)
qed

text \<open>The stamp of a rendered DaemonSet is sixteen hexadecimal digits, and it covers exactly the pod
  template and the update strategy: two policies that render the same pod never see drift from each
  other, whatever their labels, owners and names.\<close>

theorem template_hash_covers_pod:
  "let stamp = sget (dm_annos (buildDaemonSet p cr n)) dsTemplateHashAnnotation
   in length stamp = 16 \<and> set stamp \<subseteq> hex_digit ` {..<16} \<and>
      (builder_pod p cr = builder_pod p cr' \<longrightarrow>
        \<not> daemonSetNeedsUpdate (buildDaemonSet p cr n) (buildDaemonSet p cr' n')) \<and>
      (\<forall>d. daemonSetNeedsUpdate d (buildDaemonSet p cr n) \<longleftrightarrow> sget (dm_annos d) dsTemplateHashAnnotation \<noteq> stamp)"
proof -
  have "set (take 16 (EncodeToString bs)) \<subseteq> hex_digit ` {..<16}" for bs
    using hex_digits [of bs] set_take_subset [of 16 "EncodeToString bs"] by blast
  then show ?thesis
    by (simp add: buildDaemonSet_def computeDSTemplateHash_def daemonSetNeedsUpdate_def Let_def)
qed

lemma template_hash_covers_pod_witness:
  "let p = testbed [] [] [] []; cr = plain_drv ''d''; cr' = cr\<lparr>dp_uid := ''other''\<rparr>
   in \<not> daemonSetNeedsUpdate (buildDaemonSet p cr ''ds'') (buildDaemonSet p cr' ''ds'')"
proof -
  have "builder_pod p cr = builder_pod p (cr\<lparr>dp_uid := u\<rparr>)" for p cr u
    by (simp add: builder_pod_def driver_node_term_def builder_container_def builder_env_def
        driver_image_def driver_pull_policy_def)
  then show ?thesis
    using template_hash_covers_pod [of "testbed [] [] [] []" "plain_drv ''d''" "''ds''"
        "(plain_drv ''d'')\<lparr>dp_uid := ''other''\<rparr>" "''ds''"]
    by (simp add: Let_def)
qed

text \<open>The order in which the entries of \<open>matchLabels\<close> are visited, which Go does not fix, reaches the
  pod template: two orders of the same entries mean the same selector, but render different pods, and so
  a different text is hashed whenever the encoder tells the pods apart.\<close>

theorem selector_order_reaches_template:
  assumes "mset (match_labels sel) = mset (match_labels sel')" "match_labels sel \<noteq> match_labels sel'"
    "match_exprs sel' = match_exprs sel"
    "dv_affinity (dp_spec cr) = Some sel"
    "cr' = cr\<lparr>dp_spec := (dp_spec cr)\<lparr>dv_affinity := Some sel'\<rparr>\<rparr>"
  shows "selector_holds sel l = selector_holds sel' l \<and> builder_pod p cr \<noteq> builder_pod p cr'"
proof -
  have "set (match_labels sel) = set (match_labels sel')"
    using assms(1) by (rule mset_eq_setD)
  moreover have "inj (\<lambda>(k, v). \<lparr>rq_key = k, rq_op = Some SelIn, rq_values = [v]\<rparr>)"
    by (auto simp: inj_def)
  then have "map (\<lambda>(k, v). \<lparr>rq_key = k, rq_op = Some SelIn, rq_values = [v]\<rparr>) (match_labels sel) \<noteq>
      map (\<lambda>(k, v). \<lparr>rq_key = k, rq_op = Some SelIn, rq_values = [v]\<rparr>) (match_labels sel')"
    using assms(2) by (simp add: inj_map_eq_map)
  then have "driver_node_term cr \<noteq> driver_node_term cr'"
    using assms(3-5) mset_eq_length [OF assms(1)]
    by (simp add: driver_node_term_def labelSelectorToExpressions_def DriverEffectiveNodeAffinity_def)
  then have "ps_affinity (builder_pod p cr) \<noteq> ps_affinity (builder_pod p cr')"
    by (simp add: builder_pod_def)
  ultimately show ?thesis
    using assms(3) by (auto simp: selector_holds_def list_all_iff)
qed

lemma selector_order_reaches_template_witness:
  "let mk = (\<lambda>ls. (plain_drv ''d'')\<lparr>dp_spec := (dp_spec (plain_drv ''d''))
         \<lparr>dv_affinity := Some \<lparr>match_labels = ls, match_exprs = []\<rparr>\<rparr>\<rparr>)
   in builder_pod p (mk [(''a'', ''1''), (''b'', ''2'')]) \<noteq> builder_pod p (mk [(''b'', ''2''), (''a'', ''1'')])"
  unfolding Let_def
  by (rule selector_order_reaches_template
      [where sel = "\<lparr>match_labels = [(''a'', ''1''), (''b'', ''2'')], match_exprs = []\<rparr>"
        and sel' = "\<lparr>match_labels = [(''b'', ''2''), (''a'', ''1'')], match_exprs = []\<rparr>", THEN conjunct2])
    simp_all

section \<open>The version of a builder pod\<close>

lemma podEnv_builder: "pd_spec pd = (builder_pod p cr)\<lparr>ps_node := n\<rparr> \<Longrightarrow> podEnv pd ''TT_KMD_VERSION'' = dv_version (dp_spec cr)"
  by (simp add: podEnv_def builder_pod_def builder_container_def builder_env_def env_lit_def)

text \<open>The version written into the template is the one read back from the pods made from it: a pod
  rendered for a policy counts as ready at the target of another exactly when it is ready, is placed, and
  the two versions are equal, whatever the environment and the rest of the two specs.\<close>

theorem builder_version_roundtrip:
  assumes "pd_spec pd = (builder_pod p cr)\<lparr>ps_node := n\<rparr>"
  shows "(ready_at_target cr' [pd] m \<longleftrightarrow>
      m = n \<and> n \<noteq> [] \<and> pod_ready pd \<and> dv_version (dp_spec cr) = dv_version (dp_spec cr')) \<and>
    pi_version (pod_info pd) = dv_version (dp_spec cr)"
  using podEnv_builder [OF assms] assms by (auto simp: ready_at_target_def pod_info_def)

text \<open>A ready builder pod of a policy on a node.\<close>

definition builder_on :: "platform \<Rightarrow> drv_policy \<Rightarrow> string \<Rightarrow> pod" where
  "builder_on p cr n = (plain_pod ''ns'' ''b'' n)\<lparr>pd_spec := (builder_pod p cr)\<lparr>ps_node := n\<rparr>,
     pd_conds := [(''Ready'', ConditionTrue)]\<rparr>"

lemma builder_version_roundtrip_witness:
  "ready_at_target (plain_drv ''e'') [builder_on (testbed [] [] [] []) (plain_drv ''d'') ''n1''] ''n1''"
  using builder_version_roundtrip [where pd = "builder_on (testbed [] [] [] []) (plain_drv ''d'') ''n1''"
      and p = "testbed [] [] [] []" and cr = "plain_drv ''d''" and n = "''n1''"
      and cr' = "plain_drv ''e''" and m = "''n1''"]
  by (simp add: builder_on_def pod_ready_def plain_drv_def)

section \<open>The gate list\<close>

lemma split_at_clean: "c \<notin> set g \<Longrightarrow> split_at c g = [g]"
  by (induction g) auto

lemma split_at_sep: "c \<notin> set g \<Longrightarrow> split_at c (g @ c # r) = g # split_at c r"
  by (induction g) auto

lemma split_join:
  "gs \<noteq> [] \<Longrightarrow> list_all (\<lambda>g. c \<notin> set g) gs \<Longrightarrow> split_at c (join [c] gs) = gs"
  by (induction gs rule: induct_list012) (simp_all add: split_at_clean split_at_sep)

lemma trim_clean: "list_all (\<lambda>c. \<not> is_space c) g \<Longrightarrow> trim_space g = g"
proof -
  have d: "list_all (\<lambda>c. \<not> is_space c) xs \<Longrightarrow> dropWhile is_space xs = xs" for xs
    by (cases xs) auto
  show "list_all (\<lambda>c. \<not> is_space c) g \<Longrightarrow> trim_space g = g"
    by (simp add: trim_space_def d list_all_rev)
qed

text \<open>\<open>DRIVER_DEPLOY_GATES\<close> round trip: the variable holding a comma-separated list of gate keys (not
  empty, without commas or white space) is read as exactly these keys; unset gives the default list, and
  an empty value no gate at all.\<close>

theorem deploy_gates_roundtrip:
  assumes "gs \<noteq> []" "list_all (\<lambda>g. g \<noteq> [] \<and> CHR '','' \<notin> set g \<and> list_all (\<lambda>c. \<not> is_space c) g) gs"
    "pf_env p ''DRIVER_DEPLOY_GATES'' = v"
  shows "(v = Some (join '','' gs) \<longrightarrow> driverDeployGates p = gs) \<and>
    (v = Some [] \<longrightarrow> driverDeployGates p = []) \<and>
    (v = None \<longrightarrow> driverDeployGates p = defaultDriverDeployGates)"
proof -
  have "split_at (CHR '','') (join '','' gs) = gs"
    using assms(1,2) by (intro split_join) (auto simp: list_all_iff)
  moreover have "filter (\<lambda>g. g \<noteq> []) (map trim_space gs) = gs"
    using assms(2) by (induction gs) (auto simp: trim_clean)
  ultimately show ?thesis
    using assms(3) by (auto simp: driverDeployGates_def envSet_def trim_space_def)
qed

lemma deploy_gates_roundtrip_witness:
  "driverDeployGates ((testbed [] [] [] [])\<lparr>pf_env := [''DRIVER_DEPLOY_GATES'' \<mapsto> ''a/b,c'']\<rparr>) = [''a/b'', ''c'']"
  using deploy_gates_roundtrip [of "[''a/b'', ''c'']"
      "(testbed [] [] [] [])\<lparr>pf_env := [''DRIVER_DEPLOY_GATES'' \<mapsto> ''a/b,c'']\<rparr>", OF _ _ refl]
  by (simp add: is_space_def)

section \<open>Flash Jobs\<close>

text \<open>The name of a flash Job has the prefix cut to 48 characters but the version in full, so its
  length is bounded by 58 plus that of the version and by no constant: from a version of six characters
  on, long names exceed the 63 characters Kubernetes allows.\<close>

theorem job_name_length:
  "length (jobName cr n v) = min 48 (7 + length (fp_name cr) + length n) + length v + 10 \<and>
   (63 < length (jobName cr n v) \<longleftrightarrow> 46 < min 41 (length (fp_name cr) + length n) + length v)"
  by (simp add: length_jobName) linarith

text \<open>A flash Job runs at most once on exactly its node: it is pinned there by name, its pod is never
  restarted, it is tried once, it carries a deadline (fifteen minutes unless the policy sets one), it is
  removed a day after it ends, and its only owner is the policy. Its labels name the policy and the node,
  and it lives in the operator's namespace, so no drain of this operator evicts it.\<close>

theorem flash_job_runs_once:
  "let j = setOwnerRef (buildFlashJob p cr n img) cr; sp = jb_spec j in
     ps_node (jsp_pod sp) = n \<and> ps_restart (jsp_pod sp) = ''Never'' \<and> jsp_backoff sp = Some 0 \<and>
     jsp_deadline sp = Some (if fu_flash_timeout (fs_upgrade (fp_spec cr)) = 0 then 900
       else scast (fu_flash_timeout (fs_upgrade (fp_spec cr)))) \<and>
     jsp_ttl sp = Some 86400 \<and> map or_uid (jb_owners j) = [fp_uid cr] \<and>
     jsp_labels sp = jb_labels j \<and> jb_labels j JobLabelCR = Some (fp_name cr) \<and>
     jb_labels j JobLabelNode = Some n \<and> jb_ns j = operatorNamespace p \<and>
     (\<forall>pd force flt m. pd_ns pd = jb_ns j \<longrightarrow> pd \<notin> set (select_pods m (operatorNamespace p) force flt [pd]))"
proof -
  have "(scast (w :: int32) :: int64) = 0 \<longleftrightarrow> w = 0" for w
  proof -
    have "scast (scast w :: int64) = w" by (rule scast_up_scast_id) (simp add: is_up)
    then show ?thesis by (metis scast_0)
  qed
  then show ?thesis
    by (simp add: setOwnerRef_def buildFlashJob_def flash_pod_def flash_timeout_def job_labels_def
        const_defs Let_def)
qed

end
