(* ===== verification/WellFormed.thy ===== *)
theory WellFormed
  imports Templates
begin

text \<open>
  The objects the controllers create as the API server checks them: a type of well-formed pod, Job and
  DaemonSet (every mount has its volume, names within a pod are distinct, a selector selects its own
  template, durations are not negative), and the proof that the templates of \<open>job.go\<close> and
  \<open>driver_policy_controller.go\<close> always have it.
\<close>

section \<open>Well-formed objects\<close>

definition wf_container :: "string set \<Rightarrow> container \<Rightarrow> bool" where
  "wf_container vols c \<longleftrightarrow> ct_name c \<noteq> [] \<and> ct_image c \<noteq> [] \<and>
     ct_pull c \<in> {[], ''Always'', ''IfNotPresent'', ''Never''} \<and>
     distinct (map ev_name (ct_env c)) \<and> list_all (\<lambda>e. ev_name e \<noteq> []) (ct_env c) \<and>
     distinct (map vm_path (ct_mounts c)) \<and>
     list_all (\<lambda>m. vm_name m \<in> vols \<and> vm_path m \<noteq> []) (ct_mounts c)"

definition wf_volume :: "volume \<Rightarrow> bool" where
  "wf_volume v \<longleftrightarrow> vl_name v \<noteq> [] \<and> ((vl_hostpath v \<noteq> None) \<noteq> vl_emptydir v)"

definition wf_pod :: "pod_spec \<Rightarrow> bool" where
  "wf_pod ps \<longleftrightarrow> distinct (map vl_name (ps_volumes ps)) \<and> list_all wf_volume (ps_volumes ps) \<and>
     ps_containers ps \<noteq> [] \<and> distinct (map ct_name (ps_init ps @ ps_containers ps)) \<and>
     list_all (wf_container (vl_name ` set (ps_volumes ps))) (ps_init ps @ ps_containers ps)"

definition wf_job :: "job \<Rightarrow> bool" where
  "wf_job j \<longleftrightarrow> jb_name j \<noteq> [] \<and> jb_ns j \<noteq> [] \<and> wf_pod (jsp_pod (jb_spec j)) \<and>
     ps_restart (jsp_pod (jb_spec j)) \<in> {''Never'', ''OnFailure''} \<and>
     (\<forall>b. jsp_backoff (jb_spec j) = Some b \<longrightarrow> 0 \<le> sint b) \<and>
     (\<forall>d. jsp_deadline (jb_spec j) = Some d \<longrightarrow> 0 < sint d) \<and>
     (\<forall>t. jsp_ttl (jb_spec j) = Some t \<longrightarrow> 0 \<le> sint t)"

definition wf_daemonset :: "daemonset \<Rightarrow> bool" where
  "wf_daemonset d \<longleftrightarrow> dm_name d \<noteq> [] \<and> dm_ns d \<noteq> [] \<and> wf_pod (dsp_pod (dm_spec d)) \<and>
     ps_restart (dsp_pod (dm_spec d)) \<in> {[], ''Always''} \<and>
     dsp_selector (dm_spec d) \<noteq> Map.empty \<and> dsp_selector (dm_spec d) \<subseteq>\<^sub>m dsp_labels (dm_spec d)"

section \<open>The flash Job\<close>

lemma sint_flash_timeout:
  assumes "0 \<le> sint (fu_flash_timeout (fs_upgrade (fp_spec cr)))"
  shows "0 < sint (flash_timeout cr)"
proof -
  let ?w = "fu_flash_timeout (fs_upgrade (fp_spec cr))"
  have wide: "sint (scast ?w :: int64) = sint ?w" by (rule sint_up_scast) (simp add: is_up)
  have zero: "sint x = 0 \<Longrightarrow> x = 0" for x :: int64 by (rule signed_word_eqI) simp
  show ?thesis
  proof (cases "(scast ?w :: int64) = 0")
    case False
    then have "sint (scast ?w :: int64) \<noteq> 0" using zero by blast
    then have "0 < sint (scast ?w :: int64)" using wide assms by linarith
    then show ?thesis using False by (simp add: flash_timeout_def Let_def)
  qed (simp add: flash_timeout_def Let_def)
qed

lemma default_image_nonempty: "defaultFlasherImageFromEnv p \<noteq> []"
  by (simp add: defaultFlasherImageFromEnv_def defaultFlasherImage_def Let_def)

text \<open>The pull policies that Kubernetes knows; the CRDs do not restrict the field.\<close>

definition pull_ok :: "string \<Rightarrow> bool" where
  "pull_ok s \<longleftrightarrow> s \<in> {[], ''Always'', ''IfNotPresent'', ''Never''}"

lemma wf_flash_job:
  assumes "0 \<le> sint (fu_flash_timeout (fs_upgrade (fp_spec cr)))"
    "\<And>f. fs_flasher (fp_spec cr) = Some f \<Longrightarrow> pull_ok (fo_pull f)"
  shows "wf_job (setOwnerRef (buildFlashJob p cr n (defaultFlasherImageFromEnv p)) cr)"
proof -
  have img: "flash_image cr (defaultFlasherImageFromEnv p) \<noteq> []"
    using default_image_nonempty by (auto simp: flash_image_def split: option.split)
  have pull: "pull_ok (flash_pull_policy cr)"
    using assms(2) by (auto simp: flash_pull_policy_def pull_ok_def split: option.split)
  have fetch: "wf_container {''work'', ''hugepages'', ''sys''} (fetch_container cr)"
    by (simp add: wf_container_def fetch_container_def env_lit_def mount_def zero_container_def)
  have flash: "wf_container {''work'', ''hugepages'', ''sys''} (flash_container cr (defaultFlasherImageFromEnv p))"
    using img pull
    by (simp add: wf_container_def flash_container_def env_lit_def mount_def zero_container_def pull_ok_def
        split: prod.split)
  have names: "ct_name (fetch_container cr) = ''fetch-bundle''"
    "ct_name (flash_container cr (defaultFlasherImageFromEnv p)) = ''flash''"
    by (simp_all add: fetch_container_def flash_container_def split: prod.split)
  have pod: "wf_pod (flash_pod cr n (defaultFlasherImageFromEnv p))"
    using fetch flash names
    by (simp add: wf_pod_def flash_pod_def zero_pod_spec_def empty_volume_def host_volume_def wf_volume_def)
  have name: "jobName cr n v \<noteq> []" for v
    using length_jobName [of cr n v] by auto
  show ?thesis
    using pod name sint_flash_timeout [OF assms(1)]
    by (simp add: wf_job_def setOwnerRef_def buildFlashJob_def flash_pod_def)
qed

section \<open>The DaemonSet\<close>

lemma builder_env_names:
  "distinct (map ev_name (builder_env p cr)) \<and> list_all (\<lambda>e. ev_name e \<noteq> []) (builder_env p cr)"
  by (simp add: builder_env_def env_lit_def proxy_vars_def Let_def)

lemma driver_image_nonempty: "driver_image p cr \<noteq> []"
  by (auto simp: driver_image_def defaultDriverImage_def Let_def split: option.split)

lemma wf_builder:
  assumes "\<And>i. dv_installer (dp_spec cr) = Some i \<Longrightarrow> pull_ok (io_pull i)" "name \<noteq> []"
  shows "wf_daemonset (buildDaemonSet p cr name)"
proof -
  have pull: "pull_ok (driver_pull_policy cr)"
    using assms(1) by (auto simp: driver_pull_policy_def pull_ok_def split: option.split)
  have builder: "wf_container (vl_name ` set builder_volumes) (builder_container p cr)"
    using builder_env_names [of p cr] driver_image_nonempty [of p cr] pull
    by (simp add: wf_container_def builder_container_def builder_volumes_def mount_def zero_container_def
        host_volume_def pull_ok_def)
  have "distinct (map vl_name builder_volumes)" "list_all wf_volume builder_volumes"
    by (simp_all add: builder_volumes_def host_volume_def wf_volume_def)
  then have "wf_pod (builder_pod p cr)"
    using builder by (simp add: wf_pod_def builder_pod_def zero_pod_spec_def)
  then show ?thesis
    using assms(2)
    by (auto simp: wf_daemonset_def buildDaemonSet_def Let_def builder_pod_def zero_pod_spec_def
        driver_pod_labels_def fun_eq_iff)
qed

text \<open>C18: What the controllers create is well formed, for every policy with a timeout that is not negative (the
  CRD asks for a minute) and with pull policies that Kubernetes knows: in the flash Job and in
  the builder DaemonSet every mount refers to a declared volume with exactly one source, container,
  volume, variable and path names are distinct, images are never empty, the DaemonSet's selector matches
  its own template, the Job's restart policy is one a Job may have, and its deadline is positive.\<close>

theorem templates_well_formed:
  assumes "0 \<le> sint (fu_flash_timeout (fs_upgrade (fp_spec cr)))"
    "\<And>f. fs_flasher (fp_spec cr) = Some f \<Longrightarrow> fo_pull f \<in> {[], ''Always'', ''IfNotPresent'', ''Never''}"
    "\<And>i. dv_installer (dp_spec dcr) = Some i \<Longrightarrow> io_pull i \<in> {[], ''Always'', ''IfNotPresent'', ''Never''}"
  shows "wf_job (setOwnerRef (buildFlashJob p cr n (defaultFlasherImageFromEnv p)) cr) \<and>
    wf_daemonset (buildDaemonSet p dcr (driverDaemonSetName (dp_name dcr)))"
  using wf_flash_job [of cr p n] wf_builder [of dcr "driverDaemonSetName (dp_name dcr)" p] assms
  by (simp add: pull_ok_def driverDaemonSetName_def)

lemma templates_well_formed_witness:
  "wf_daemonset (buildDaemonSet (testbed [] [] [] []) (plain_drv ''drv'') ''ttdrv-drv'')"
  using templates_well_formed [of "plain_fw ''fw''" "plain_drv ''drv''" "testbed [] [] [] []" "''n1''"]
  by (simp add: plain_fw_def plain_drv_def driverDaemonSetName_def)

section \<open>Label values\<close>

lemma ran_three: "distinct [a, b, c] \<Longrightarrow> ran [a \<mapsto> x, b \<mapsto> y, c \<mapsto> z] = {x, y, z}"
  by (auto simp: ran_def)

text \<open>Label values may have 63 characters, names of policies and nodes 253: the labels of the flash Job and
  of the builder pods fit exactly when these names, and the version, do. With a longer one
  the API server refuses every attempt to create the object.\<close>

theorem label_values_fit:
  "((\<forall>v \<in> ran (jb_labels (buildFlashJob p cr n img)). length v \<le> 63) \<longleftrightarrow>
     length (fp_name cr) \<le> 63 \<and> length n \<le> 63 \<and> length (fs_version (fp_spec cr)) \<le> 63) \<and>
   ((\<forall>v \<in> ran (dsp_labels (dm_spec (buildDaemonSet p dcr dn))). length v \<le> 63) \<longleftrightarrow> length (dp_name dcr) \<le> 63)"
proof -
  have keys: "distinct [JobLabelCR, JobLabelNode, JobLabelVersion]"
    "distinct [''app.kubernetes.io/name'', ''app.kubernetes.io/component'', ''driver.tenstorrent.com/cr'']"
    by (simp_all add: const_defs)
  show ?thesis
    by (simp add: buildFlashJob_def job_labels_def buildDaemonSet_def driver_pod_labels_def Let_def
        ran_three [OF keys(1)] ran_three [OF keys(2), simplified])
qed

lemma label_values_fit_witness:
  "\<forall>v \<in> ran (jb_labels (buildFlashJob (testbed [] [] [] []) (plain_fw ''fw'') ''n1'' ''image'')). length v \<le> 63"
  using label_values_fit [of "testbed [] [] [] []" "plain_fw ''fw''" "''n1''" "''image''"] by (simp add: plain_fw_def)

end
