(* ===== verification/UpgradeNodes.thy ===== *)
theory UpgradeNodes
  imports DriverGaps RollOutLive
begin

text \<open>
  What the steps of a kernel-module upgrade do to the stored nodes, on a server that does not fail:
  closing a node before the template changes, opening it when its builder is ready, and the label
  clean-up in between.
\<close>

section \<open>Patches of a bounded part of a node\<close>

lemma node_patch_refl: "node_patch L A u nd nd"
  by (simp add: node_patch_def)

lemma node_patch_trans: "node_patch L A u x y \<Longrightarrow> node_patch L A u y z \<Longrightarrow> node_patch L A u x z"
  by (auto simp: node_patch_def)

lemma node_patch_none: "node_patch {} {} False x y \<longleftrightarrow> y = x"
  by (cases x, cases y) (auto simp: node_patch_def fun_eq_iff)

lemma merge_node_patch: "node_patch L A u base new \<Longrightarrow> node_patch L A u cur (merge_node base new cur)"
  by (auto simp: node_patch_def merge_node_def merge_map_def)

text \<open>The node stored under a name after the calls made so far.\<close>

abbreviation stored :: "cluster \<Rightarrow> sys \<Rightarrow> string \<Rightarrow> node option" where
  "stored c s \<equiv> node_of (replay c (hist s))"

fun within :: "string set \<Rightarrow> string set \<Rightarrow> bool \<Rightarrow> call \<Rightarrow> bool" where
  "within L A u (CPatchNode base new e) = node_patch L A u base new"
| "within L A u _ = True"

lemma within_apply:
  assumes "within L A u x" "node_of c n = Some nd"
  shows "\<exists>nd'. node_of (apply_call x c) n = Some nd' \<and> node_patch L A u nd nd'"
proof (cases "\<exists>base new. x = CPatchNode base new None")
  case True
  then obtain base new where x: "x = CPatchNode base new None" by blast
  then have "node_patch L A u nd (merge_node base new nd)" using assms(1) by (simp add: merge_node_patch)
  then show ?thesis
    using assms(2) by (auto simp: x node_of_patch node_patch_refl simp del: apply_call.simps)
next
  case False
  then show ?thesis using assms(2) by (simp add: node_of_other node_patch_refl)
qed

lemma within_replay:
  "list_all (within L A u) h \<Longrightarrow> node_of c n = Some nd \<Longrightarrow>
   \<exists>nd'. node_of (replay c h) n = Some nd' \<and> node_patch L A u nd nd'"
proof (induction h arbitrary: c nd)
  case (Cons x h)
  obtain nd1 where nd1: "node_of (apply_call x c) n = Some nd1" "node_patch L A u nd nd1"
    using within_apply [of L A u x c n nd] Cons.prems by auto
  with Cons.IH [OF _ nd1(1)] Cons.prems show ?case by (auto intro: node_patch_trans)
qed (simp add: node_patch_refl)

lemma within_issued:
  "issued (within L A u) s t \<Longrightarrow> stored c s n = Some nd \<Longrightarrow>
   \<exists>nd'. stored c t n = Some nd' \<and> node_patch L A u nd nd'"
  by (auto simp: issued_def dest: within_replay)

lemma stored_None: "stored c s n = None \<longleftrightarrow> n \<notin> nd_name ` set (cl_nodes c)"
proof -
  have "stored c s n = None \<longleftrightarrow> n \<notin> nd_name ` set (cl_nodes (replay c (hist s)))"
    using node_of_mem node_of_name node_of_exists by (metis image_eqI option.exhaust option.distinct(1))
  then show ?thesis by (metis image_set replay_names)
qed

abbreviation quiet :: "call \<Rightarrow> bool" where
  "quiet \<equiv> within {} {} False"

lemma quiet_issued: "issued quiet s t \<Longrightarrow> stored c t = stored c s"
proof
  fix n assume q: "issued quiet s t"
  show "stored c t n = stored c s n"
    using within_issued [OF q, of c n] stored_None [of c s n] stored_None [of c t n]
    by (cases "stored c s n") (auto simp: node_patch_none)
qed

lemma quiet_stored: "issues quiet m \<Longrightarrow> stored c (final_of m s) = stored c s"
  by (rule quiet_issued) (simp add: keepsD)

text \<open>A loop that handles every node once, each as it is stored.\<close>

lemma each_nodes:
  assumes "\<And>nd s. nd \<in> set nodes \<Longrightarrow> stored c s (nd_name nd) = Some nd \<Longrightarrow>
      \<exists>nd'. stored c (final_of (f nd) s) = (stored c s)(nd_name nd \<mapsto> nd') \<and> R nd nd'"
    "distinct (map nd_name nodes)" "\<forall>nd \<in> set nodes. stored c s (nd_name nd) = Some nd"
  shows "(\<forall>nd \<in> set nodes. \<exists>nd'. stored c (final_of (each f nodes) s) (nd_name nd) = Some nd' \<and> R nd nd') \<and>
    (\<forall>n. n \<notin> nd_name ` set nodes \<longrightarrow> stored c (final_of (each f nodes) s) n = stored c s n)"
  using assms
proof (induction nodes arbitrary: s)
  case (Cons nd nodes)
  obtain nd1 where nd1: "stored c (final_of (f nd) s) = (stored c s)(nd_name nd \<mapsto> nd1)" "R nd nd1"
    using Cons.prems(1) [of nd s] Cons.prems(3) by (meson list.set_intros(1))
  have cur: "\<forall>nd' \<in> set nodes. stored c (final_of (f nd) s) (nd_name nd') = Some nd'"
    using Cons.prems(2,3) nd1(1) by (auto simp: image_iff)
  have tail: "distinct (map nd_name nodes)" "nd_name nd \<notin> nd_name ` set nodes" using Cons.prems(2) by auto
  note ih = Cons.IH [OF Cons.prems(1) tail(1) cur]
  show ?case using ih nd1 tail(2) by auto
qed simp

section \<open>Closed and opened nodes\<close>

text \<open>\<open>closed_from p y nd nd'\<close>: \<open>nd'\<close> is \<open>nd\<close> closed for the policy \<open>y\<close>; \<open>opened_from\<close>: opened again.\<close>

definition closed_from :: "platform \<Rightarrow> string \<Rightarrow> node \<Rightarrow> node \<Rightarrow> bool" where
  "closed_from p y nd nd' \<longleftrightarrow> nd_name nd' = nd_name nd \<and> nd_unsched nd' \<and>
     nd_annos nd' AnnoDriverCordonedBy = Some y \<and>
     (\<forall>k. k \<noteq> AnnoDriverCordonedBy \<longrightarrow> k \<noteq> AnnoDriverCordonedAt \<longrightarrow> nd_annos nd' k = nd_annos nd k) \<and>
     (\<forall>k. nd_labels nd' k = (if k \<in> set (driverDeployGates p) then Some ''false'' else nd_labels nd k))"

definition opened_from :: "platform \<Rightarrow> node \<Rightarrow> node \<Rightarrow> bool" where
  "opened_from p nd nd' \<longleftrightarrow> nd_name nd' = nd_name nd \<and> \<not> nd_unsched nd' \<and>
     nd_annos nd' AnnoDriverCordonedBy = None \<and> nd_annos nd' AnnoDriverCordonedAt = None \<and>
     (\<forall>k. k \<noteq> AnnoDriverCordonedBy \<longrightarrow> k \<noteq> AnnoDriverCordonedAt \<longrightarrow> nd_annos nd' k = nd_annos nd k) \<and>
     (\<forall>k. nd_labels nd' k = (if k \<in> set (driverDeployGates p) then None else nd_labels nd k))"

lemma quiet_eviction: "issues quiet (evictMatching p y n force flt pass)"
  by (rule issues_evictMatching) simp_all

context reliable_server begin

lemma patch_exact:
  assumes "stored c s (nd_name base) = Some base" "nd_name new = nd_name base"
  shows "result_of (patch_node p base new) s = (None, new)"
    "stored c (final_of (patch_node p base new) s) = (stored c s)(nd_name base \<mapsto> new)"
proof -
  have r: "srv_patch_node (pf_writes p) (hist s) base new = Inr new"
    using accepts_patch [OF assms] by (simp add: merge_node_exact assms(2))
  show "result_of (patch_node p base new) s = (None, new)" by (simp add: patch_node_def r)
  show "stored c (final_of (patch_node p base new) s) = (stored c s)(nd_name base \<mapsto> new)"
    using assms by (auto simp: patch_node_def r node_of_patch merge_node_exact simp del: apply_call.simps)
qed

lemma cordon_exact:
  assumes "stored c s (nd_name nd) = Some nd" "y \<noteq> []"
  shows "\<exists>nd'. result_of (CordonNode p nd (driverCordonOpts y)) s = (None, nd') \<and>
    stored c (final_of (CordonNode p nd (driverCordonOpts y)) s) = (stored c s)(nd_name nd \<mapsto> nd') \<and>
    nd_name nd' = nd_name nd \<and> nd_labels nd' = nd_labels nd \<and> nd_unsched nd' \<and>
    nd_annos nd' AnnoDriverCordonedBy = Some y \<and>
    (\<forall>k. k \<noteq> AnnoDriverCordonedBy \<longrightarrow> k \<noteq> AnnoDriverCordonedAt \<longrightarrow> nd_annos nd' k = nd_annos nd k)"
proof (cases "nd_unsched nd \<and> sget (nd_annos nd) AnnoDriverCordonedBy = y")
  case True
  then show ?thesis
    using assms by (auto simp: CordonNode_def driverCordonOpts_def fun_upd_idem dest: sget_nonempty)
next
  case False
  have tick: "stored c (s\<lparr>hist := hist s @ [CNow]\<rparr>) = stored c s" by simp
  have ne: "AnnoDriverCordonedBy \<noteq> AnnoDriverCordonedAt" by (simp add: const_defs)
  show ?thesis
    using False assms(1) ne patch_exact [OF assms(1)] patch_exact [of "s\<lparr>hist := hist s @ [CNow]\<rparr>" nd]
    by (auto simp: CordonNode_def driverCordonOpts_def Let_def now_def tick)
qed

lemma flip_exact:
  assumes "stored c s (nd_name nd) = Some nd"
  shows "\<exists>nd'. result_of (flipDeployGatesOff p nd) s = (None, nd') \<and>
    stored c (final_of (flipDeployGatesOff p nd) s) = (stored c s)(nd_name nd \<mapsto> nd') \<and>
    nd' = nd\<lparr>nd_labels := fst (gates_off (driverDeployGates p) (nd_labels nd))\<rparr>"
  using patch_exact [OF assms] gates_changed(1) [of "driverDeployGates p" "nd_labels nd"] assms
  by (cases "snd (gates_off (driverDeployGates p) (nd_labels nd))")
    (auto simp: flipDeployGatesOff_def split_beta fun_upd_idem)

lemma remove_exact:
  assumes "stored c s (nd_name nd) = Some nd"
  shows "stored c (final_of (removeDeployGates p nd) s) =
    (stored c s)(nd_name nd \<mapsto> nd\<lparr>nd_labels := fst (gates_removed (driverDeployGates p) (nd_labels nd))\<rparr>)"
  using patch_exact [OF assms] gates_changed(2) [of "driverDeployGates p" "nd_labels nd"] assms
  by (cases "snd (gates_removed (driverDeployGates p) (nd_labels nd))")
    (auto simp: removeDeployGates_def split_beta fun_upd_idem)

text \<open>Before the template changes.\<close>

lemma prepare_exact:
  assumes "stored c s (nd_name nd) = Some nd" "dp_name cr \<noteq> []"
  shows "\<exists>nd'. stored c (final_of (prepare_node p cr flt nd) s) = (stored c s)(nd_name nd \<mapsto> nd') \<and>
    closed_from p (dp_name cr) nd nd'"
proof -
  let ?cordon = "CordonNode p nd (driverCordonOpts (dp_name cr))"
  obtain nd1 where nd1: "result_of ?cordon s = (None, nd1)" "stored c (final_of ?cordon s) = (stored c s)(nd_name nd \<mapsto> nd1)"
    "nd_name nd1 = nd_name nd" "nd_labels nd1 = nd_labels nd" "nd_unsched nd1"
    "nd_annos nd1 AnnoDriverCordonedBy = Some (dp_name cr)"
    "\<forall>k. k \<noteq> AnnoDriverCordonedBy \<longrightarrow> k \<noteq> AnnoDriverCordonedAt \<longrightarrow> nd_annos nd1 k = nd_annos nd k"
    using cordon_exact [OF assms] by auto
  have "stored c (final_of ?cordon s) (nd_name nd1) = Some nd1" by (simp add: nd1(2,3))
  from flip_exact [OF this] obtain nd2 where nd2: "result_of (flipDeployGatesOff p nd1) (final_of ?cordon s) = (None, nd2)"
    "stored c (final_of (flipDeployGatesOff p nd1) (final_of ?cordon s)) = (stored c s)(nd_name nd \<mapsto> nd2)"
    "nd2 = nd1\<lparr>nd_labels := fst (gates_off (driverDeployGates p) (nd_labels nd1))\<rparr>"
    by (auto simp: nd1(2,3))
  have "closed_from p (dp_name cr) nd nd2"
    using nd1 nd2(3) by (simp add: closed_from_def gates_off_spec)
  moreover have "stored c (final_of (prepare_node p cr flt nd) s) = (stored c s)(nd_name nd \<mapsto> nd2)"
    by (simp add: prepare_node_def Let_def nd1(1) nd2(1,2) quiet_stored [OF quiet_eviction])
  ultimately show ?thesis by blast
qed

text \<open>After the upgrade.\<close>

lemma uncordon_exact:
  assumes "stored c s (nd_name nd) = Some nd"
  shows "\<exists>nd'. stored c (final_of (uncordon_node p cr pods nd) s) = (stored c s)(nd_name nd \<mapsto> nd') \<and>
    (if sget (nd_annos nd) AnnoDriverCordonedBy = dp_name cr \<and> ready_at_target cr pods (nd_name nd)
     then opened_from p nd nd' else nd' = nd)"
proof (cases "sget (nd_annos nd) AnnoDriverCordonedBy = dp_name cr \<and> ready_at_target cr pods (nd_name nd)")
  case True
  let ?open = "UncordonNode p nd (driverCordonOpts (dp_name cr))"
  let ?nd1 = "nd\<lparr>nd_unsched := False,
     nd_annos := (nd_annos nd)(AnnoDriverCordonedBy := None, AnnoDriverCordonedAt := None)\<rparr>"
  have open1: "result_of ?open s = (None, ?nd1)" "stored c (final_of ?open s) = (stored c s)(nd_name nd \<mapsto> ?nd1)"
    using True patch_exact [OF assms, of ?nd1] by (simp_all add: UncordonNode_def driverCordonOpts_def)
  have "stored c (final_of ?open s) (nd_name ?nd1) = Some ?nd1" by (simp add: open1(2))
  note gone = remove_exact [OF this]
  let ?nd2 = "?nd1\<lparr>nd_labels := fst (gates_removed (driverDeployGates p) (nd_labels nd))\<rparr>"
  have "stored c (final_of (uncordon_node p cr pods nd) s) = (stored c s)(nd_name nd \<mapsto> ?nd2)"
    using True gone by (simp add: uncordon_node_def open1 split_beta)
  moreover have "opened_from p nd ?nd2" by (simp add: opened_from_def gates_removed_spec)
  ultimately show ?thesis using True by auto
qed (use assms in \<open>auto simp: uncordon_node_def fun_upd_idem\<close>)

end

end
