(* ===== verification/UpgradeLoop.thy ===== *)
theory UpgradeLoop
  imports UpgradeNodes
begin

text \<open>
  The driver controller in a loop with the cluster: the DaemonSets beside the nodes and pods, a server
  that does not fail, and what one reconcile does to every node when the template drifted and when it
  did not.
\<close>

section \<open>DaemonSets in the cluster\<close>

definition find_set :: "daemonset list \<Rightarrow> string \<Rightarrow> string \<Rightarrow> daemonset option" where
  "find_set ds ns n = find (\<lambda>d. dm_ns d = ns \<and> dm_name d = n) ds"

text \<open>An update leaves the status alone, which has an endpoint of its own.\<close>

fun apply_set_call :: "call \<Rightarrow> daemonset list \<Rightarrow> daemonset list" where
  "apply_set_call (CCreateDS d None) ds = (if find_set ds (dm_ns d) (dm_name d) = None then ds @ [d] else ds)"
| "apply_set_call (CUpdateDS d None) ds =
     map (\<lambda>x. if dm_ns x = dm_ns d \<and> dm_name x = dm_name d then d\<lparr>dm_status := dm_status x\<rparr> else x) ds"
| "apply_set_call _ ds = ds"

definition replay_sets :: "daemonset list \<Rightarrow> call list \<Rightarrow> daemonset list" where
  "replay_sets ds h = fold apply_set_call h ds"

lemma replay_sets_simps [simp]:
  "replay_sets ds [] = ds" "replay_sets ds (x # h) = replay_sets (apply_set_call x ds) h"
  "replay_sets ds (h @ h') = replay_sets (replay_sets ds h) h'"
  by (simp_all add: replay_sets_def)

lemma replay_no_write: "list_all (\<lambda>x. \<not> ds_write x) h \<Longrightarrow> replay_sets ds h = ds"
proof (induction h)
  case (Cons x h)
  then show ?case by (cases x) simp_all
qed simp

lemma find_set_update:
  "find_set (apply_set_call (CUpdateDS d None) ds) (dm_ns d) (dm_name d) =
   map_option (\<lambda>x. d\<lparr>dm_status := dm_status x\<rparr>) (find_set ds (dm_ns d) (dm_name d))"
  by (induction ds) (auto simp: find_set_def)

locale driver_server = reliable_server p c for p c +
  fixes sets :: "daemonset list"
  assumes gets_set: "find_set (replay_sets sets h) ns n = Some d \<Longrightarrow> srv_get_ds (pf_reads p) h ns n = Inr d"
    and updates_set: "find_set (replay_sets sets h) (dm_ns d) (dm_name d) = Some x \<Longrightarrow>
      srv_update_ds (pf_writes p) h d = Inr (d\<lparr>dm_status := dm_status x\<rparr>)"
    and lists_owned: "srv_list_pods (pf_reads p) h (Some ns) sel = Inr (filter (\<lambda>pd. pd_ns pd = ns \<and>
      list_all (\<lambda>(k, v). pd_labels pd k = Some v) sel) (cl_pods c))"
    and accepts_status: "\<exists>cr'. srv_update_drv (pf_writes p) h cr = Inr cr' \<and>
      dp_name cr' = dp_name cr \<and> dp_spec cr' = dp_spec cr"

text \<open>The server in memory, with the DaemonSets.\<close>

definition drv_server :: "platform \<Rightarrow> cluster \<Rightarrow> daemonset list \<Rightarrow> platform" where
  "drv_server q c sets = mem_server (q\<lparr>
     pf_reads := (pf_reads q)\<lparr>srv_get_ds := (\<lambda>h ns n. case find_set (replay_sets sets h) ns n of
       None \<Rightarrow> Inl (Err NotFound ''daemonsets.apps not found'') | Some d \<Rightarrow> Inr d)\<rparr>,
     pf_writes := (pf_writes q)\<lparr>
       srv_update_ds := (\<lambda>h d. case find_set (replay_sets sets h) (dm_ns d) (dm_name d) of
         None \<Rightarrow> Inl (Err NotFound ''daemonsets.apps not found'')
       | Some x \<Rightarrow> Inr (d\<lparr>dm_status := dm_status x\<rparr>)),
       srv_update_drv := (\<lambda>h cr. Inr cr)\<rparr>\<rparr>) c"

interpretation drv: driver_server "drv_server q c sets" c sets for q c sets
proof (intro driver_server.intro driver_server_axioms.intro)
  show "reliable_server (drv_server q c sets) c" unfolding drv_server_def by (rule mem.reliable_server_axioms)
qed (auto simp: drv_server_def mem_server_def intro: filter_cong)

section \<open>Matched nodes and builder pods\<close>

definition driver_matches :: "platform \<Rightarrow> (labels \<Rightarrow> bool) \<Rightarrow> labels \<Rightarrow> bool" where
  "driver_matches p sel l \<longleftrightarrow> sel l \<and> (requireTenstorrentLabel p \<longrightarrow> sget l LabelTenstorrentPresent = ''true'') \<and>
     sget l LabelDriverSkip \<noteq> ''true''"

lemma filter_driver_matched_eq:
  "filter_driver_matched p sel nds = filter (\<lambda>nd. driver_matches p sel (nd_labels nd)) nds"
  by (induction nds) (auto simp: driver_matches_def Let_def)

definition builder_pods :: "string \<Rightarrow> drv_policy \<Rightarrow> cluster \<Rightarrow> pod list" where
  "builder_pods opns cr c = filter (\<lambda>pd. pd_ns pd = opns \<and>
     pd_labels pd ''driver.tenstorrent.com/cr'' = Some (dp_name cr)) (cl_pods c)"

text \<open>A pod that one of the two passes of the pre-upgrade drain asks to leave.\<close>

definition drained_pod :: "platform \<Rightarrow> drv_policy \<Rightarrow> pod_filter \<Rightarrow> string \<Rightarrow> pod \<Rightarrow> bool" where
  "drained_pod p cr flt n pd \<longleftrightarrow>
     drainable n (operatorNamespace p) (dd_force (du_drain (dv_upgrade (dp_spec cr))))
       (Some PodUsesTenstorrentDevice) pd \<or>
     fullNodeDrainEnabledForCR cr \<and>
       drainable n (operatorNamespace p) (dd_force (du_drain (dv_upgrade (dp_spec cr)))) (Some flt) pd"

context reliable_server begin

lemma evictMatching_sent:
  assumes "pd \<in> set (cl_pods c)" "drainable n (operatorNamespace p) force (Some flt) pd"
  shows "\<exists>e. CEvict (pd_ns pd) (pd_name pd) e \<in> set (hist (final_of (evictMatching p y n force flt pass) s))"
proof -
  have r: "result_of (ListDevicePodsOnNode p n (operatorNamespace p) force (Some flt)) s =
      Inr (filter (drainable n (operatorNamespace p) force (Some flt)) (cl_pods c))"
    by (simp add: ListDevicePodsOnNode_def list_pods_def lists_pods select_pods_eq)
  show ?thesis unfolding evictMatching_def using evict_each_sent [of pd] assms by (simp add: r)
qed

lemma prepare_node_evicts:
  assumes "stored c s (nd_name nd) = Some nd" "dp_name cr \<noteq> []" "pd \<in> set (cl_pods c)"
    "drained_pod p cr flt (nd_name nd) pd"
  shows "\<exists>e. CEvict (pd_ns pd) (pd_name pd) e \<in> set (hist (final_of (prepare_node p cr flt nd) s))"
proof -
  let ?cordon = "CordonNode p nd (driverCordonOpts (dp_name cr))"
  obtain nd1 where nd1: "result_of ?cordon s = (None, nd1)" "nd_name nd1 = nd_name nd"
    "stored c (final_of ?cordon s) (nd_name nd1) = Some nd1"
    using cordon_exact [OF assms(1,2)] by auto
  obtain nd2 where nd2: "result_of (flipDeployGatesOff p nd1) (final_of ?cordon s) = (None, nd2)" "nd_name nd2 = nd_name nd"
    using flip_exact [OF nd1(3)] nd1(2) by auto
  let ?f = "dd_force (du_drain (dv_upgrade (dp_spec cr)))"
  let ?pass1 = "evictMatching p (dp_name cr) (nd_name nd) ?f PodUsesTenstorrentDevice DrainPass1"
  let ?pass2 = "if fullNodeDrainEnabledForCR cr then evictMatching p (dp_name cr) (nd_name nd) ?f flt DrainPass2
    else State_Monad.return ()"
  let ?t = "final_of (flipDeployGatesOff p nd1) (final_of ?cordon s)"
  have run: "final_of (prepare_node p cr flt nd) s = final_of ?pass2 (final_of ?pass1 ?t)"
    by (simp add: prepare_node_def Let_def nd1(1) nd2)
  have rest: "issues (\<lambda>_. True) ?pass2" by (intro frame_rules issues_evictMatching; simp)
  from assms(4) show ?thesis
    unfolding drained_pod_def
  proof
    assume "drainable (nd_name nd) (operatorNamespace p) ?f (Some PodUsesTenstorrentDevice) pd"
    with evictMatching_sent [OF assms(3)] show ?thesis unfolding run using keeps_history [OF rest] by blast
  qed (use evictMatching_sent [OF assms(3)] in \<open>simp add: run\<close>)
qed

text \<open>A loop over the nodes of a listing that pass a test.\<close>

lemma each_listed:
  assumes "\<And>nd s. stored c s (nd_name nd) = Some nd \<Longrightarrow>
      \<exists>nd'. stored c (final_of (f nd) s) = (stored c s)(nd_name nd \<mapsto> nd') \<and> R nd nd'"
    "distinct (map nd_name (cl_nodes c))" "stored c s n = Some nd"
  shows "\<exists>nd'. stored c (final_of (each f (filter P (cl_nodes (replay c (hist s))))) s) n = Some nd' \<and>
    (if P nd then R nd nd' else nd' = nd)"
proof -
  let ?all = "cl_nodes (replay c (hist s))"
  have dist: "distinct (map nd_name ?all)" using assms(2) by simp
  have cur: "\<forall>nd \<in> set (filter P ?all). stored c s (nd_name nd) = Some nd"
    using node_of_distinct [OF dist] by simp
  have "distinct (map nd_name (filter P ?all))" by (rule distinct_map_filter [OF dist])
  from each_nodes [where R = R and f = f, OF assms(1) this cur]
  have each: "\<And>m. m \<in> set (filter P ?all) \<Longrightarrow> \<exists>nd'. stored c (final_of (each f (filter P ?all)) s) (nd_name m) = Some nd' \<and> R m nd'"
    "\<And>m. m \<notin> nd_name ` set (filter P ?all) \<Longrightarrow> stored c (final_of (each f (filter P ?all)) s) m = stored c s m"
    by blast+
  have nd: "nd \<in> set ?all" "nd_name nd = n" using assms(3) node_of_mem node_of_name by auto
  show ?thesis
  proof (cases "P nd")
    case True
    then show ?thesis using each(1) [of nd] nd by auto
  next
    case False
    have "n \<notin> nd_name ` set (filter P ?all)"
    proof
      assume "n \<in> nd_name ` set (filter P ?all)"
      then obtain m where m: "m \<in> set (filter P ?all)" "nd_name m = n" by auto
      then have "m = nd" using cur assms(3) by auto
      with False m(1) show False by simp
    qed
    from each(2) [OF this] show ?thesis using False assms(3) by simp
  qed
qed

lemma each_prepare_evicts:
  assumes "dp_name cr \<noteq> []" "pd \<in> set (cl_pods c)"
    "distinct (map nd_name nodes)" "\<forall>nd \<in> set nodes. stored c s (nd_name nd) = Some nd"
    "nd \<in> set nodes" "drained_pod p cr flt (nd_name nd) pd"
  shows "\<exists>e. CEvict (pd_ns pd) (pd_name pd) e \<in> set (hist (final_of (each (prepare_node p cr flt) nodes) s))"
  using assms(3-)
proof (induction nodes arbitrary: s)
  case (Cons m nodes)
  let ?t = "final_of (prepare_node p cr flt m) s"
  obtain m' where m': "stored c ?t = (stored c s)(nd_name m \<mapsto> m')"
    using prepare_exact [of s m cr flt] Cons.prems(2) assms(1) by (meson list.set_intros(1))
  have rest: "issues (\<lambda>_. True) (each (prepare_node p cr flt) nodes)" by (intro issue.each prepare_node_any)
  show ?case
  proof (cases "nd = m")
    case True
    then obtain e where "CEvict (pd_ns pd) (pd_name pd) e \<in> set (hist ?t)"
      using prepare_node_evicts [of s m cr pd flt] Cons.prems(2,4) assms(1,2) by (meson list.set_intros(1))
    from keeps_history [OF rest this] show ?thesis by auto
  next
    case False
    have "\<forall>nd \<in> set nodes. stored c ?t (nd_name nd) = Some nd"
      using Cons.prems(1,2) m' by (auto simp: image_iff)
    with Cons False show ?thesis by simp
  qed
qed simp

lemma listMatched_result:
  assumes "lib_selector (pf_lib p) (DriverEffectiveNodeAffinity (dp_spec cr)) = Inr sel"
  shows "result_of (listMatchedNodes p cr) s =
    Inr (filter (\<lambda>nd. driver_matches p sel (nd_labels nd)) (cl_nodes (replay c (hist s))))"
  using assms by (simp add: listMatchedNodes_def list_nodes_def lists_nodes filter_driver_matched_eq)

text \<open>The whole drain before the upgrade.\<close>

lemma prepareUpgrade_effect:
  assumes "lib_selector (pf_lib p) (DriverEffectiveNodeAffinity (dp_spec cr)) = Inr sel"
    "buildFullNodeDrainFilter p cr = Inr flt" "dp_name cr \<noteq> []" "distinct (map nd_name (cl_nodes c))"
  shows "result_of (prepareUpgrade p cr) s = None"
    "stored c s n = Some nd \<Longrightarrow> \<exists>nd'. stored c (final_of (prepareUpgrade p cr) s) n = Some nd' \<and>
       (if driver_matches p sel (nd_labels nd) then closed_from p (dp_name cr) nd nd' else nd' = nd)"
    "stored c s n = Some nd \<Longrightarrow> driver_matches p sel (nd_labels nd) \<Longrightarrow> pd \<in> set (cl_pods c) \<Longrightarrow>
     drained_pod p cr flt n pd \<Longrightarrow>
       \<exists>e. CEvict (pd_ns pd) (pd_name pd) e \<in> set (hist (final_of (prepareUpgrade p cr) s))"
proof -
  note list = listMatched_result [OF assms(1)]
  let ?s = "s\<lparr>hist := hist s @ [CListNodes]\<rparr>"
  let ?nodes = "filter (\<lambda>nd. driver_matches p sel (nd_labels nd)) (cl_nodes (replay c (hist ?s)))"
  have read: "final_of (listMatchedNodes p cr) s = ?s"
    using assms(1) by (simp add: listMatchedNodes_def list_nodes_def)
  have s: "stored c ?s = stored c s" by simp
  have run: "final_of (prepareUpgrade p cr) s = final_of (each (prepare_node p cr flt) ?nodes) ?s"
    by (simp add: prepareUpgrade_def list read assms(2))
  show "result_of (prepareUpgrade p cr) s = None" by (simp add: prepareUpgrade_def list read assms(2))
  show "\<exists>nd'. stored c (final_of (prepareUpgrade p cr) s) n = Some nd' \<and>
      (if driver_matches p sel (nd_labels nd) then closed_from p (dp_name cr) nd nd' else nd' = nd)"
    if nd: "stored c s n = Some nd"
  proof -
    have "stored c ?s n = Some nd" using nd s by simp
    from each_listed [where f = "prepare_node p cr flt" and R = "closed_from p (dp_name cr)"
        and P = "\<lambda>nd. driver_matches p sel (nd_labels nd)", OF prepare_exact [OF _ assms(3)] assms(4) this]
    show ?thesis unfolding run .
  qed
  show "\<exists>e. CEvict (pd_ns pd) (pd_name pd) e \<in> set (hist (final_of (prepareUpgrade p cr) s))"
    if nd: "stored c s n = Some nd" "driver_matches p sel (nd_labels nd)" and pd: "pd \<in> set (cl_pods c)"
      "drained_pod p cr flt n pd"
  proof -
    have dist: "distinct (map nd_name (cl_nodes (replay c (hist ?s))))" using assms(4) by simp
    have "nd \<in> set (cl_nodes (replay c (hist ?s)))" "nd_name nd = n"
      using nd(1) node_of_mem node_of_name by auto
    then show ?thesis
      unfolding run
      using each_prepare_evicts [OF assms(3) pd(1) distinct_map_filter [OF dist], of _ ?s nd flt]
        node_of_distinct [OF dist] nd(2) pd(2) by auto
  qed
qed

end

end
