(* ===== verification/UpgradeRounds.thy ===== *)
theory UpgradeRounds
  imports UpgradeLoop
begin

text \<open>
  One reconcile of a driver policy in the loop with the cluster: what it does to every node with and
  without drift of the template, and to the DaemonSet.
\<close>

section \<open>After the DaemonSet is in place\<close>

definition held_ready :: "platform \<Rightarrow> (labels \<Rightarrow> bool) \<Rightarrow> drv_policy \<Rightarrow> cluster \<Rightarrow> node \<Rightarrow> bool" where
  "held_ready p sel cr c nd \<longleftrightarrow> driver_matches p sel (nd_labels nd) \<and>
     sget (nd_annos nd) AnnoDriverCordonedBy = dp_name cr \<and>
     ready_at_target cr (builder_pods (operatorNamespace p) cr c) (nd_name nd)"

abbreviation label_patch :: "node \<Rightarrow> node \<Rightarrow> bool" where
  "label_patch \<equiv> node_patch {LabelKMDVersion} {} False"

text \<open>What follows the DaemonSet write: a node may lose its kmd-version label and is then opened when the
  policy holds it and its builder is ready.\<close>

definition concluded :: "platform \<Rightarrow> (labels \<Rightarrow> bool) \<Rightarrow> drv_policy \<Rightarrow> cluster \<Rightarrow> node \<Rightarrow> node \<Rightarrow> bool" where
  "concluded p sel cr c nd nd' \<longleftrightarrow> (\<exists>nd1. label_patch nd nd1 \<and>
     (if held_ready p sel cr c nd1 then opened_from p nd1 nd' else nd' = nd1))"

lemma finish_no_ds_write: "issues (\<lambda>x. \<not> ds_write x) (finish_driver p cr d m)"
  unfolding finish_driver_def
  by (intro frame_rules issues_updateStatus issues_cleanup issues_uncordonReadyNodes) simp_all

abbreviation desired_set :: "platform \<Rightarrow> drv_policy \<Rightarrow> daemonset" where
  "desired_set p cr \<equiv> buildDaemonSet p cr (driverDaemonSetName (dp_name cr))"

context driver_server begin

lemma keeps_spec: "status_keeps_spec p"
  unfolding status_keeps_spec_def
proof (intro allI impI)
  fix h cr cr' assume "srv_update_drv (pf_writes p) h cr = Inr cr'"
  then show "dp_name cr' = dp_name cr \<and> dp_spec cr' = dp_spec cr" using accepts_status [of h cr] by auto
qed

lemma updateStatus_result: "\<exists>cr'. result_of (updateStatus p cr ds m) s = (None, cr') \<and>
    dp_name cr' = dp_name cr \<and> dp_spec cr' = dp_spec cr"
proof -
  have "srv_update_drv (pf_writes p) h x \<noteq> Inl e" for h x e using accepts_status [of h x] by auto
  then have "fst (result_of (updateStatus p cr ds m) s) = None"
    by (simp add: updateStatus_def update_drv_status_def split_beta split: sum.split)
  with updateStatus_spec [OF keeps_spec, of cr ds m s] show ?thesis by (cases "result_of (updateStatus p cr ds m) s") auto
qed

lemma uncordonReady_effect:
  assumes "lib_selector (pf_lib p) (DriverEffectiveNodeAffinity (dp_spec cr)) = Inr sel"
    "distinct (map nd_name (cl_nodes c))" "stored c s n = Some nd"
  shows "\<exists>nd'. stored c (final_of (uncordonReadyNodes p cr (Some ds)) s) n = Some nd' \<and>
    (if held_ready p sel cr c nd then opened_from p nd nd' else nd' = nd)"
proof -
  let ?pods = "builder_pods (operatorNamespace p) cr c"
  let ?s1 = "s\<lparr>hist := hist s @ [CListNodes]\<rparr>"
  let ?s = "?s1\<lparr>hist := hist ?s1 @ [CListPods (Some (operatorNamespace p)) [(''driver.tenstorrent.com/cr'', dp_name cr)]]\<rparr>"
  let ?P = "\<lambda>nd. driver_matches p sel (nd_labels nd)"
  have read: "final_of (listMatchedNodes p cr) s = ?s1"
    using assms(1) by (simp add: listMatchedNodes_def list_nodes_def)
  have pods: "result_of (installer_pods p cr) ?s1 = Inr ?pods" "final_of (installer_pods p cr) ?s1 = ?s"
    by (simp_all add: installer_pods_def list_pods_def lists_owned builder_pods_def conj_commute)
  have run: "final_of (uncordonReadyNodes p cr (Some ds)) s =
      final_of (each (uncordon_node p cr ?pods) (filter ?P (cl_nodes (replay c (hist ?s))))) ?s"
    using pods by (simp add: uncordonReadyNodes_def listMatched_result [OF assms(1)] read)
  have cur: "stored c ?s n = Some nd" using assms(3) by simp
  from each_listed [where P = ?P and f = "uncordon_node p cr ?pods" and
      R = "\<lambda>nd nd'. if sget (nd_annos nd) AnnoDriverCordonedBy = dp_name cr \<and> ready_at_target cr ?pods (nd_name nd)
        then opened_from p nd nd' else nd' = nd", OF uncordon_exact assms(2) cur]
  show ?thesis unfolding run by (auto simp: held_ready_def split: if_splits)
qed

lemma finish_effect:
  assumes "lib_selector (pf_lib p) (DriverEffectiveNodeAffinity (dp_spec cr)) = Inr sel"
    "distinct (map nd_name (cl_nodes c))" "drainEnabledForCR cr" "stored c s n = Some nd"
  shows "\<exists>nd'. stored c (final_of (finish_driver p cr ds m) s) n = Some nd' \<and> concluded p sel cr c nd nd'"
proof -
  obtain cr' where cr': "result_of (updateStatus p cr (Some ds) m) s = (None, cr')"
    "dp_name cr' = dp_name cr" "dp_spec cr' = dp_spec cr"
    using updateStatus_result by blast
  let ?pre = "do {
      ce \<leftarrow> cleanupKMDVersionLabels p cr';
      (case ce of None \<Rightarrow> State_Monad.return () | Some _ \<Rightarrow> inc_driver_error (dp_name cr') ''cleanup_kmd_version_labels'');
      ke \<leftarrow> recordKMDVersionMetrics p;
      (case ke of None \<Rightarrow> State_Monad.return () | Some _ \<Rightarrow> inc_driver_error (dp_name cr') ''record_kmd_version_metrics'')
    }"
  let ?post = "\<lambda>une. do {
      (case une of None \<Rightarrow> State_Monad.return () | Some _ \<Rightarrow> inc_driver_error (dp_name cr') ''uncordon_ready_nodes'');
      DriverReconcileSucceeded p (dp_name cr')
    }"
  let ?s1 = "final_of (updateStatus p cr (Some ds) m) s"
  let ?s2 = "final_of ?pre ?s1"
  let ?open = "uncordonReadyNodes p cr (Some ds)"
  have drain: "drainEnabledForCR cr'" using assms(3) cr'(3) by (simp add: drainEnabledForCR_def)
  have run: "final_of (finish_driver p cr ds m) s = final_of (?post (result_of ?open ?s2)) (final_of ?open ?s2)"
    using cr'(1) drain by (simp add: finish_driver_def uncordonReadyNodes_cong [OF cr'(2,3)])
  have "issues quiet (updateStatus p cr (Some ds) m)" by (rule issues_updateStatus) simp_all
  then have cur: "stored c ?s1 n = Some nd" using assms(4) by (simp add: quiet_stored)
  have pre: "issues (within {LabelKMDVersion} {} False) ?pre"
    by (intro frame_rules issues_cleanup) simp_all
  obtain nd1 where nd1: "stored c ?s2 n = Some nd1" "label_patch nd nd1"
    using within_issued [OF keepsD [OF pre] cur] by blast
  have post: "stored c (final_of (?post une) t) = stored c t" for une :: "err option" and t
    by (rule quiet_stored) (intro frame_rules; simp)
  show ?thesis
    unfolding run post concluded_def using uncordonReady_effect [OF assms(1,2) nd1(1)] nd1(2) by blast
qed

section \<open>With and without drift\<close>

lemma reconcile_run:
  assumes "lib_selector (pf_lib p) (DriverEffectiveNodeAffinity (dp_spec cr)) = Inr sel"
    "list_all read_call (hist s)"
    "find_set sets (operatorNamespace p) (driverDaemonSetName (dp_name cr)) = Some d"
  obtains m s1 where "list_all read_call (hist s1)"
    "final_of (reconcile_driver p cr) s =
       (case result_of (sync_existing p cr d (desired_set p cr)) s1 of
          Inl e \<Rightarrow> final_of (sync_existing p cr d (desired_set p cr)) s1
        | Inr d' \<Rightarrow> final_of (finish_driver p cr d' m) (final_of (sync_existing p cr d (desired_set p cr)) s1))"
proof -
  let ?s1 = "s\<lparr>hist := (hist s @ [CListNodes]) @
    [CGetDS (operatorNamespace p) (driverDaemonSetName (dp_name cr))]\<rparr>"
  obtain m where m: "result_of (countMatchedNodes p cr) s = Inr m" "final_of (countMatchedNodes p cr) s = s\<lparr>hist := hist s @ [CListNodes]\<rparr>"
    using assms(1) by (simp add: countMatchedNodes_def list_nodes_def lists_nodes)
  have "replay_sets sets h = sets" if "list_all read_call h" for h
    using that by (intro replay_no_write) (auto simp: list_all_iff elim!: ds_write.elims)
  then have "srv_get_ds (pf_reads p) (hist s @ [CListNodes]) (operatorNamespace p) (driverDaemonSetName (dp_name cr)) = Inr d"
    using assms(2,3) by (intro gets_set) simp
  then show thesis
    using assms(2) by (intro that [of ?s1 m]) (simp_all add: reconcile_driver_def m get_ds_def Let_def split: sum.split)
qed

lemma settled_effect:
  assumes "lib_selector (pf_lib p) (DriverEffectiveNodeAffinity (dp_spec cr)) = Inr sel"
    "list_all read_call (hist s)" "distinct (map nd_name (cl_nodes c))" "drainEnabledForCR cr"
    "find_set sets (operatorNamespace p) (driverDaemonSetName (dp_name cr)) = Some d"
    "\<not> daemonSetNeedsUpdate d (desired_set p cr)"
  shows "replay_sets sets (hist (final_of (reconcile_driver p cr) s)) = sets"
    "node_of c n = Some nd \<Longrightarrow>
      \<exists>nd'. stored c (final_of (reconcile_driver p cr) s) n = Some nd' \<and> concluded p sel cr c nd nd'"
proof -
  obtain m s1 where s1: "list_all read_call (hist s1)"
    "final_of (reconcile_driver p cr) s =
       (case result_of (sync_existing p cr d (desired_set p cr)) s1 of
          Inl e \<Rightarrow> final_of (sync_existing p cr d (desired_set p cr)) s1
        | Inr d' \<Rightarrow> final_of (finish_driver p cr d' m) (final_of (sync_existing p cr d (desired_set p cr)) s1))"
    by (rule reconcile_run [OF assms(1,2,5)])
  then have run: "final_of (reconcile_driver p cr) s = final_of (finish_driver p cr d m) s1"
    using assms(6) by (simp add: sync_existing_def)
  obtain cs where "hist (final_of (finish_driver p cr d m) s1) = hist s1 @ cs" "list_all (\<lambda>x. \<not> ds_write x) cs"
    using issuesD [OF finish_no_ds_write] by blast
  moreover have "list_all (\<lambda>x. \<not> ds_write x) (hist s1)"
    using s1(1) by (auto simp: list_all_iff elim!: ds_write.elims)
  ultimately show "replay_sets sets (hist (final_of (reconcile_driver p cr) s)) = sets"
    by (simp add: run replay_no_write)
  show "\<exists>nd'. stored c (final_of (reconcile_driver p cr) s) n = Some nd' \<and> concluded p sel cr c nd nd'"
    if "node_of c n = Some nd"
    using finish_effect [OF assms(1,3,4), of s1 n nd d m] that s1(1) by (simp add: run replay_reads)
qed

text \<open>With drift: the history splits at the update of the template; before it the matched nodes are closed
  and their pods asked to leave, after it comes what a reconcile without drift does.\<close>

lemma drift_effect:
  assumes "lib_selector (pf_lib p) (DriverEffectiveNodeAffinity (dp_spec cr)) = Inr sel"
    "list_all read_call (hist s)" "distinct (map nd_name (cl_nodes c))" "drainEnabledForCR cr"
    "find_set sets (operatorNamespace p) (driverDaemonSetName (dp_name cr)) = Some d"
    "daemonSetNeedsUpdate d (desired_set p cr)" "\<not> dv_paused (dp_spec cr)"
    "buildFullNodeDrainFilter p cr = Inr flt" "dp_name cr \<noteq> []"
  obtains h1 h2 where
    "hist (final_of (reconcile_driver p cr) s) = h1 @ CUpdateDS (apply_template d (desired_set p cr)) None # h2"
    "list_all (\<lambda>x. \<not> ds_write x) h1" "list_all (\<lambda>x. \<not> ds_write x) h2"
    "\<And>n nd. node_of c n = Some nd \<Longrightarrow> \<exists>nd1 nd'. node_of (replay c h1) n = Some nd1 \<and>
       (if driver_matches p sel (nd_labels nd) then closed_from p (dp_name cr) nd nd1 else nd1 = nd) \<and>
       stored c (final_of (reconcile_driver p cr) s) n = Some nd' \<and> concluded p sel cr c nd1 nd'"
    "\<And>n nd pd. node_of c n = Some nd \<Longrightarrow> driver_matches p sel (nd_labels nd) \<Longrightarrow> pd \<in> set (cl_pods c) \<Longrightarrow>
       drained_pod p cr flt n pd \<Longrightarrow> \<exists>e. CEvict (pd_ns pd) (pd_name pd) e \<in> set h1"
proof -
  let ?d = "apply_template d (desired_set p cr)"
  obtain m s1 where s1: "list_all read_call (hist s1)"
    "final_of (reconcile_driver p cr) s =
       (case result_of (sync_existing p cr d (desired_set p cr)) s1 of
          Inl e \<Rightarrow> final_of (sync_existing p cr d (desired_set p cr)) s1
        | Inr d' \<Rightarrow> final_of (finish_driver p cr d' m) (final_of (sync_existing p cr d (desired_set p cr)) s1))"
    by (rule reconcile_run [OF assms(1,2,5)])
  note prep = prepareUpgrade_effect [OF assms(1,8,9,3), where s = s1]
  let ?t = "final_of (prepareUpgrade p cr) s1"
  let ?u = "?t\<lparr>hist := hist ?t @ [CUpdateDS ?d None]\<rparr>"
  have reads: "replay c (hist s1) = c" "list_all (\<lambda>x. \<not> ds_write x) (hist s1)"
    using s1(1) by (auto simp: replay_reads list_all_iff elim!: ds_write.elims)
  obtain cs where cs: "hist ?t = hist s1 @ cs" "list_all (\<lambda>x. \<not> ds_write x) cs"
    using issuesD [OF prepare_no_ds_write] by blast
  then have quiet: "list_all (\<lambda>x. \<not> ds_write x) (hist ?t)" using reads(2) by simp
  have key: "dm_ns ?d = operatorNamespace p" "dm_name ?d = driverDaemonSetName (dp_name cr)"
    using assms(5) by (auto simp: apply_template_def find_set_def find_Some_iff)
  have upd: "srv_update_ds (pf_writes p) (hist ?t) ?d = Inr (?d\<lparr>dm_status := dm_status d\<rparr>)"
    by (rule updates_set) (simp add: key assms(5) replay_no_write [OF quiet])
  let ?v = "?u\<lparr>mops := mops ?u @ [MInc DriverDaemonSetOperations [dp_name cr, OperationUpdate, ResultSuccess]]\<rparr>"
  have "result_of (sync_existing p cr d (desired_set p cr)) s1 = Inr (?d\<lparr>dm_status := dm_status d\<rparr>)"
    "final_of (sync_existing p cr d (desired_set p cr)) s1 = ?v"
    using assms(4,6,7) prep(1) by (simp_all add: sync_existing_def update_ds_def upd)
  then have run: "final_of (reconcile_driver p cr) s = final_of (finish_driver p cr (?d\<lparr>dm_status := dm_status d\<rparr>) m) ?v"
    by (simp add: s1(2))
  obtain h2 where h2: "hist (final_of (reconcile_driver p cr) s) = hist ?v @ h2" "list_all (\<lambda>x. \<not> ds_write x) h2"
    using issuesD [OF finish_no_ds_write] unfolding run by blast
  show thesis
  proof (rule that [of "hist ?t" h2])
    show "hist (final_of (reconcile_driver p cr) s) = hist ?t @ CUpdateDS ?d None # h2" using h2(1) by simp
    show "\<exists>nd1 nd'. node_of (replay c (hist ?t)) n = Some nd1 \<and>
       (if driver_matches p sel (nd_labels nd) then closed_from p (dp_name cr) nd nd1 else nd1 = nd) \<and>
       stored c (final_of (reconcile_driver p cr) s) n = Some nd' \<and> concluded p sel cr c nd1 nd'"
      if nd: "node_of c n = Some nd" for n nd
    proof -
      obtain nd1 where nd1: "stored c ?t n = Some nd1"
        "if driver_matches p sel (nd_labels nd) then closed_from p (dp_name cr) nd nd1 else nd1 = nd"
        using prep(2) [of n nd] nd reads(1) by auto
      then have "stored c ?v n = Some nd1" by simp
      from finish_effect [OF assms(1,3,4) this, where ds = "?d\<lparr>dm_status := dm_status d\<rparr>" and m = m] nd1
      show ?thesis unfolding run by blast
    qed
    show "\<exists>e. CEvict (pd_ns pd) (pd_name pd) e \<in> set (hist ?t)"
      if "node_of c n = Some nd" "driver_matches p sel (nd_labels nd)" "pd \<in> set (cl_pods c)" "drained_pod p cr flt n pd"
      for n nd pd
      using prep(3) [of n nd pd] that reads(1) by simp
  qed (use quiet h2(2) in simp_all)
qed

end

end
