(* ===== verification/UpgradeCycle.thy ===== *)
theory UpgradeCycle
  imports UpgradeRounds
begin

text \<open>
  A whole upgrade of the kernel module on servers that do not fail: the reconcile that finds the drift,
  further reconciles, and an environment that in between moves pods, reports the state of the DaemonSet
  and lets the builders label the nodes. The nodes are closed when the template changes, stay so until
  their builder is ready, and are then as they were before, up to the builders' labels.
\<close>

section \<open>The policy and its nodes\<close>

text \<open>The policy is not paused, drains, and its selectors parse.\<close>

definition upgradable :: "platform \<Rightarrow> drv_policy \<Rightarrow> (labels \<Rightarrow> bool) \<Rightarrow> pod_filter \<Rightarrow> bool" where
  "upgradable p cr sel flt \<longleftrightarrow> dp_name cr \<noteq> [] \<and> \<not> dv_paused (dp_spec cr) \<and> drainEnabledForCR cr \<and>
     lib_selector (pf_lib p) (DriverEffectiveNodeAffinity (dp_spec cr)) = Inr sel \<and>
     buildFullNodeDrainFilter p cr = Inr flt"

text \<open>The labels that the builder on a node patches (\<open>images/driver-build/entrypoint.sh\<close>); the controller removes
  the kmd-version label again.\<close>

definition builder_labels :: "string set" where
  "builder_labels = {LabelInstallMode, LabelKMDVersion, LabelSMIVersion}"

text \<open>The choice of nodes does not look at the labels in \<open>L\<close>, nor at the deploy gates.\<close>

definition blind_upto :: "string set \<Rightarrow> platform \<Rightarrow> (labels \<Rightarrow> bool) \<Rightarrow> bool" where
  "blind_upto L p sel \<longleftrightarrow> (\<forall>l l'. (\<forall>k. k \<notin> L \<union> set (driverDeployGates p) \<longrightarrow> l k = l' k) \<longrightarrow>
     driver_matches p sel l = driver_matches p sel l')"

text \<open>Closed and opened, up to the labels in \<open>L\<close>.\<close>

definition closed_upto :: "string set \<Rightarrow> platform \<Rightarrow> string \<Rightarrow> node \<Rightarrow> node \<Rightarrow> bool" where
  "closed_upto L p y nd nd' \<longleftrightarrow> nd_name nd' = nd_name nd \<and> nd_unsched nd' \<and> nd_annos nd' AnnoDriverCordonedBy = Some y \<and>
     (\<forall>k. k \<noteq> AnnoDriverCordonedBy \<longrightarrow> k \<noteq> AnnoDriverCordonedAt \<longrightarrow> nd_annos nd' k = nd_annos nd k) \<and>
     (\<forall>k. k \<notin> L \<longrightarrow>
        nd_labels nd' k = (if k \<in> set (driverDeployGates p) then Some ''false'' else nd_labels nd k))"

definition open_upto :: "string set \<Rightarrow> platform \<Rightarrow> node \<Rightarrow> node \<Rightarrow> bool" where
  "open_upto L p nd nd' \<longleftrightarrow> nd_name nd' = nd_name nd \<and> \<not> nd_unsched nd' \<and>
     nd_annos nd' AnnoDriverCordonedBy = None \<and> nd_annos nd' AnnoDriverCordonedAt = None \<and>
     (\<forall>k. k \<noteq> AnnoDriverCordonedBy \<longrightarrow> k \<noteq> AnnoDriverCordonedAt \<longrightarrow> nd_annos nd' k = nd_annos nd k) \<and>
     (\<forall>k. k \<notin> L \<longrightarrow>
        nd_labels nd' k = (if k \<in> set (driverDeployGates p) then None else nd_labels nd k))"

text \<open>The same when only the controller writes, which removes the kmd-version label.\<close>

abbreviation label_blind :: "platform \<Rightarrow> (labels \<Rightarrow> bool) \<Rightarrow> bool" where
  "label_blind \<equiv> blind_upto {LabelKMDVersion}"

abbreviation open_as :: "platform \<Rightarrow> node \<Rightarrow> node \<Rightarrow> bool" where
  "open_as \<equiv> open_upto {LabelKMDVersion}"

lemmas node_rel_defs = closed_upto_def open_upto_def closed_from_def opened_from_def node_patch_def

lemma matches_blind:
  assumes "blind_upto L p sel" "closed_upto L p y nd nd' \<or> open_upto L p nd nd' \<or> node_patch L {} False nd nd'"
  shows "driver_matches p sel (nd_labels nd') = driver_matches p sel (nd_labels nd)"
proof -
  have "nd_labels nd' k = nd_labels nd k" if "k \<notin> L \<union> set (driverDeployGates p)" for k
    using assms(2) that by (auto simp: node_rel_defs)
  then show ?thesis using assms(1) unfolding blind_upto_def by blast
qed

lemma concluded_name: "concluded p sel cr c nd nd' \<Longrightarrow> nd_name nd' = nd_name nd"
  by (auto simp: concluded_def opened_from_def node_patch_def split: if_splits)

lemma label_patch_upto: "LabelKMDVersion \<in> L \<Longrightarrow> label_patch nd nd' \<Longrightarrow> node_patch L {} False nd nd'"
  by (erule node_patch_mono) simp_all

text \<open>A label patch keeps the three relations.\<close>

lemma upto_patch:
  assumes "node_patch L {} False nd1 nd2"
  shows "closed_upto L p y nd nd1 \<Longrightarrow> closed_upto L p y nd nd2" "open_upto L p nd nd1 \<Longrightarrow> open_upto L p nd nd2"
  using assms by (auto simp: node_rel_defs)

text \<open>What the end of a reconcile does to a closed, an open and a foreign node.\<close>

lemma concluded_closed:
  assumes "closed_upto L p (dp_name cr) nd nd1" "concluded p sel cr c nd1 nd2" "blind_upto L p sel"
    "driver_matches p sel (nd_labels nd)" "LabelKMDVersion \<in> L"
  shows "if ready_at_target cr (builder_pods (operatorNamespace p) cr c) (nd_name nd)
    then open_upto L p nd nd2 else closed_upto L p (dp_name cr) nd nd2"
proof -
  obtain x where x: "label_patch nd1 x" "if held_ready p sel cr c x then opened_from p x nd2 else nd2 = x"
    using assms(2) by (auto simp: concluded_def)
  have nd1: "closed_upto L p (dp_name cr) nd x" by (rule upto_patch(1) [OF label_patch_upto [OF assms(5) x(1)] assms(1)])
  then have "driver_matches p sel (nd_labels x)" "sget (nd_annos x) AnnoDriverCordonedBy = dp_name cr" "nd_name x = nd_name nd"
    using matches_blind [OF assms(3)] assms(4) by (auto simp: closed_upto_def sget_def)
  then have "held_ready p sel cr c x \<longleftrightarrow> ready_at_target cr (builder_pods (operatorNamespace p) cr c) (nd_name nd)"
    by (simp add: held_ready_def)
  moreover have "opened_from p x nd2 \<Longrightarrow> open_upto L p nd nd2" using nd1 by (auto simp: node_rel_defs)
  ultimately show ?thesis using x(2) nd1 by auto
qed

lemma concluded_open:
  assumes "open_upto L p nd nd1" "concluded p sel cr c nd1 nd2" "dp_name cr \<noteq> []" "LabelKMDVersion \<in> L"
  shows "open_upto L p nd nd2"
proof -
  obtain x where x: "label_patch nd1 x" "if held_ready p sel cr c x then opened_from p x nd2 else nd2 = x"
    using assms(2) by (auto simp: concluded_def)
  have nd1: "open_upto L p nd x" by (rule upto_patch(2) [OF label_patch_upto [OF assms(4) x(1)] assms(1)])
  then have "\<not> held_ready p sel cr c x" using assms(3) by (auto simp: held_ready_def open_upto_def sget_def)
  with x nd1 show ?thesis by simp
qed

lemma concluded_unmatched:
  assumes "node_patch L {} False nd nd1" "concluded p sel cr c nd1 nd2" "blind_upto L p sel"
    "\<not> driver_matches p sel (nd_labels nd)" "LabelKMDVersion \<in> L"
  shows "node_patch L {} False nd nd2"
proof -
  obtain x where x: "label_patch nd1 x" "if held_ready p sel cr c x then opened_from p x nd2 else nd2 = x"
    using assms(2) by (auto simp: concluded_def)
  have nd1: "node_patch L {} False nd x" by (rule node_patch_trans [OF assms(1) label_patch_upto [OF assms(5) x(1)]])
  then have "\<not> held_ready p sel cr c x" using matches_blind [OF assms(3)] assms(4) by (auto simp: held_ready_def)
  with x nd1 show ?thesis by simp
qed

text \<open>A node that was open and carried no mark of the driver.\<close>

definition free_node :: "platform \<Rightarrow> node \<Rightarrow> bool" where
  "free_node p nd \<longleftrightarrow> \<not> nd_unsched nd \<and> nd_annos nd AnnoDriverCordonedBy = None \<and>
     nd_annos nd AnnoDriverCordonedAt = None \<and> (\<forall>k \<in> set (driverDeployGates p). nd_labels nd k = None)"

lemma free_restored: "free_node p nd \<Longrightarrow> open_upto L p nd nd' \<Longrightarrow> node_patch L {} False nd nd'"
  by (auto simp: free_node_def open_upto_def node_patch_def) (metis (full_types))+

section \<open>When the template changes\<close>

lemma DriverReconcile_run:
  assumes "hist s = []" "srv_get_drv (pf_reads p) [] name = Inr cr" "dp_deleted cr = None"
  obtains s1 where "list_all read_call (hist s1)" "final_of (DriverReconcile p name) s = final_of (reconcile_driver p cr) s1"
  using that [of "s\<lparr>hist := hist s @ [CGetDrv name]\<rparr>"] assms by (simp add: DriverReconcile_def get_drv_def)

text \<open>C8: When no call of the reconcile fails, for a policy that is not paused, has drain enabled and a drain
  filter that parses, the template of the builder DaemonSet is updated exactly once on drift, and only once
  every matched node is closed, that is unschedulable, annotated with the policy and with every deploy gate
  at \<open>"false"\<close>, and after each pod that one of the two drain passes selects was asked to leave. (With drain
  disabled, or a filter that does not parse, the template is updated with every node open.)\<close>

theorem template_changes_on_closed_nodes:
  assumes "driver_server p c sets" "hist s = []" "srv_get_drv (pf_reads p) [] name = Inr cr" "dp_deleted cr = None"
    "upgradable p cr sel flt" "distinct (map nd_name (cl_nodes c))"
    "find_set sets (operatorNamespace p) (driverDaemonSetName (dp_name cr)) = Some d"
    "daemonSetNeedsUpdate d (desired_set p cr)"
  shows "\<exists>h1 h2. hist (final_of (DriverReconcile p name) s) =
      h1 @ CUpdateDS (apply_template d (desired_set p cr)) None # h2 \<and>
    list_all (\<lambda>x. \<not> ds_write x) (h1 @ h2) \<and>
    (\<forall>nd \<in> set (cl_nodes c). driver_matches p sel (nd_labels nd) \<longrightarrow>
      (\<exists>nd'. node_of (replay c h1) (nd_name nd) = Some nd' \<and> closed_from p (dp_name cr) nd nd') \<and>
      (\<forall>pd \<in> set (cl_pods c). drained_pod p cr flt (nd_name nd) pd \<longrightarrow>
         (\<exists>e. CEvict (pd_ns pd) (pd_name pd) e \<in> set h1)))"
proof -
  obtain s1 where s1: "list_all read_call (hist s1)" "final_of (DriverReconcile p name) s = final_of (reconcile_driver p cr) s1"
    by (rule DriverReconcile_run [OF assms(2-4)])
  have up: "lib_selector (pf_lib p) (DriverEffectiveNodeAffinity (dp_spec cr)) = Inr sel" "drainEnabledForCR cr"
    "\<not> dv_paused (dp_spec cr)" "buildFullNodeDrainFilter p cr = Inr flt" "dp_name cr \<noteq> []"
    using assms(5) by (simp_all add: upgradable_def)
  obtain h1 h2 where h:
    "hist (final_of (reconcile_driver p cr) s1) = h1 @ CUpdateDS (apply_template d (desired_set p cr)) None # h2"
    "list_all (\<lambda>x. \<not> ds_write x) h1" "list_all (\<lambda>x. \<not> ds_write x) h2"
    "\<And>n nd. node_of c n = Some nd \<Longrightarrow> \<exists>nd1 nd'. node_of (replay c h1) n = Some nd1 \<and>
       (if driver_matches p sel (nd_labels nd) then closed_from p (dp_name cr) nd nd1 else nd1 = nd) \<and>
       stored c (final_of (reconcile_driver p cr) s1) n = Some nd' \<and> concluded p sel cr c nd1 nd'"
    "\<And>n nd pd. node_of c n = Some nd \<Longrightarrow> driver_matches p sel (nd_labels nd) \<Longrightarrow> pd \<in> set (cl_pods c) \<Longrightarrow>
       drained_pod p cr flt n pd \<Longrightarrow> \<exists>e. CEvict (pd_ns pd) (pd_name pd) e \<in> set h1"
    by (rule driver_server.drift_effect [OF assms(1) up(1) s1(1) assms(6) up(2) assms(7,8) up(3-5)]) blast
  have "(\<exists>nd'. node_of (replay c h1) (nd_name nd) = Some nd' \<and> closed_from p (dp_name cr) nd nd') \<and>
      (\<forall>pd \<in> set (cl_pods c). drained_pod p cr flt (nd_name nd) pd \<longrightarrow>
         (\<exists>e. CEvict (pd_ns pd) (pd_name pd) e \<in> set h1))"
    if "nd \<in> set (cl_nodes c)" "driver_matches p sel (nd_labels nd)" for nd
    using h(4,5) [OF node_of_distinct [OF assms(6) that(1)]] that(2) by auto
  then show ?thesis
    unfolding s1(2) using h(1-3) by (intro exI [of _ h1] exI [of _ h2]) simp
qed

lemma closed_from_as: "closed_from p y nd nd' \<Longrightarrow> closed_upto L p y nd nd'"
  by (simp add: closed_upto_def closed_from_def)

text \<open>A drift of the template while the builder is ready at the version of the policy.\<close>

lemma drift_reopens:
  assumes "driver_server p c sets" "hist s = []" "srv_get_drv (pf_reads p) [] name = Inr cr" "dp_deleted cr = None"
    "upgradable p cr sel flt" "label_blind p sel" "distinct (map nd_name (cl_nodes c))"
    "find_set sets (operatorNamespace p) (driverDaemonSetName (dp_name cr)) = Some d"
    "daemonSetNeedsUpdate d (desired_set p cr)" "nd \<in> set (cl_nodes c)" "driver_matches p sel (nd_labels nd)"
    "ready_at_target cr (builder_pods (operatorNamespace p) cr c) (nd_name nd)"
  obtains h1 h2 nd1 nd' where "hist (final_of (DriverReconcile p name) s) =
      h1 @ CUpdateDS (apply_template d (desired_set p cr)) None # h2"
    "node_of (replay c h1) (nd_name nd) = Some nd1" "closed_from p (dp_name cr) nd nd1"
    "node_of (replay c (hist (final_of (DriverReconcile p name) s))) (nd_name nd) = Some nd'" "open_as p nd nd'"
proof -
  obtain s1 where s1: "list_all read_call (hist s1)" "final_of (DriverReconcile p name) s = final_of (reconcile_driver p cr) s1"
    by (rule DriverReconcile_run [OF assms(2-4)])
  have up: "lib_selector (pf_lib p) (DriverEffectiveNodeAffinity (dp_spec cr)) = Inr sel" "drainEnabledForCR cr"
    "\<not> dv_paused (dp_spec cr)" "buildFullNodeDrainFilter p cr = Inr flt" "dp_name cr \<noteq> []"
    using assms(5) by (simp_all add: upgradable_def)
  obtain h1 h2 where h:
    "hist (final_of (reconcile_driver p cr) s1) = h1 @ CUpdateDS (apply_template d (desired_set p cr)) None # h2"
    "\<And>n nd. node_of c n = Some nd \<Longrightarrow> \<exists>nd1 nd'. node_of (replay c h1) n = Some nd1 \<and>
       (if driver_matches p sel (nd_labels nd) then closed_from p (dp_name cr) nd nd1 else nd1 = nd) \<and>
       stored c (final_of (reconcile_driver p cr) s1) n = Some nd' \<and> concluded p sel cr c nd1 nd'"
    by (rule driver_server.drift_effect [OF assms(1) up(1) s1(1) assms(7) up(2) assms(8,9) up(3-5)]) blast
  obtain nd1 nd' where nd: "node_of (replay c h1) (nd_name nd) = Some nd1" "closed_from p (dp_name cr) nd nd1"
    "stored c (final_of (reconcile_driver p cr) s1) (nd_name nd) = Some nd'" "concluded p sel cr c nd1 nd'"
    using h(2) [OF node_of_distinct [OF assms(7,10)]] assms(11) by auto
  have "open_as p nd nd'"
    using concluded_closed [OF closed_from_as [OF nd(2)] nd(4) assms(6,11)] assms(12) by simp
  with h(1) nd show thesis by (intro that [of h1 h2 nd1 nd']) (simp_all add: s1(2))
qed

text \<open>C36: A drift that leaves the version alone, of the builder image or the affinity for instance, closes and
  opens in one reconcile: the builder that is still running the old template is ready at the version of the
  policy, so the step that follows the update takes the node for upgraded. When the builder is about to be
  replaced the node accepts pods again, with the deploy gates gone.\<close>

theorem same_version_drift_reopens:
  assumes "driver_server p c sets" "hist s = []" "srv_get_drv (pf_reads p) [] name = Inr cr" "dp_deleted cr = None"
    "upgradable p cr sel flt" "label_blind p sel" "distinct (map nd_name (cl_nodes c))"
    "find_set sets (operatorNamespace p) (driverDaemonSetName (dp_name cr)) = Some d"
    "daemonSetNeedsUpdate d (desired_set p cr)" "nd \<in> set (cl_nodes c)" "driver_matches p sel (nd_labels nd)"
    "ready_at_target cr (builder_pods (operatorNamespace p) cr c) (nd_name nd)"
  shows "\<exists>h1 h2 nd1 nd'. hist (final_of (DriverReconcile p name) s) =
      h1 @ CUpdateDS (apply_template d (desired_set p cr)) None # h2 \<and>
    node_of (replay c h1) (nd_name nd) = Some nd1 \<and> nd_unsched nd1 \<and>
    node_of (replay c (hist (final_of (DriverReconcile p name) s))) (nd_name nd) = Some nd' \<and> \<not> nd_unsched nd' \<and>
    (\<forall>k \<in> set (driverDeployGates p). k = LabelKMDVersion \<or> nd_labels nd' k = None)"
proof -
  obtain h1 h2 nd1 nd' where "hist (final_of (DriverReconcile p name) s) =
      h1 @ CUpdateDS (apply_template d (desired_set p cr)) None # h2"
    "node_of (replay c h1) (nd_name nd) = Some nd1" "closed_from p (dp_name cr) nd nd1"
    "node_of (replay c (hist (final_of (DriverReconcile p name) s))) (nd_name nd) = Some nd'" "open_as p nd nd'"
    by (rule drift_reopens [OF assms])
  then show ?thesis
    by (intro exI [of _ h1] exI [of _ h2] exI [of _ nd1] exI [of _ nd']) (auto simp: open_upto_def closed_from_def)
qed

section \<open>Rounds\<close>

record world =
  wd_cluster :: cluster
  wd_sets :: "daemonset list"

definition run_world :: "world \<Rightarrow> call list \<Rightarrow> world" where
  "run_world w h = \<lparr>wd_cluster = replay (wd_cluster w) h, wd_sets = replay_sets (wd_sets w) h\<rparr>"

text \<open>The operator runs with one environment and one library throughout; the policy keeps its name and
  spec, while its status changes.\<close>

definition driver_round :: "platform \<Rightarrow> drv_policy \<Rightarrow> world \<Rightarrow> world \<Rightarrow> bool" where
  "driver_round q cr w w' \<longleftrightarrow> (\<exists>p s cr'. driver_server p (wd_cluster w) (wd_sets w) \<and>
     pf_env p = pf_env q \<and> pf_lib p = pf_lib q \<and> hist s = [] \<and>
     srv_get_drv (pf_reads p) [] (dp_name cr) = Inr cr' \<and> dp_name cr' = dp_name cr \<and> dp_spec cr' = dp_spec cr \<and>
     dp_deleted cr' = None \<and> w' = run_world w (hist (final_of (DriverReconcile p (dp_name cr)) s)))"

definition template_drift :: "platform \<Rightarrow> drv_policy \<Rightarrow> world \<Rightarrow> bool \<Rightarrow> bool" where
  "template_drift q cr w b \<longleftrightarrow> (\<exists>d. find_set (wd_sets w) (operatorNamespace q) (driverDaemonSetName (dp_name cr)) = Some d \<and>
     daemonSetNeedsUpdate d (desired_set q cr) = b)"

text \<open>The environment moves pods and Jobs, reports on DaemonSets without touching their annotations, and lets the
  builders patch their labels on the nodes.\<close>

definition upgrade_env :: "world \<Rightarrow> world \<Rightarrow> bool" where
  "upgrade_env w w' \<longleftrightarrow>
     list_all2 (node_patch builder_labels {} False) (cl_nodes (wd_cluster w)) (cl_nodes (wd_cluster w')) \<and>
     map (\<lambda>d. (dm_ns d, dm_name d, dm_annos d)) (wd_sets w') = map (\<lambda>d. (dm_ns d, dm_name d, dm_annos d)) (wd_sets w)"

inductive upgrade :: "platform \<Rightarrow> drv_policy \<Rightarrow> world \<Rightarrow> world \<Rightarrow> bool" for q cr w0 where
  start: "template_drift q cr w0 True \<Longrightarrow> driver_round q cr w0 w \<Longrightarrow> upgrade q cr w0 w"
| round: "upgrade q cr w0 w \<Longrightarrow> driver_round q cr w w' \<Longrightarrow> upgrade q cr w0 w'"
| env: "upgrade q cr w0 w \<Longrightarrow> upgrade_env w w' \<Longrightarrow> upgrade q cr w0 w'"

text \<open>The configuration is what the results depend on.\<close>

lemma config_same:
  assumes "pf_env p = pf_env q" "pf_lib p = pf_lib q" "dp_name cr' = dp_name cr" "dp_spec cr' = dp_spec cr"
  shows "operatorNamespace p = operatorNamespace q" "driverDeployGates p = driverDeployGates q"
    "upgradable p cr' = upgradable q cr" "blind_upto L p = blind_upto L q" "driver_matches p = driver_matches q"
    "daemonSetNeedsUpdate d (buildDaemonSet p cr' x) = daemonSetNeedsUpdate d (buildDaemonSet q cr x)"
    "builder_pods ns cr' = builder_pods ns cr" "concluded p sel cr' = concluded q sel cr"
    "closed_from p = closed_from q"
proof -
  show ns: "operatorNamespace p = operatorNamespace q" and gates: "driverDeployGates p = driverDeployGates q"
    by (simp_all add: operatorNamespace_def os_getenv_def driverDeployGates_def envSet_def assms)
  show m: "driver_matches p = driver_matches q"
    by (intro ext) (simp add: driver_matches_def requireTenstorrentLabel_def os_getenv_def assms)
  show "blind_upto L p = blind_upto L q" for L by (intro ext) (simp add: blind_upto_def gates m)
  show "upgradable p cr' = upgradable q cr"
    by (intro ext) (simp add: upgradable_def drainEnabledForCR_def buildFullNodeDrainFilter_def deleteEmptyDirForCR_def
        Let_def assms cong: if_cong)
  show "daemonSetNeedsUpdate d (buildDaemonSet p cr' x) = daemonSetNeedsUpdate d (buildDaemonSet q cr x)"
  proof -
    have env: "builder_env p cr' = builder_env q cr" by (simp add: builder_env_def os_getenv_def assms)
    have default: "envOrDefault p = envOrDefault q" by (intro ext) (simp add: envOrDefault_def os_getenv_def assms)
    then have image: "defaultDriverImage p = defaultDriverImage q" by (simp add: defaultDriverImage_def)
    have "driver_image p cr' = driver_image q cr" unfolding driver_image_def assms image ..
    then have "builder_pod p cr' = builder_pod q cr"
      by (simp add: builder_pod_def builder_container_def env default driver_node_term_def driver_pull_policy_def assms)
    then show ?thesis by (simp add: daemonSetNeedsUpdate_def buildDaemonSet_def computeDSTemplateHash_def Let_def assms)
  qed
  show b: "builder_pods ns cr' = builder_pods ns cr" for ns by (intro ext) (simp add: builder_pods_def assms)
  have "opened_from p = opened_from q" by (intro ext) (simp add: opened_from_def gates)
  moreover have "ready_at_target cr' = ready_at_target cr" by (intro ext) (simp add: ready_at_target_def assms)
  then have "held_ready p sel cr' = held_ready q sel cr" by (intro ext) (simp add: held_ready_def m ns b assms)
  ultimately show "concluded p sel cr' = concluded q sel cr" by (intro ext) (simp add: concluded_def)
  show "closed_from p = closed_from q" by (intro ext) (simp add: closed_from_def gates)
qed

text \<open>One round without drift: nothing but the end of a reconcile happens to the nodes.\<close>

lemma world_nodes: "node_of (wd_cluster (run_world w h)) n = node_of (replay (wd_cluster w) h) n"
  by (simp add: run_world_def)

lemma world_names: "driver_round q cr w w' \<Longrightarrow>
    map nd_name (cl_nodes (wd_cluster w')) = map nd_name (cl_nodes (wd_cluster w))"
  by (auto simp: driver_round_def run_world_def)

lemma settled_round:
  assumes "driver_round q cr w w'" "template_drift q cr w False" "upgradable q cr sel flt"
    "distinct (map nd_name (cl_nodes (wd_cluster w)))"
  shows "template_drift q cr w' False"
    "node_of (wd_cluster w) n = Some nd \<Longrightarrow>
      \<exists>nd'. node_of (wd_cluster w') n = Some nd' \<and> concluded q sel cr (wd_cluster w) nd nd'"
proof -
  obtain p s cr' where p: "driver_server p (wd_cluster w) (wd_sets w)" "pf_env p = pf_env q" "pf_lib p = pf_lib q"
    "hist s = []" "srv_get_drv (pf_reads p) [] (dp_name cr) = Inr cr'" "dp_name cr' = dp_name cr"
    "dp_spec cr' = dp_spec cr" "dp_deleted cr' = None" "w' = run_world w (hist (final_of (DriverReconcile p (dp_name cr)) s))"
    using assms(1) by (auto simp: driver_round_def)
  note same = config_same [OF p(2,3,6,7)]
  obtain s1 where s1: "list_all read_call (hist s1)"
    "final_of (DriverReconcile p (dp_name cr)) s = final_of (reconcile_driver p cr') s1"
    by (rule DriverReconcile_run [OF p(4,5,8)])
  have up: "lib_selector (pf_lib p) (DriverEffectiveNodeAffinity (dp_spec cr')) = Inr sel" "drainEnabledForCR cr'"
    using assms(3) unfolding same(3) [symmetric] by (simp_all add: upgradable_def)
  obtain d where d: "find_set (wd_sets w) (operatorNamespace p) (driverDaemonSetName (dp_name cr')) = Some d"
    "\<not> daemonSetNeedsUpdate d (desired_set p cr')"
    using assms(2) by (auto simp: template_drift_def same p(6))
  note eff = driver_server.settled_effect [OF p(1) up(1) s1(1) assms(4) up(2) d]
  have "wd_sets w' = wd_sets w" using eff(1) by (simp add: p(9) s1(2) run_world_def)
  then show "template_drift q cr w' False" using assms(2) by (simp add: template_drift_def)
  show "\<exists>nd'. node_of (wd_cluster w') n = Some nd' \<and> concluded q sel cr (wd_cluster w) nd nd'"
    if "node_of (wd_cluster w) n = Some nd"
    using eff(2) [OF that] by (simp add: p(9) s1(2) run_world_def same)
qed

text \<open>The round that finds the drift.\<close>

lemma drift_round:
  assumes "driver_round q cr w w'" "template_drift q cr w True" "upgradable q cr sel flt"
    "distinct (map nd_name (cl_nodes (wd_cluster w)))"
  shows "template_drift q cr w' False"
    "node_of (wd_cluster w) n = Some nd \<Longrightarrow> \<exists>nd1 nd'. node_of (wd_cluster w') n = Some nd' \<and>
       (if driver_matches q sel (nd_labels nd) then closed_from q (dp_name cr) nd nd1 else nd1 = nd) \<and>
       concluded q sel cr (wd_cluster w) nd1 nd'"
proof -
  obtain p s cr' where p: "driver_server p (wd_cluster w) (wd_sets w)" "pf_env p = pf_env q" "pf_lib p = pf_lib q"
    "hist s = []" "srv_get_drv (pf_reads p) [] (dp_name cr) = Inr cr'" "dp_name cr' = dp_name cr"
    "dp_spec cr' = dp_spec cr" "dp_deleted cr' = None" "w' = run_world w (hist (final_of (DriverReconcile p (dp_name cr)) s))"
    using assms(1) by (auto simp: driver_round_def)
  note same = config_same [OF p(2,3,6,7)]
  obtain s1 where s1: "list_all read_call (hist s1)"
    "final_of (DriverReconcile p (dp_name cr)) s = final_of (reconcile_driver p cr') s1"
    by (rule DriverReconcile_run [OF p(4,5,8)])
  have up: "lib_selector (pf_lib p) (DriverEffectiveNodeAffinity (dp_spec cr')) = Inr sel" "drainEnabledForCR cr'"
    "\<not> dv_paused (dp_spec cr')" "buildFullNodeDrainFilter p cr' = Inr flt" "dp_name cr' \<noteq> []"
    using assms(3) unfolding same(3) [symmetric] by (simp_all add: upgradable_def)
  obtain d where d: "find_set (wd_sets w) (operatorNamespace p) (driverDaemonSetName (dp_name cr')) = Some d"
    "daemonSetNeedsUpdate d (desired_set p cr')"
    using assms(2) by (auto simp: template_drift_def same p(6))
  let ?d = "apply_template d (desired_set p cr')"
  obtain h1 h2 where h: "hist (final_of (reconcile_driver p cr') s1) = h1 @ CUpdateDS ?d None # h2"
    "list_all (\<lambda>x. \<not> ds_write x) h1" "list_all (\<lambda>x. \<not> ds_write x) h2"
    "\<And>n nd. node_of (wd_cluster w) n = Some nd \<Longrightarrow> \<exists>nd1 nd'. node_of (replay (wd_cluster w) h1) n = Some nd1 \<and>
       (if driver_matches p sel (nd_labels nd) then closed_from p (dp_name cr') nd nd1 else nd1 = nd) \<and>
       stored (wd_cluster w) (final_of (reconcile_driver p cr') s1) n = Some nd' \<and>
       concluded p sel cr' (wd_cluster w) nd1 nd'"
    by (rule driver_server.drift_effect [OF p(1) up(1) s1(1) assms(4) up(2) d up(3-5)]) blast
  have key: "dm_ns ?d = operatorNamespace p" "dm_name ?d = driverDaemonSetName (dp_name cr')"
    using d(1) by (auto simp: apply_template_def find_set_def find_Some_iff)
  have "wd_sets w' = apply_set_call (CUpdateDS ?d None) (wd_sets w)"
    using h(1-3) by (simp add: p(9) s1(2) run_world_def replay_no_write del: apply_set_call.simps)
  then have "find_set (wd_sets w') (operatorNamespace p) (driverDaemonSetName (dp_name cr')) =
      Some (?d\<lparr>dm_status := dm_status d\<rparr>)"
    using find_set_update [of ?d "wd_sets w"] d(1) key by simp
  moreover have "\<not> daemonSetNeedsUpdate (?d\<lparr>dm_status := dm_status d\<rparr>) (desired_set p cr')"
    by (simp add: daemonSetNeedsUpdate_def apply_template_def)
  ultimately show "template_drift q cr w' False"
    by (auto simp: template_drift_def same p(6))
  show "\<exists>nd1 nd'. node_of (wd_cluster w') n = Some nd' \<and>
       (if driver_matches q sel (nd_labels nd) then closed_from q (dp_name cr) nd nd1 else nd1 = nd) \<and>
       concluded q sel cr (wd_cluster w) nd1 nd'"
    if "node_of (wd_cluster w) n = Some nd"
    using h(4) [OF that] by (auto simp: p(6,9) s1(2) run_world_def same)
qed

section \<open>The whole upgrade\<close>

text \<open>Every matched node of the start is closed or opened again, and the others are untouched, up to what the
  builders write.\<close>

abbreviation (input) in_upgrade :: "platform \<Rightarrow> drv_policy \<Rightarrow> (labels \<Rightarrow> bool) \<Rightarrow> node \<Rightarrow> node \<Rightarrow> bool" where
  "in_upgrade q cr sel nd nd' \<equiv> (if driver_matches q sel (nd_labels nd)
     then closed_upto builder_labels q (dp_name cr) nd nd' \<or> open_upto builder_labels q nd nd'
     else node_patch builder_labels {} False nd nd')"

definition upgrade_inv :: "platform \<Rightarrow> drv_policy \<Rightarrow> (labels \<Rightarrow> bool) \<Rightarrow> world \<Rightarrow> world \<Rightarrow> bool" where
  "upgrade_inv q cr sel w0 w \<longleftrightarrow> template_drift q cr w False \<and>
     map nd_name (cl_nodes (wd_cluster w)) = map nd_name (cl_nodes (wd_cluster w0)) \<and>
     (\<forall>nd \<in> set (cl_nodes (wd_cluster w0)). \<exists>nd'. node_of (wd_cluster w) (nd_name nd) = Some nd' \<and>
        in_upgrade q cr sel nd nd')"

lemma kmd_builder [simp]: "LabelKMDVersion \<in> builder_labels"
  by (simp add: builder_labels_def)

lemma drift_annos:
  assumes "map (\<lambda>d. (dm_ns d, dm_name d, dm_annos d)) ds' = map (\<lambda>d. (dm_ns d, dm_name d, dm_annos d)) ds"
    "find_set ds ns n = Some d"
  shows "\<exists>d'. find_set ds' ns n = Some d' \<and> dm_annos d' = dm_annos d"
  using assms
proof (induction ds arbitrary: ds')
  case (Cons x ds)
  then show ?case by (auto simp: find_set_def Cons_eq_map_conv split: if_splits)
qed (simp add: find_set_def)

text \<open>A step of the environment.\<close>

lemma env_drift:
  assumes "upgrade_env w w'" "template_drift q cr w b"
  shows "template_drift q cr w' b"
proof -
  obtain d where d: "find_set (wd_sets w) (operatorNamespace q) (driverDaemonSetName (dp_name cr)) = Some d"
    "daemonSetNeedsUpdate d (desired_set q cr) = b"
    using assms(2) by (auto simp: template_drift_def)
  then obtain d' where "find_set (wd_sets w') (operatorNamespace q) (driverDaemonSetName (dp_name cr)) = Some d'"
    "dm_annos d' = dm_annos d"
    using assms(1) drift_annos [OF _ d(1), of "wd_sets w'"] by (auto simp: upgrade_env_def)
  with d(2) show ?thesis by (auto simp: template_drift_def daemonSetNeedsUpdate_def)
qed

lemma patched_nodes:
  assumes "list_all2 (node_patch L {} False) (cl_nodes c) (cl_nodes c')"
  shows "map nd_name (cl_nodes c') = map nd_name (cl_nodes c)"
    "node_of c n = Some nd \<Longrightarrow> \<exists>nd'. node_of c' n = Some nd' \<and> node_patch L {} False nd nd'"
proof -
  have "map nd_name ys = map nd_name xs \<and>
      (find (\<lambda>nd. nd_name nd = n) xs = Some nd \<longrightarrow> (\<exists>nd'. find (\<lambda>nd. nd_name nd = n) ys = Some nd' \<and> node_patch L {} False nd nd'))"
    if "list_all2 (node_patch L {} False) xs ys" for xs ys
    using that by (induction xs ys rule: list_all2_induct) (auto simp: node_patch_def)
  from this [OF assms] show "map nd_name (cl_nodes c') = map nd_name (cl_nodes c)"
    "node_of c n = Some nd \<Longrightarrow> \<exists>nd'. node_of c' n = Some nd' \<and> node_patch L {} False nd nd'"
    by (auto simp: node_of_def)
qed

lemma in_upgrade_patch:
  "in_upgrade q cr sel nd nd1 \<Longrightarrow> node_patch builder_labels {} False nd1 nd2 \<Longrightarrow> in_upgrade q cr sel nd nd2"
  using upto_patch [of builder_labels nd1 nd2] node_patch_trans by (auto split: if_splits)

lemma in_upgrade_concluded:
  assumes "in_upgrade q cr sel nd nd1" "concluded q sel cr c nd1 nd2" "blind_upto builder_labels q sel" "dp_name cr \<noteq> []"
  shows "in_upgrade q cr sel nd nd2"
proof (cases "driver_matches q sel (nd_labels nd)")
  case True
  then show ?thesis
    using assms(1) concluded_closed [OF _ assms(2,3) True] concluded_open [OF _ assms(2,4)] by (metis (full_types) kmd_builder)
qed (use assms(1) concluded_unmatched [OF _ assms(2,3)] in simp)

lemma upgrade_invariant:
  assumes "upgrade q cr w0 w" "upgradable q cr sel flt" "blind_upto builder_labels q sel"
    "distinct (map nd_name (cl_nodes (wd_cluster w0)))"
  shows "upgrade_inv q cr sel w0 w"
  using assms(1)
proof (induction rule: upgrade.induct)
  case (start w)
  have "\<exists>nd'. node_of (wd_cluster w) (nd_name nd) = Some nd' \<and> in_upgrade q cr sel nd nd'"
    if nd: "nd \<in> set (cl_nodes (wd_cluster w0))" for nd
  proof -
    obtain nd1 nd2 where nd2: "node_of (wd_cluster w) (nd_name nd) = Some nd2"
      "if driver_matches q sel (nd_labels nd) then closed_from q (dp_name cr) nd nd1 else nd1 = nd"
      "concluded q sel cr (wd_cluster w0) nd1 nd2"
      using drift_round(2) [OF start(2,1) assms(2,4) node_of_distinct [OF assms(4) nd]] by blast
    have "in_upgrade q cr sel nd nd1"
      using nd2(2) closed_from_as [of q "dp_name cr" nd nd1 builder_labels] by (auto simp: node_patch_refl split: if_splits)
    from in_upgrade_concluded [OF this nd2(3) assms(3)] assms(2) nd2(1) show ?thesis by (simp add: upgradable_def)
  qed
  then show ?case
    using drift_round(1) [OF start(2,1) assms(2,4)] world_names [OF start(2)] by (simp add: upgrade_inv_def)
next
  case (round w w')
  have drift: "template_drift q cr w False" and dist: "distinct (map nd_name (cl_nodes (wd_cluster w)))"
    using round.IH assms(4) by (simp_all add: upgrade_inv_def)
  have "\<exists>nd'. node_of (wd_cluster w') (nd_name nd) = Some nd' \<and> in_upgrade q cr sel nd nd'"
    if nd: "nd \<in> set (cl_nodes (wd_cluster w0))" for nd
  proof -
    obtain nd1 where nd1: "node_of (wd_cluster w) (nd_name nd) = Some nd1" "in_upgrade q cr sel nd nd1"
      using round.IH nd unfolding upgrade_inv_def by blast
    obtain nd2 where nd2: "node_of (wd_cluster w') (nd_name nd) = Some nd2" "concluded q sel cr (wd_cluster w) nd1 nd2"
      using settled_round(2) [OF round(2) drift assms(2) dist nd1(1)] by blast
    from in_upgrade_concluded [OF nd1(2) nd2(2) assms(3)] assms(2) nd2(1) show ?thesis by (simp add: upgradable_def)
  qed
  then show ?case
    using settled_round(1) [OF round(2) drift assms(2) dist] world_names [OF round(2)] round.IH
    by (simp add: upgrade_inv_def)
next
  case (env w w')
  then have nodes: "list_all2 (node_patch builder_labels {} False) (cl_nodes (wd_cluster w)) (cl_nodes (wd_cluster w'))"
    by (simp add: upgrade_env_def)
  have "\<exists>nd'. node_of (wd_cluster w') (nd_name nd) = Some nd' \<and> in_upgrade q cr sel nd nd'"
    if nd: "nd \<in> set (cl_nodes (wd_cluster w0))" for nd
  proof -
    obtain nd1 where nd1: "node_of (wd_cluster w) (nd_name nd) = Some nd1" "in_upgrade q cr sel nd nd1"
      using env.IH nd unfolding upgrade_inv_def by blast
    obtain nd2 where "node_of (wd_cluster w') (nd_name nd) = Some nd2" "node_patch builder_labels {} False nd1 nd2"
      using patched_nodes(2) [OF nodes nd1(1)] by (elim exE conjE)
    then show ?thesis using in_upgrade_patch [OF nd1(2)] by (intro exI [of _ nd2] conjI)
  qed
  then show ?case
    using env.IH env_drift [OF env(2)] patched_nodes(1) [OF nodes] by (simp add: upgrade_inv_def)
qed

text \<open>C7: An upgrade in which no call of the operator fails gives the nodes back. The policy is not paused, has
  drain enabled and a filter that parses, and its selector does not look at the labels that the operator and
  the builders write. A reconcile finds the drift and updates the template; then come any number of further
  reconciles, in any order with steps of the environment, which moves pods and Jobs, reports on DaemonSets and
  lets the builders patch their three labels on the nodes. Once the builder of every matched node is ready at
  the target version, one more reconcile leaves every node of the cluster that was open and unmarked before
  the upgrade with the annotations, the unschedulable flag and, up to the builders' three labels, the labels
  that it had. (When the removal of the gates fails they stay: \<open>gates_stick_after_failed_removal\<close>.)\<close>

theorem upgrade_restores_nodes:
  assumes "upgrade q cr w0 w" "driver_round q cr w w'" "upgradable q cr sel flt" "blind_upto builder_labels q sel"
    "distinct (map nd_name (cl_nodes (wd_cluster w0)))"
    "\<forall>nd \<in> set (cl_nodes (wd_cluster w0)). driver_matches q sel (nd_labels nd) \<longrightarrow>
       ready_at_target cr (builder_pods (operatorNamespace q) cr (wd_cluster w)) (nd_name nd)"
    "nd \<in> set (cl_nodes (wd_cluster w0))" "free_node q nd"
  shows "\<exists>nd'. node_of (wd_cluster w') (nd_name nd) = Some nd' \<and> nd_annos nd' = nd_annos nd \<and>
    nd_unsched nd' = nd_unsched nd \<and> (\<forall>k. k \<notin> builder_labels \<longrightarrow> nd_labels nd' k = nd_labels nd k)"
proof -
  have inv: "upgrade_inv q cr sel w0 w" by (rule upgrade_invariant [OF assms(1,3-5)])
  then have drift: "template_drift q cr w False" and dist: "distinct (map nd_name (cl_nodes (wd_cluster w)))"
    using assms(5) by (simp_all add: upgrade_inv_def)
  obtain nd1 where nd1: "node_of (wd_cluster w) (nd_name nd) = Some nd1" "in_upgrade q cr sel nd nd1"
    using inv assms(7) unfolding upgrade_inv_def by blast
  obtain nd2 where nd2: "node_of (wd_cluster w') (nd_name nd) = Some nd2" "concluded q sel cr (wd_cluster w) nd1 nd2"
    using settled_round(2) [OF assms(2) drift assms(3) dist nd1(1)] by blast
  have "dp_name cr \<noteq> []" using assms(3) by (simp add: upgradable_def)
  note open_kept = concluded_open [OF _ nd2(2) this kmd_builder]
  have "node_patch builder_labels {} False nd nd2"
  proof (cases "driver_matches q sel (nd_labels nd)")
    case True
    then have "open_upto builder_labels q nd nd2"
      using nd1(2) concluded_closed [OF _ nd2(2) assms(4) True kmd_builder] open_kept assms(6,7) by (metis (full_types))
    with assms(8) show ?thesis by (rule free_restored)
  qed (use nd1(2) nd2(2) concluded_unmatched [OF _ nd2(2) assms(4)] in simp)
  then show ?thesis using nd2(1) by (auto simp: node_patch_def fun_eq_iff)
qed


end
