(* ===== verification/DriverSteps.thy ===== *)
theory DriverSteps
  imports UpgradeCycle
begin

text \<open>
  What a reconcile of a driver policy guarantees to everybody else, on servers that may fail any call:
  which parts of which nodes it may change. A node that the policy does not select keeps its
  schedulability and its annotations.
\<close>

section \<open>Patches by node\<close>

text \<open>Patches change labels in \<open>L\<close>, annotations in \<open>A\<close> and the unschedulable flag, on a node of \<open>K\<close> labels only;
  no Job is created.\<close>

fun scoped :: "string set \<Rightarrow> string set \<Rightarrow> string set \<Rightarrow> call \<Rightarrow> bool" where
  "scoped L A K (CPatchNode base new e) =
     (if nd_name base \<in> K then node_patch L {} False base new else node_patch L A True base new)"
| "scoped L A K (CCreateJob j e) = False"
| "scoped L A K _ = True"

abbreviation scope_rel :: "string set \<Rightarrow> string set \<Rightarrow> string set \<Rightarrow> string \<Rightarrow> node \<Rightarrow> node \<Rightarrow> bool" where
  "scope_rel L A K n nd nd' \<equiv> (if n \<in> K then node_patch L {} False nd nd' else node_patch L A True nd nd')"

lemma scoped_apply:
  assumes "scoped L A K x" "node_of c n = Some nd"
  shows "\<exists>nd'. node_of (apply_call x c) n = Some nd' \<and> scope_rel L A K n nd nd'"
proof (cases "\<exists>base new. x = CPatchNode base new None")
  case True
  then obtain base new where x: "x = CPatchNode base new None" by blast
  then have "nd_name base = n \<Longrightarrow> scope_rel L A K n nd (merge_node base new nd)"
    using assms(1) by (simp add: merge_node_patch split: if_splits)
  then show ?thesis
    using assms(2) by (cases "nd_name base = n") (simp_all add: x node_of_patch node_patch_refl del: apply_call.simps)
next
  case False
  then show ?thesis using assms(2) by (simp add: node_of_other node_patch_refl)
qed

lemma scoped_replay:
  "list_all (scoped L A K) h \<Longrightarrow> node_of c n = Some nd \<Longrightarrow>
   \<exists>nd'. node_of (replay c h) n = Some nd' \<and> scope_rel L A K n nd nd'"
proof (induction h arbitrary: c nd)
  case (Cons x h)
  have x: "scoped L A K x" "list_all (scoped L A K) h" using Cons.prems(1) by simp_all
  obtain nd1 where nd1: "node_of (apply_call x c) n = Some nd1" "scope_rel L A K n nd nd1"
    using scoped_apply [OF x(1) Cons.prems(2)] by blast
  obtain nd2 where "node_of (replay (apply_call x c) h) n = Some nd2" "scope_rel L A K n nd1 nd2"
    using Cons.IH [OF x(2) nd1(1)] by blast
  then show ?case using nd1(2) by (auto intro: node_patch_trans split: if_splits)
qed (simp add: node_patch_refl)

lemma scoped_jobs: "list_all (scoped L A K) h \<Longrightarrow> cl_jobs (replay c h) = cl_jobs c"
proof (induction h arbitrary: c)
  case (Cons x h)
  have "cl_jobs (apply_call x c) = cl_jobs c"
    using Cons.prems by (induction x c rule: apply_call.induct) auto
  with Cons show ?case by simp
qed simp

section \<open>Any server\<close>

abbreviation driver_labels :: "platform \<Rightarrow> string set" where
  "driver_labels p \<equiv> insert LabelKMDVersion (set (driverDeployGates p))"

abbreviation driver_annos :: "string set" where
  "driver_annos \<equiv> {AnnoDriverCordonedBy, AnnoDriverCordonedAt}"

abbreviation driver_scope :: "platform \<Rightarrow> string set \<Rightarrow> call \<Rightarrow> bool" where
  "driver_scope p K \<equiv> scoped (driver_labels p) driver_annos K"

lemma drv_call_scoped: "drv_call p cr x \<Longrightarrow> driver_scope p {} x"
  by (cases x) simp_all

lemma DriverReconcile_scoped: "issues (driver_scope p {}) (DriverReconcile p name)"
proof -
  have "issues (driver_scope p {}) (reconcile_driver p cr)" for cr
    by (rule issues_mono [OF reconcile_driver_footprint]) (rule drv_call_scoped)
  then show ?thesis unfolding DriverReconcile_def by (intro frame_rules) simp_all
qed

lemma driver_step_any:
  assumes "hist s = []"
  shows "cl_jobs (replay c (hist (final_of (DriverReconcile p name) s))) = cl_jobs c"
    "node_of c n = Some nd \<Longrightarrow> \<exists>nd'. node_of (replay c (hist (final_of (DriverReconcile p name) s))) n = Some nd' \<and>
       node_patch (driver_labels p) driver_annos True nd nd'"
proof -
  have h: "list_all (driver_scope p {}) (hist (final_of (DriverReconcile p name) s))"
    using keepsD [OF DriverReconcile_scoped [of p name], of s] assms by (auto simp: issued_def)
  show "cl_jobs (replay c (hist (final_of (DriverReconcile p name) s))) = cl_jobs c" by (rule scoped_jobs [OF h])
  show "node_of c n = Some nd \<Longrightarrow> \<exists>nd'. node_of (replay c (hist (final_of (DriverReconcile p name) s))) n = Some nd' \<and>
       node_patch (driver_labels p) driver_annos True nd nd'"
    using scoped_replay [OF h] by simp
qed

section \<open>A server that shows the stored nodes\<close>

text \<open>Nothing is known yet of the history: it is within the scope from the start or nothing is claimed.\<close>

definition guarded :: "(call \<Rightarrow> bool) \<Rightarrow> sys \<Rightarrow> sys \<Rightarrow> bool" where
  "guarded P s t \<longleftrightarrow> (list_all P (hist s) \<longrightarrow> issued P s t)"

interpretation guard: frame "guarded P" for P
proof
  show "guarded P s u" if "guarded P s t" "guarded P t u" for s t u
    using that by (auto simp: guarded_def issued_def)
qed (simp add: guarded_def issued_refl)

lemma guarded_issues: "issues P m \<Longrightarrow> keeps (guarded P) m"
  by (simp add: keeps_def guarded_def)

text \<open>The nodes that the selector of a driver policy does not match.\<close>

definition unmatched :: "platform \<Rightarrow> (labels \<Rightarrow> bool) \<Rightarrow> cluster \<Rightarrow> string set" where
  "unmatched p sel c = {n. \<exists>nd. node_of c n = Some nd \<and> \<not> driver_matches p sel (nd_labels nd)}"

lemma scope_prepare:
  assumes "nd_name node \<notin> K"
  shows "issues (driver_scope p K) (prepare_node p cr flt node)"
proof -
  have gate: "driver_scope p K (CPatchNode base new e)" if "node_patch (set (driverDeployGates p)) {} False base new" for base new e
    using that by (auto elim: node_patch_mono)
  have cordon: "driver_scope p K (CPatchNode node new e)" if "cordon_patch (driverCordonOpts (dp_name cr)) node new" for new e
    using assms that by (auto simp: driverCordonOpts_def dest!: cordon_node_patch elim!: node_patch_mono)
  show ?thesis
    unfolding prepare_node_def Let_def
    by (intro frame_rules issues_CordonNode issues_gates issues_evictMatching gate cordon) simp_all
qed

lemma scope_uncordon:
  assumes "nd_name node \<notin> K"
  shows "issues (driver_scope p K) (uncordon_node p cr pods node)"
proof -
  have gate: "driver_scope p K (CPatchNode base new e)" if "node_patch (set (driverDeployGates p)) {} False base new" for base new e
    using that by (auto elim: node_patch_mono)
  have open1: "driver_scope p K (CPatchNode node new e)" if "uncordon_patch (driverCordonOpts (dp_name cr)) node new" for new e
    using assms that by (auto simp: driverCordonOpts_def dest!: cordon_node_patch elim!: node_patch_mono)
  show ?thesis
    unfolding uncordon_node_def by (intro frame_rules issues_UncordonNode issues_gates gate open1)
qed

text \<open>\<open>K\<close> holds nodes that the policy does not select. Only a policy that drains closes and opens nodes.\<close>

definition spares :: "platform \<Rightarrow> cluster \<Rightarrow> drv_policy \<Rightarrow> string set \<Rightarrow> bool" where
  "spares p c cr K \<longleftrightarrow> (\<forall>sel. drainEnabledForCR cr \<longrightarrow>
     lib_selector (pf_lib p) (DriverEffectiveNodeAffinity (dp_spec cr)) = Inr sel \<longrightarrow>
     label_blind p sel \<and> K \<subseteq> unmatched p sel c)"

lemma spares_same: "dp_spec cr' = dp_spec cr \<Longrightarrow> spares p c cr' K = spares p c cr K"
  by (simp add: spares_def drainEnabledForCR_def)

context api_server begin

lemma listed_outside:
  assumes "distinct (map nd_name (cl_nodes c))" "spares p c cr K" "drainEnabledForCR cr"
    "list_all (driver_scope p K) (hist s)" "result_of (listMatchedNodes p cr) s = Inr nodes" "nd \<in> set nodes"
  shows "nd_name nd \<notin> K"
proof
  assume K: "nd_name nd \<in> K"
  obtain sel where sel: "lib_selector (pf_lib p) (DriverEffectiveNodeAffinity (dp_spec cr)) = Inr sel"
    using assms(5) by (auto simp: listMatchedNodes_def split: sum.splits)
  have blind: "label_blind p sel" "K \<subseteq> unmatched p sel c" using assms(2,3) sel by (auto simp: spares_def)
  then obtain nd0 where nd0: "node_of c (nd_name nd) = Some nd0" "\<not> driver_matches p sel (nd_labels nd0)"
    using K by (auto simp: unmatched_def)
  have nd: "nd \<in> set (cl_nodes (replay c (hist s)))" "driver_matches p sel (nd_labels nd)"
    using sel assms(5,6) list_nodes [of "hist s"]
    by (auto simp: listMatchedNodes_def list_nodes_def filter_driver_matched_eq split: sum.splits)
  have "distinct (map nd_name (cl_nodes (replay c (hist s))))" using assms(1) by simp
  from node_of_distinct [OF this nd(1)] scoped_replay [OF assms(4) nd0(1)] K
  have "node_patch (driver_labels p) {} False nd0 nd" by simp
  then have "\<forall>k. k \<notin> driver_labels p \<longrightarrow> nd_labels nd0 k = nd_labels nd k" by (simp add: node_patch_def)
  then have "driver_matches p sel (nd_labels nd0) = driver_matches p sel (nd_labels nd)"
    using blind(1) unfolding blind_upto_def by blast
  with nd(2) nd0(2) show False by simp
qed

lemma guarded_listing:
  assumes "distinct (map nd_name (cl_nodes c))" "spares p c cr K" "drainEnabledForCR cr"
    "\<And>e. issues (driver_scope p K) (f (Inl e))"
    "\<And>nodes. (\<And>nd. nd \<in> set nodes \<Longrightarrow> nd_name nd \<notin> K) \<Longrightarrow> issues (driver_scope p K) (f (Inr nodes))"
  shows "keeps (guarded (driver_scope p K)) (State_Monad.bind (listMatchedNodes p cr) f)"
  unfolding keeps_def guarded_def
proof (intro allI impI)
  fix s :: sys
  assume s: "list_all (driver_scope p K) (hist s)"
  have "issues (driver_scope p K) (f (result_of (listMatchedNodes p cr) s))"
  proof (cases "result_of (listMatchedNodes p cr) s")
    case (Inr nodes)
    show ?thesis unfolding Inr by (rule assms(5)) (rule listed_outside [OF assms(1-3) s Inr])
  qed (simp add: assms(4))
  then show "issued (driver_scope p K) s (final_of (State_Monad.bind (listMatchedNodes p cr) f) s)"
    by (intro issued_bind) (simp_all add: issued_keeps issues_driver_reads)
qed

lemma guarded_prepare:
  assumes "distinct (map nd_name (cl_nodes c))" "spares p c cr K" "drainEnabledForCR cr"
  shows "keeps (guarded (driver_scope p K)) (prepareUpgrade p cr)"
  unfolding prepareUpgrade_def
  by (rule guarded_listing [OF assms]) (auto intro!: frame_rules scope_prepare split: sum.split)

lemma guarded_uncordon:
  assumes "distinct (map nd_name (cl_nodes c))" "spares p c cr K" "drainEnabledForCR cr"
  shows "keeps (guarded (driver_scope p K)) (uncordonReadyNodes p cr (Some d))"
  unfolding uncordonReadyNodes_def option.case
  by (rule guarded_listing [OF assms]) (auto intro!: frame_rules scope_uncordon)

lemma guarded_finish:
  assumes "distinct (map nd_name (cl_nodes c))" "spares p c cr K" "status_keeps_spec p"
  shows "keeps (guarded (driver_scope p K)) (finish_driver p cr d m)"
proof -
  let ?P = "driver_scope p K"
  have label: "?P (CPatchNode base new e)" if "node_patch {LabelKMDVersion} {} False base new" for base new e
    using that by (auto elim: node_patch_mono)
  have status: "keeps (guarded ?P) (updateStatus p cr (Some d) m)"
    by (intro guarded_issues issues_updateStatus) simp_all
  have clean: "keeps (guarded ?P) (cleanupKMDVersionLabels p cr')" for cr'
    by (intro guarded_issues issues_cleanup label) simp_all
  have steps: "keeps (guarded ?P) (recordKMDVersionMetrics p)" "keeps (guarded ?P) (DriverReconcileSucceeded p n)"
    "keeps (guarded ?P) (inc_driver_error n op)" for n op
    by (intro guarded_issues frame_rules; simp)+
  have opened: "keeps (guarded ?P) (uncordonReadyNodes p cr' (Some d))"
    if "result_of (updateStatus p cr (Some d) m) s = (ue, cr')" "drainEnabledForCR cr'" for s ue cr'
  proof -
    have "dp_spec cr' = dp_spec cr" using updateStatus_spec [OF assms(3), of cr "Some d" m s] that(1) by simp
    from spares_same [OF this] assms(2) have "spares p c cr' K" by simp
    with assms(1) show ?thesis using that(2) by (rule guarded_uncordon)
  qed
  show ?thesis
    unfolding finish_driver_def
    by (intro guard.bind_result [OF status] guard.case_prod guard.case_option guard.cond guard.bind guard.return
        clean steps) (erule (1) opened)
qed

lemma guarded_reconcile:
  assumes "distinct (map nd_name (cl_nodes c))" "spares p c cr K" "status_keeps_spec p"
  shows "keeps (guarded (driver_scope p K)) (reconcile_driver p cr)"
proof -
  let ?P = "driver_scope p K"
  have create: "keeps (guarded ?P) (create_desired p cr d)" for d
    unfolding create_desired_def by (intro guarded_issues frame_rules; simp)
  have steps: "keeps (guarded ?P) (countMatchedNodes p cr)" "keeps (guarded ?P) (get_ds p ns n)"
    "keeps (guarded ?P) (DriverReconcileSucceeded p n)" "keeps (guarded ?P) (inc_driver_error n op)"
    "keeps (guarded ?P) (metric mo)" "keeps (guarded ?P) (update_ds p d)" for ns n op mo d
    by (intro guarded_issues frame_rules issues_driver_reads; simp)+
  have status: "keeps (guarded ?P) (updateStatus p cr None m)" for m
    by (intro guarded_issues issues_updateStatus) simp_all
  have sync: "keeps (guarded ?P) (sync_existing p cr d d')" for d d'
    unfolding sync_existing_def
    by (intro guard.bind guard.case_sum guard.case_option guard.cond guard.return steps guarded_prepare [OF assms(1,2)])
  show ?thesis
    unfolding reconcile_driver_def Let_def
    by (intro guard.bind guard.case_sum guard.case_option guard.case_prod guard.cond guard.return steps create status sync
        guarded_finish [OF assms])
qed

text \<open>The guarantee of a driver reconcile, whatever calls fail.\<close>

lemma driver_step:
  assumes "distinct (map nd_name (cl_nodes c))" "status_keeps_spec p" "hist s = []"
    "\<And>cr. srv_get_drv (pf_reads p) [] name = Inr cr \<Longrightarrow> spares p c cr K" "node_of c n = Some nd"
  shows "\<exists>nd'. node_of (replay c (hist (final_of (DriverReconcile p name) s))) n = Some nd' \<and>
    scope_rel (driver_labels p) driver_annos K n nd nd'"
proof -
  let ?P = "driver_scope p K"
  have "guarded ?P s (final_of (DriverReconcile p name) s)"
    unfolding DriverReconcile_def
  proof (rule guard.bind_at)
    show "guarded ?P s (final_of (get_drv p name) s)"
      by (rule keepsD, rule guarded_issues) (intro frame_rules; simp)
    have get: "result_of (get_drv p name) s = srv_get_drv (pf_reads p) [] name" by (simp add: get_drv_def assms(3))
    have gone: "keeps (guarded ?P) (DeleteDriverPolicySeries m)" for m
      by (intro guarded_issues frame_rules)
    show "guarded ?P (final_of (get_drv p name) s) (final_of (case result_of (get_drv p name) s of
        Inl e \<Rightarrow>
          if ekind e = NotFound then do { DeleteDriverPolicySeries name; State_Monad.return (no_requeue, None) }
          else State_Monad.return (no_requeue, Some e)
      | Inr cr \<Rightarrow>
          if dp_deleted cr \<noteq> None then do { DeleteDriverPolicySeries (dp_name cr); State_Monad.return (no_requeue, None) }
          else reconcile_driver p cr) (final_of (get_drv p name) s))"
      by (rule guard.case_sum_at; rule keepsD)
        (use assms(1,2,4) in \<open>auto simp: get intro!: guard.bind guard.return gone guarded_reconcile\<close>)
  qed
  then have "list_all ?P (hist (final_of (DriverReconcile p name) s))" using assms(3) by (auto simp: guarded_def issued_def)
  from scoped_replay [OF this assms(5)] show ?thesis .
qed

end

end
