(* ===== verification/PolicyOwners.thy ===== *)
theory PolicyOwners
  imports RollOutCases DriverSteps
begin

text \<open>
  Several policies over one cluster: reconciles of firmware policies and of driver policies, with any failures
  and with specifications that may change, alternate with steps of the environment. A node is flashed by one
  firmware policy only, the one whose name its owner label holds.
\<close>

section \<open>The owner of a node\<close>

definition owner_of :: "cluster \<Rightarrow> string \<Rightarrow> string option" where
  "owner_of c n = (case node_of c n of None \<Rightarrow> None | Some nd \<Rightarrow> nd_labels nd LabelOwnerCR)"

text \<open>A call of the policy \<open>y\<close> changes an owner label only on a node that nobody else owned at the
  start, and only to its own name.\<close>

fun owner_call :: "string \<Rightarrow> cluster \<Rightarrow> call \<Rightarrow> bool" where
  "owner_call y c (CPatchNode base new e) =
     (nd_labels new LabelOwnerCR = nd_labels base LabelOwnerCR \<or>
      (\<exists>nd. node_of c (nd_name base) = Some nd \<and> sget (nd_labels nd) LabelOwnerCR \<in> {[], y} \<and>
        nd_labels new LabelOwnerCR = Some y))"
| "owner_call y c _ = True"

lemma owner_call_patch: "node_patch L A u base new \<Longrightarrow> LabelOwnerCR \<notin> L \<Longrightarrow> owner_call y c (CPatchNode base new e)"
  by (auto simp: node_patch_def)

lemma owner_call_read: "read_call x \<Longrightarrow> owner_call y c x"
  by (cases x) simp_all

lemma owner_of_patch:
  "owner_of (apply_call (CPatchNode base new None) c') n =
     (if nd_name base = n \<and> node_of c' n \<noteq> None \<and> nd_labels new LabelOwnerCR \<noteq> nd_labels base LabelOwnerCR
      then nd_labels new LabelOwnerCR else owner_of c' n)"
  by (auto simp: owner_of_def node_of_patch merge_node_def merge_map_def simp del: apply_call.simps
      split: option.split)

lemma owner_of_other: "(\<And>base new. x \<noteq> CPatchNode base new None) \<Longrightarrow> owner_of (apply_call x c') n = owner_of c' n"
  by (simp add: owner_of_def node_of_other)

text \<open>A node owned by another policy stays its own, and one that is owned by \<open>y\<close> stays so.\<close>

lemma owner_kept_call:
  assumes "owner_call y c x" "owner_of c' n = Some z"
    "z = y \<or> (\<exists>nd. node_of c n = Some nd \<and> sget (nd_labels nd) LabelOwnerCR \<notin> {[], y})"
  shows "owner_of (apply_call x c') n = Some z"
proof (cases "\<exists>base new. x = CPatchNode base new None \<and> nd_name base = n")
  case True
  then obtain base new where x: "x = CPatchNode base new None" "nd_name base = n" by blast
  moreover have "node_of c' n \<noteq> None" using assms(2) by (auto simp: owner_of_def split: option.splits)
  moreover have "nd_labels new LabelOwnerCR = nd_labels base LabelOwnerCR \<or> nd_labels new LabelOwnerCR = Some y \<and> z = y"
    using assms(1,3) x by auto
  ultimately show ?thesis using assms(2) by (auto simp: owner_of_patch simp del: apply_call.simps)
next
  case False
  then show ?thesis
    using assms(2) by (cases "\<exists>base new. x = CPatchNode base new None")
      (auto simp: owner_of_patch owner_of_other simp del: apply_call.simps)
qed

lemma owner_kept:
  assumes "list_all (owner_call y c) h" "owner_of c' n = Some z"
    "z = y \<or> (\<exists>nd. node_of c n = Some nd \<and> sget (nd_labels nd) LabelOwnerCR \<notin> {[], y})"
  shows "owner_of (replay c' h) n = Some z"
  using assms(1,2)
proof (induction h arbitrary: c')
  case (Cons x h)
  then show ?case using owner_kept_call [OF _ _ assms(3), of x c'] by simp
qed simp

section \<open>Created for owned nodes only\<close>

text \<open>Whenever a Job is accepted between the two states, its node belongs to the policy by then.\<close>

definition job_target :: "job \<Rightarrow> string" where
  "job_target j = ps_node (jsp_pod (jb_spec j))"

definition claims_first :: "string \<Rightarrow> cluster \<Rightarrow> sys \<Rightarrow> sys \<Rightarrow> bool" where
  "claims_first y c s t \<longleftrightarrow> (\<exists>cs. hist t = hist s @ cs \<and>
     (\<forall>h1 j h2. cs = h1 @ CCreateJob j None # h2 \<longrightarrow>
        owner_of (replay c (hist s @ h1)) (job_target j) = Some y))"

lemma claims_first_refl: "claims_first y c s s"
  by (simp add: claims_first_def)

lemma append_split:
  "xs @ ys = h1 @ x # h2 \<longleftrightarrow>
   (\<exists>h. xs = h1 @ x # h \<and> h2 = h @ ys) \<or> (\<exists>h. h1 = xs @ h \<and> ys = h @ x # h2)"
proof -
  have "xs @ ys = h1 @ x # h2 \<longleftrightarrow> (\<exists>us. xs = h1 @ us \<and> us @ ys = x # h2 \<or> xs @ us = h1 \<and> ys = us @ x # h2)"
    by (simp add: append_eq_append_conv2)
  then show ?thesis by (auto simp: append_eq_Cons_conv)
qed

lemma claims_first_trans:
  assumes "claims_first y c s t" "claims_first y c t u"
  shows "claims_first y c s u"
proof -
  obtain cs where cs: "hist t = hist s @ cs"
    "\<And>h1 j h2. cs = h1 @ CCreateJob j None # h2 \<Longrightarrow> owner_of (replay c (hist s @ h1)) (job_target j) = Some y"
    using assms(1) by (auto simp: claims_first_def)
  obtain ds where ds: "hist u = hist t @ ds"
    "\<And>h1 j h2. ds = h1 @ CCreateJob j None # h2 \<Longrightarrow> owner_of (replay c (hist t @ h1)) (job_target j) = Some y"
    using assms(2) by (auto simp: claims_first_def)
  have "owner_of (replay c (hist s @ h1)) (job_target j) = Some y" if "cs @ ds = h1 @ CCreateJob j None # h2" for h1 j h2
    using that cs ds by (auto simp: append_split)
  then show ?thesis using cs(1) ds(1) by (auto simp: claims_first_def)
qed

lemma claims_first_no_job: "issued (\<lambda>x. \<not> job_created x) s t \<Longrightarrow> claims_first y c s t"
  by (auto simp: issued_def claims_first_def)

lemma claims_first_one: "hist t = hist s @ [x] \<Longrightarrow>
    (\<And>j. x = CCreateJob j None \<Longrightarrow> owner_of (replay c (hist s)) (job_target j) = Some y) \<Longrightarrow> claims_first y c s t"
  by (auto simp: claims_first_def append_eq_Cons_conv Cons_eq_append_conv)

text \<open>Both together, as a relation on runs.\<close>

definition owned_run :: "string \<Rightarrow> cluster \<Rightarrow> sys \<Rightarrow> sys \<Rightarrow> bool" where
  "owned_run y c s t \<longleftrightarrow> issued (owner_call y c) s t \<and> claims_first y c s t"

interpretation owned: frame "owned_run y c" for y c
  by unfold_locales
    (auto simp: owned_run_def issued_refl claims_first_refl intro: issued_trans claims_first_trans)

lemma owned_run_quiet:
  assumes "issued P s t" "\<And>x. P x \<Longrightarrow> owner_call y c x \<and> \<not> job_created x"
  shows "owned_run y c s t"
  using issued_mono [OF assms(1), of "owner_call y c"] issued_mono [OF assms(1), of "\<lambda>x. \<not> job_created x"] assms(2)
  by (auto simp: owned_run_def intro: claims_first_no_job)

lemma owner_call_report: "report_call x \<Longrightarrow> owner_call y c x \<and> \<not> job_created x"
proof (cases x)
  case (CPatchNode base new e)
  then show "report_call x \<Longrightarrow> owner_call y c x \<and> \<not> job_created x"
    by (auto simp: publish_patch_def const_defs intro!: owner_call_patch simp del: owner_call.simps)
qed (auto elim: job_created.elims)

section \<open>One reconcile\<close>

lemma owner_advance_state:
  "issues (owner_call y c) (advance_state p cr node ns)"
  by (rule issues_advance_state)
    (auto simp: node_patch_def cordon_patch_def uncordon_patch_def const_defs)

context api_server begin

lemma claim_owner:
  assumes "result_of (claimOwnership p node y) s = (None, cn)" "y \<noteq> []"
    "node_of (replay c (hist s)) (nd_name node) = Some node"
  shows "owner_of (replay c (hist (final_of (claimOwnership p node y) s))) (nd_name cn) = Some y"
proof (cases "sget (nd_labels node) LabelOwnerCR = y")
  case True
  then show ?thesis
    using assms sget_nonempty [of "nd_labels node" LabelOwnerCR] by (auto simp: claimOwnership_def owner_of_def)
next
  case False
  let ?new = "node\<lparr>nd_labels := put_all (nd_labels node) [(LabelOwnerCR, y)]\<rparr>"
  have r: "srv_patch_node (pf_writes p) (hist s) node ?new = Inr cn"
    using assms(1) False by (auto simp: claimOwnership_def labelNode_def patch_node_def split: sum.splits)
  have "nd_labels node LabelOwnerCR \<noteq> Some y" using False by (auto simp: sget_def)
  then have "owner_of (replay c (hist s @ [CPatchNode node ?new None])) (nd_name node) = Some y"
    using assms(3) by (simp add: owner_of_patch del: apply_call.simps)
  moreover have "nd_name cn = nd_name node"
    using patch_node [OF r] node_of_name by auto
  ultimately show ?thesis
    using r False by (simp add: claimOwnership_def labelNode_def patch_node_def)
qed

lemma owned_spawn:
  assumes "owner_of (replay c (hist s)) (nd_name node) = Some y"
  shows "claims_first y c s (final_of (spawnFlashJob p cr node ns) s)"
proof -
  let ?j = "setOwnerRef (buildFlashJob p cr (nd_name node) (defaultFlasherImageFromEnv p)) cr"
  have first: "claims_first y c s (final_of (create_job p ?j) s)"
    by (rule claims_first_one [where x = "CCreateJob ?j (err_of (srv_create_job (pf_writes p) (hist s) ?j))"])
      (use assms in \<open>auto simp: create_job_def job_target_def\<close>)
  have rest: "issued (\<lambda>x. \<not> job_created x) (final_of (create_job p ?j) s) (final_of (spawnFlashJob p cr node ns) s)"
    unfolding spawnFlashJob_def Let_def final_of_bind
    by (rule issued_keeps) (intro frame_rules issues_annotateNode issues_labelNode; simp)
  from claims_first_trans [OF first claims_first_no_job [OF rest]] show ?thesis .
qed

lemma owned_advance:
  assumes "fp_name cr \<noteq> []" "node_of c (nd_name node) = Some node"
    "sget (nd_labels node) LabelOwnerCR \<in> {[], fp_name cr}"
    "node_of (replay c (hist s)) (nd_name node) = Some node"
  shows "owned_run (fp_name cr) c s (final_of (advanceNode p cr node ns) s)"
proof -
  let ?y = "fp_name cr"
  obtain e cn where r: "result_of (claimOwnership p node ?y) s = (e, cn)" by (meson surj_pair)
  let ?t = "final_of (claimOwnership p node ?y) s"
  have "issues (owner_call ?y c) (claimOwnership p node ?y)"
    unfolding claimOwnership_def labelNode_def
    by (intro frame_rules) (use assms(2,3) in auto)
  then have claim: "owned_run ?y c s ?t"
    by (simp add: owned_run_def issued_keeps claims_first_no_job [OF issued_keeps [OF no_job_claimOwnership]])
  have state: "owned_run ?y c ?t (final_of (advance_state p cr cn ns) ?t)" if "e = None"
  proof (cases "ns_state ns = NodeStatePending")
    case True
    have "claims_first ?y c ?t (final_of (advance_state p cr cn ns) ?t)"
      using owned_spawn [OF claim_owner [OF r [unfolded that] assms(1,4)], of cr ns] True
      by (simp add: advance_state_def)
    then show ?thesis by (simp add: owned_run_def issued_keeps [OF owner_advance_state])
  next
    case False
    then show ?thesis
      by (simp add: owned_run_def issued_keeps [OF owner_advance_state]
          claims_first_no_job [OF issued_keeps [OF no_job_advance_state]])
  qed
  show ?thesis
    unfolding advanceNode_def
    by (rule owned.bind_at [OF claim]) (use r state in \<open>auto simp: owned.refl split: option.split\<close>)
qed

lemma owned_advance_pass:
  assumes "fp_name cr \<noteq> []" "pass_ok (operatorNamespace p) B cr c owned nss (hist s)" "unowned_pass (fp_name cr) c nss"
  shows "owned_run (fp_name cr) c s (final_of (advance_pass p cr stop capacity owned nss) s)"
proof (cases stop)
  case True
  then show ?thesis using advance_pass_stop [of p cr capacity owned nss s] by (simp add: final_of_def owned.refl)
next
  case False
  have "owned_run (fp_name cr) c s (final_of (advance_pass p cr False capacity owned nss) s)"
    using assms(2,3)
  proof (induction capacity owned nss s rule: advance_pass_induct [where p = p and cr = cr])
    case (waits capacity owned ns rest s)
    then show ?case
      using pass_ok_tail by (simp add: advance_pass_waits unowned_pass_def del: advance_pass.simps)
  next
    case (goes capacity owned ns rest s node adv e node' ns' t)
    note round = pass_round [OF goes.prems(1) goes(1-4)]
    have name: "nd_name node = ns_name ns" using round(3) node_of_name by blast
    have own: "sget (nd_labels node) LabelOwnerCR \<in> {[], fp_name cr}"
      using goes.prems(2) round(3,6) by (auto simp: unowned_pass_def)
    have "owned_run (fp_name cr) c s t"
      unfolding goes(4) by (rule owned_advance [OF assms(1) _ own]) (use round(3,4) name in auto)
    moreover have "unowned_pass (fp_name cr) c rest" using goes.prems(2) by (simp add: unowned_pass_def)
    note goes(5) [OF round(2) this]
    ultimately show ?case
      using advance_pass_goes(1) [OF goes(1) _ _ refl, of p cr s adv e node' ns' t rest] goes(2-4)
      by (simp add: owned.trans del: advance_pass.simps)
  qed (simp add: owned.refl)
  with False show ?thesis by simp
qed

lemma owned_reconcile:
  assumes "replay c (hist s) = c" "distinct (map nd_name (cl_nodes c))" "fp_name cr \<noteq> []"
  shows "owned_run (fp_name cr) c s (final_of (reconcile_cr p cr) s)"
proof (rule reconcile_by_pass [OF assms(1,2) owned.frame_axioms])
  show "owned_run (fp_name cr) c s t" if "issued report_call s t" for s t
    using that owner_call_report by (rule owned_run_quiet)
qed (rule owned_advance_pass [OF assms(3)])

end

section \<open>Several policies\<close>

text \<open>A flash Job of policy \<open>x\<close> for node \<open>n\<close>, by its labels.\<close>

definition node_job :: "string \<Rightarrow> job \<Rightarrow> string \<Rightarrow> string \<Rightarrow> bool" where
  "node_job opns j n x \<longleftrightarrow> jb_ns j = opns \<and> x \<noteq> [] \<and>
     jb_labels j JobLabelNode = Some n \<and> jb_labels j JobLabelCR = Some x"

text \<open>The environment: it may do anything to nodes, pods and Jobs except creating flash Jobs, taking an owner
  label away or giving it to another policy, and adding a node under a name that a flash Job carries.\<close>

definition owners_env :: "string \<Rightarrow> cluster \<Rightarrow> cluster \<Rightarrow> bool" where
  "owners_env opns c c' \<longleftrightarrow> distinct (map nd_name (cl_nodes c')) \<and>
     (\<forall>nd' \<in> set (cl_nodes c').
        (\<exists>nd \<in> set (cl_nodes c). nd_name nd = nd_name nd' \<and>
           (nd_labels nd LabelOwnerCR \<noteq> None \<longrightarrow> nd_labels nd' LabelOwnerCR = nd_labels nd LabelOwnerCR)) \<or>
        (\<forall>j \<in> set (cl_jobs c). \<forall>x. \<not> node_job opns j (nd_name nd') x)) \<and>
     (\<forall>j' \<in> set (cl_jobs c'). \<forall>n x. node_job opns j' n x \<longrightarrow> (\<exists>j \<in> set (cl_jobs c). node_job opns j n x))"

inductive policies_reach :: "string \<Rightarrow> cluster \<Rightarrow> bool" for opns where
  start: "distinct (map nd_name (cl_nodes c)) \<Longrightarrow> (\<And>j n x. j \<in> set (cl_jobs c) \<Longrightarrow> \<not> node_job opns j n x) \<Longrightarrow>
    policies_reach opns c"
| reconcile: "policies_reach opns c \<Longrightarrow> api_server p c B \<Longrightarrow> operatorNamespace p = opns \<Longrightarrow> hist s = [] \<Longrightarrow>
    name \<noteq> [] \<Longrightarrow> (\<And>cr. srv_get_fw (pf_reads p) [] name = Inr cr \<Longrightarrow> fp_name cr = name) \<Longrightarrow>
    policies_reach opns (replay c (hist (final_of (FirmwareReconcile p name) s)))"
| driver: "policies_reach opns c \<Longrightarrow> hist s = [] \<Longrightarrow> LabelOwnerCR \<notin> set (driverDeployGates p) \<Longrightarrow>
    policies_reach opns (replay c (hist (final_of (DriverReconcile p name) s)))"
| env: "policies_reach opns c \<Longrightarrow> owners_env opns c c' \<Longrightarrow> policies_reach opns c'"

definition owner_inv :: "string \<Rightarrow> cluster \<Rightarrow> bool" where
  "owner_inv opns c \<longleftrightarrow> distinct (map nd_name (cl_nodes c)) \<and>
     (\<forall>j \<in> set (cl_jobs c). \<forall>n x nd. node_job opns j n x \<longrightarrow> node_of c n = Some nd \<longrightarrow>
        nd_labels nd LabelOwnerCR = Some x)"

lemma replay_new_job: "j \<in> set (cl_jobs (replay c h)) \<Longrightarrow> j \<in> set (cl_jobs c) \<or> CCreateJob j None \<in> set h"
proof (induction h arbitrary: c)
  case (Cons x h)
  have "j \<in> set (cl_jobs (apply_call x c)) \<Longrightarrow> j \<in> set (cl_jobs c) \<or> x = CCreateJob j None"
    by (induction x c rule: apply_call.induct) (auto split: if_splits)
  with Cons show ?case by auto
qed simp

lemma owner_inv_reconcile:
  assumes "api_server p c B" "operatorNamespace p = opns" "list_all read_call (hist s)" "fp_name cr \<noteq> []"
    "owner_inv opns c"
  shows "owner_inv opns (replay c (hist (final_of (reconcile_cr p cr) s)))"
proof -
  let ?y = "fp_name cr"
  have q: "replay c (hist s) = c" by (rule replay_reads [OF assms(3)])
  have dist: "distinct (map nd_name (cl_nodes c))" using assms(5) by (simp add: owner_inv_def)
  obtain cs where cs: "hist (final_of (reconcile_cr p cr) s) = hist s @ cs" "list_all (step_call opns B cr c) cs"
    using api_server.step_reconcile [OF assms(1) q dist, of cr] assms(2) by (auto simp: issued_def)
  have run: "owned_run ?y c s (final_of (reconcile_cr p cr) s)"
    by (rule api_server.owned_reconcile [OF assms(1) q dist assms(4)])
  then have calls: "list_all (owner_call ?y c) cs"
    using cs(1) by (auto simp: owned_run_def issued_def)
  have claimed: "owner_of (replay c h1) (job_target j) = Some ?y" if "cs = h1 @ CCreateJob j None # h2" for h1 j h2
    using run that cs(1) q by (auto simp: owned_run_def claims_first_def)
  let ?c = "replay c cs"
  have "nd_labels nd LabelOwnerCR = Some x"
    if j: "j \<in> set (cl_jobs ?c)" "node_job opns j n x" and nd: "node_of ?c n = Some nd" for j n x nd
  proof -
    have "owner_of ?c n = Some x"
    proof (cases "j \<in> set (cl_jobs c)")
      case True
      have "n \<in> nd_name ` set (cl_nodes c)"
        using node_of_mem [OF nd] node_of_name [OF nd] by (metis image_eqI image_set replay_names)
      then obtain nd0 where nd0: "node_of c n = Some nd0" using node_of_exists by blast
      then have "nd_labels nd0 LabelOwnerCR = Some x" using assms(5) True j(2) by (auto simp: owner_inv_def)
      then show ?thesis
        using nd0 j(2) by (intro owner_kept [OF calls]) (auto simp: owner_of_def node_job_def sget_def)
    next
      case False
      then have "CCreateJob j None \<in> set cs" using replay_new_job [OF j(1)] by blast
      then obtain h1 h2 where h: "cs = h1 @ CCreateJob j None # h2" by (meson split_list)
      then have "step_call opns B cr c (CCreateJob j None)" using cs(2) by simp
      then obtain m where m: "flash_job opns cr m j" by (auto simp: flash_job_def)
      then have t: "job_target j = m" by (auto simp: flash_job_def job_target_def)
      have nx: "n = m" "x = ?y" using flash_job_facts(4,5) [OF m] j(2) by (auto simp: node_job_def)
      have "list_all (owner_call ?y c) (CCreateJob j None # h2)" using calls h by simp
      from owner_kept [OF this claimed [OF h]] have "owner_of (replay (replay c h1) (CCreateJob j None # h2)) m = Some ?y"
        using t by simp
      then show ?thesis using nx h by simp
    qed
    then show ?thesis using nd by (simp add: owner_of_def)
  qed
  moreover have "distinct (map nd_name (cl_nodes ?c))" using dist by simp
  ultimately show ?thesis by (simp add: owner_inv_def cs(1) q)
qed

lemma owner_inv_env:
  assumes "owners_env opns c c'" "owner_inv opns c"
  shows "owner_inv opns c'"
  unfolding owner_inv_def
proof (intro conjI ballI allI impI)
  fix j' n x nd'
  assume j': "j' \<in> set (cl_jobs c')" "node_job opns j' n x" and nd': "node_of c' n = Some nd'"
  obtain j where j: "j \<in> set (cl_jobs c)" "node_job opns j n x"
    using assms(1) j' unfolding owners_env_def by blast
  have mem: "nd' \<in> set (cl_nodes c')" "nd_name nd' = n" using node_of_mem [OF nd'] node_of_name [OF nd'] by auto
  then obtain nd where nd: "nd \<in> set (cl_nodes c)" "nd_name nd = n"
    "nd_labels nd LabelOwnerCR \<noteq> None \<longrightarrow> nd_labels nd' LabelOwnerCR = nd_labels nd LabelOwnerCR"
    using assms(1) j unfolding owners_env_def by blast
  have "node_of c n = Some nd" using node_of_distinct [of c nd] nd assms(2) by (simp add: owner_inv_def)
  then have "nd_labels nd LabelOwnerCR = Some x" using assms(2) j unfolding owner_inv_def by blast
  then show "nd_labels nd' LabelOwnerCR = Some x" using nd(3) by simp
qed (use assms(1) in \<open>simp add: owners_env_def\<close>)

text \<open>A driver reconcile writes other labels, whatever the server answers.\<close>

lemma owner_inv_driver:
  assumes "hist s = []" "LabelOwnerCR \<notin> set (driverDeployGates p)" "owner_inv opns c"
  shows "owner_inv opns (replay c (hist (final_of (DriverReconcile p name) s)))"
  unfolding owner_inv_def
proof (intro conjI ballI allI impI)
  let ?c = "replay c (hist (final_of (DriverReconcile p name) s))"
  fix j n x nd'
  assume j: "j \<in> set (cl_jobs ?c)" "node_job opns j n x" and nd': "node_of ?c n = Some nd'"
  have "n \<in> nd_name ` set (cl_nodes c)"
    using node_of_mem [OF nd'] node_of_name [OF nd'] by (metis image_eqI image_set replay_names)
  then obtain nd where nd: "node_of c n = Some nd" using node_of_exists by blast
  then have "nd_labels nd LabelOwnerCR = Some x"
    using assms(3) j driver_step_any(1) [OF assms(1), of c p name] by (auto simp: owner_inv_def)
  moreover have "node_patch (driver_labels p) driver_annos True nd nd'"
    using driver_step_any(2) [OF assms(1) nd, of p name] nd' by auto
  moreover have "LabelOwnerCR \<notin> driver_labels p" using assms(2) by (simp add: const_defs)
  ultimately show "nd_labels nd' LabelOwnerCR = Some x" by (simp add: node_patch_def)
qed (use assms(3) in \<open>simp add: owner_inv_def\<close>)

lemma reach_owner_inv: "policies_reach opns c \<Longrightarrow> owner_inv opns c"
proof (induction rule: policies_reach.induct)
  case (start c)
  then show ?case by (auto simp: owner_inv_def)
next
  case (reconcile c p B s name)
  define cr where "cr = (case srv_get_fw (pf_reads p) [] name of Inr cr \<Rightarrow> cr | Inl e \<Rightarrow> (undefined :: fw_policy)\<lparr>fp_name := name\<rparr>)"
  have name: "fp_name cr = name" using reconcile(6) by (auto simp: cr_def split: sum.split)
  have "replay c (hist (final_of (FirmwareReconcile p name) s)) = c \<or>
    (\<exists>cr' s'. same_policy cr cr' \<and> list_all read_call (hist s') \<and>
       hist (final_of (FirmwareReconcile p name) s) = hist (final_of (reconcile_cr p cr') s'))"
    using FirmwareReconcile_calls [OF reconcile(4), of p cr c] name by (auto simp: cr_def same_policy_def)
  then show ?case
  proof
    assume "\<exists>cr' s'. same_policy cr cr' \<and> list_all read_call (hist s') \<and>
       hist (final_of (FirmwareReconcile p name) s) = hist (final_of (reconcile_cr p cr') s')"
    then obtain cr' s' where r: "same_policy cr cr'" "list_all read_call (hist s')"
      "hist (final_of (FirmwareReconcile p name) s) = hist (final_of (reconcile_cr p cr') s')" by blast
    have "fp_name cr' \<noteq> []" using r(1) name reconcile(5) by (simp add: same_policy_def)
    from owner_inv_reconcile [OF reconcile(2,3) r(2) this reconcile.IH] r(3) show ?thesis by simp
  qed (use reconcile.IH in simp)
next
  case (driver c s p name)
  then show ?case using owner_inv_driver by blast
next
  case (env c c')
  then show ?case using owner_inv_env by blast
qed

text \<open>C5: No two policies flash one node. In every cluster that reconciles of any firmware policies and any driver
  policies, with any specifications, and steps of the environment can lead to, whatever calls fail on the
  way, all flash Jobs of a node of the cluster belong to one policy, the one that its owner label names. The
  driver's list of deploy gates must not contain the owner label itself.\<close>

theorem one_policy_per_node:
  assumes "policies_reach opns c" "node_of c n = Some nd" "j \<in> set (cl_jobs c)" "node_job opns j n x"
    "j' \<in> set (cl_jobs c)" "node_job opns j' n x'"
  shows "x = x' \<and> nd_labels nd LabelOwnerCR = Some x"
proof -
  have "nd_labels nd LabelOwnerCR = Some x" "nd_labels nd LabelOwnerCR = Some x'"
    using reach_owner_inv [OF assms(1)] assms(2-) unfolding owner_inv_def by blast+
  then show ?thesis by simp
qed

text \<open>A second policy over the same node, after the first has started a flash.\<close>

definition contested_cluster :: cluster where
  "contested_cluster = replay flashing_cluster
     (hist (final_of (FirmwareReconcile (live_server (plain_fw ''other'') flashing_cluster) ''other'') init_sys))"

lemma flashing_reach: "policies_reach default_ns flashing_cluster"
  unfolding flashing_cluster_def
  by (rule policies_reach.reconcile [OF policies_reach.start reliable_server.axioms(1) [OF live_server_reliable]])
    (simp_all add: fresh_cluster_def init_sys_def plain_fw_def)

lemma contested_reach: "policies_reach default_ns contested_cluster"
  unfolding contested_cluster_def
  by (rule policies_reach.reconcile [OF flashing_reach reliable_server.axioms(1) [OF live_server_reliable]])
    (simp_all add: init_sys_def plain_fw_def)

lemma flashing_node_job: "\<exists>j \<in> set (cl_jobs flashing_cluster). node_job default_ns j ''n1'' ''fw''"
proof -
  let ?cr = "plain_fw ''fw''" and ?c = "fresh_cluster held_node"
  have cr: "fp_name ?cr = ''fw''" by (simp add: plain_fw_def)
  have wf: "wf_cluster {''n1''} ?c" by (simp add: wf_cluster_def fresh_cluster_def held_name)
  obtain cr' h where h: "same_policy ?cr cr'" "list_all (step_call default_ns {} cr' ?c) h" "flashing_cluster = replay ?c h"
    using reconcile_step_calls [OF reliable_server.axioms(1) [OF live_server_reliable [of ?cr ?c]], of default_ns init_sys _ ?cr]
      wf cr by (auto simp: init_sys_def same_policy_def flashing_cluster_def)
  obtain j where j: "j \<in> set (cl_jobs flashing_cluster)"
    using flashing_cluster_job nth_mem by (auto simp: policy_job_def find_job_def find_Some_iff)
  then obtain n where n: "phase default_ns cr' ?c n = Some PhReady" "flash_job default_ns cr' n j"
    using replay_jobs [OF h(2)] h(3) by (auto simp: fresh_cluster_def)
  have "n = ''n1''" using phase_node [OF n(1)] by (simp add: fresh_cluster_def held_name)
  with flash_job_facts [OF n(2)] j h(1) cr show ?thesis by (auto simp: node_job_def same_policy_def)
qed

lemma one_policy_per_node_witness:
  "\<exists>nd j. node_of contested_cluster ''n1'' = Some nd \<and> j \<in> set (cl_jobs contested_cluster) \<and>
     node_job default_ns j ''n1'' ''fw'' \<and> nd_labels nd LabelOwnerCR = Some ''fw''"
proof -
  obtain j where j: "j \<in> set (cl_jobs contested_cluster)" "node_job default_ns j ''n1'' ''fw''"
    using flashing_node_job replay_jobs_grow unfolding contested_cluster_def by (metis Un_iff set_append)
  have "''n1'' \<in> nd_name ` set (cl_nodes contested_cluster)"
    by (simp add: contested_cluster_def flashing_cluster_def fresh_cluster_def held_name flip: set_map)
  then obtain nd where "node_of contested_cluster ''n1'' = Some nd" using node_of_exists by blast
  with one_policy_per_node [OF contested_reach _ j j] j show ?thesis by blast
qed

end
