(* ===== verification/UpgradeCases.thy ===== *)
theory UpgradeCases
  imports UpgradeCycle RollOutCases Templates
begin

text \<open>An upgrade on a concrete cluster of one node.\<close>

definition upgrade_bed :: "cluster \<Rightarrow> daemonset list \<Rightarrow> platform" where
  "upgrade_bed c sets = drv_server ((testbed [] [] [] [])\<lparr>pf_reads :=
     (pf_reads (testbed [] [] [] []))\<lparr>srv_get_drv := \<lambda>h n. Inr (plain_drv ''d'')\<rparr>\<rparr>) c sets"

lemma upgrade_bed_server: "driver_server (upgrade_bed c sets) c sets"
  unfolding upgrade_bed_def by (rule drv.driver_server_axioms)

lemma upgrade_bed_fields [simp]:
  "pf_env (upgrade_bed c sets) = pf_env (testbed [] [] [] [])" "pf_lib (upgrade_bed c sets) = pf_lib (testbed [] [] [] [])"
  "srv_get_drv (pf_reads (upgrade_bed c sets)) h n = Inr (plain_drv ''d'')"
  by (simp_all add: upgrade_bed_def drv_server_def mem_server_def)

lemma upgrade_bed_config [simp]:
  "operatorNamespace (upgrade_bed c sets) = default_ns"
  "driverDeployGates (upgrade_bed c sets) = [''tenstorrent.com/deploy.tt-telemetry'']"
  "requireTenstorrentLabel (upgrade_bed c sets)"
  by (simp_all add: operatorNamespace_def requireTenstorrentLabel_def os_getenv_def driverDeployGates_def
      envSet_def defaultDriverDeployGates_def)

lemma plain_drv_fields [simp]:
  "dp_name (plain_drv n) = n" "dp_deleted (plain_drv n) = None" "dv_version (dp_spec (plain_drv n)) = ''2.0.0''"
  by (simp_all add: plain_drv_def)

lemma bed_upgradable: "\<exists>flt. upgradable (upgrade_bed c sets) (plain_drv ''d'') (\<lambda>l. True) flt"
  by (simp add: upgradable_def drainEnabledForCR_def buildFullNodeDrainFilter_def plain_drv_def)

lemma bed_blind: "label_blind (upgrade_bed c sets) (\<lambda>l. True)"
  "blind_upto builder_labels (upgrade_bed c sets) (\<lambda>l. True)"
  by (simp_all add: blind_upto_def builder_labels_def driver_matches_def sget_def const_defs)

lemma bed_matches: "driver_matches (upgrade_bed c sets) (\<lambda>l. True) (nd_labels (plain_node n))"
  by (simp add: driver_matches_def plain_node_def const_defs)

lemma bed_drift:
  "find_set [zero_ds ''ttdrv-d''] default_ns ''ttdrv-d'' = Some (zero_ds ''ttdrv-d'')"
  "daemonSetNeedsUpdate (zero_ds ''ttdrv-d'') (desired_set p (plain_drv ''d''))"
proof -
  have "length (take 16 (EncodeToString (Sum256 bs))) = 16" for bs by simp
  then have "take 16 (EncodeToString (Sum256 bs)) \<noteq> []" for bs by (metis list.size(3) zero_neq_numeral)
  then show "daemonSetNeedsUpdate (zero_ds ''ttdrv-d'') (desired_set p (plain_drv ''d''))"
    by (simp add: daemonSetNeedsUpdate_def buildDaemonSet_def computeDSTemplateHash_def zero_ds_def Let_def)
qed (simp add: find_set_def zero_ds_def)

lemma builder_at_ready:
  "n \<noteq> [] \<Longrightarrow> cl_pods c = [builder_at n] \<Longrightarrow>
   ready_at_target (plain_drv ''d'') (builder_pods default_ns (plain_drv ''d'') c) n"
  by (simp add: builder_pods_def ready_at_target_def builder_at_def plain_pod_def driver_pod_labels_def
      podEnv_def builder_container_def builder_env_def env_lit_def pod_ready_def)

definition old_world :: "pod list \<Rightarrow> world" where
  "old_world pds = \<lparr>wd_cluster = (fresh_cluster (plain_node ''n1''))\<lparr>cl_pods := pds\<rparr>,
     wd_sets = [zero_ds ''ttdrv-d'']\<rparr>"

lemma template_changes_on_closed_nodes_witness:
  "\<exists>h1 h2 nd' e. hist (final_of (DriverReconcile
       (upgrade_bed (wd_cluster (old_world [plain_pod ''ns'' ''a'' ''n1''])) [zero_ds ''ttdrv-d'']) ''d'') init_sys) = h1 @ h2 \<and>
     node_of (replay (wd_cluster (old_world [plain_pod ''ns'' ''a'' ''n1''])) h1) ''n1'' = Some nd' \<and> nd_unsched nd' \<and>
     CEvict ''ns'' ''a'' e \<in> set h1 \<and> h2 \<noteq> []"
proof -
  let ?pd = "plain_pod ''ns'' ''a'' ''n1''" and ?nd = "plain_node ''n1''"
  let ?c = "wd_cluster (old_world [?pd])" and ?p = "upgrade_bed (wd_cluster (old_world [?pd])) [zero_ds ''ttdrv-d'']"
  obtain flt where up: "upgradable ?p (plain_drv ''d'') (\<lambda>l. True) flt" using bed_upgradable by blast
  have c: "cl_nodes ?c = [?nd]" "cl_pods ?c = [?pd]" by (simp_all add: old_world_def fresh_cluster_def)
  have pd: "drained_pod ?p (plain_drv ''d'') flt ''n1'' ?pd"
    by (simp add: drained_pod_def drainable_def plain_pod_def PodUsesTenstorrentDevice_def host_volume_def
        zero_pod_spec_def IsTerminalPhase_def PodIsDaemonSetOwned_def PodIsBare_def plain_drv_def)
  have name: "nd_name ?nd = ''n1''" by (simp add: plain_node_def)
  obtain h1 h2 where h: "hist (final_of (DriverReconcile ?p ''d'') init_sys) =
      h1 @ CUpdateDS (apply_template (zero_ds ''ttdrv-d'') (desired_set ?p (plain_drv ''d''))) None # h2"
    "\<forall>nd \<in> set (cl_nodes ?c). driver_matches ?p (\<lambda>l. True) (nd_labels nd) \<longrightarrow>
      (\<exists>nd'. node_of (replay ?c h1) (nd_name nd) = Some nd' \<and> closed_from ?p (dp_name (plain_drv ''d'')) nd nd') \<and>
      (\<forall>pd \<in> set (cl_pods ?c). drained_pod ?p (plain_drv ''d'') flt (nd_name nd) pd \<longrightarrow>
         (\<exists>e. CEvict (pd_ns pd) (pd_name pd) e \<in> set h1))"
    using template_changes_on_closed_nodes [OF upgrade_bed_server [of ?c "[zero_ds ''ttdrv-d'']"], of init_sys "''d''"
        "plain_drv ''d''" "\<lambda>l. True" flt "zero_ds ''ttdrv-d''"] up bed_drift c(1)
    by (auto simp: init_sys_def driverDaemonSetName_def)
  have "\<exists>nd'. node_of (replay ?c h1) ''n1'' = Some nd' \<and> closed_from ?p ''d'' ?nd nd'"
    "\<exists>e. CEvict (pd_ns ?pd) (pd_name ?pd) e \<in> set h1"
    using h(2) bed_matches [of ?c "[zero_ds ''ttdrv-d'']" "''n1''"] pd c name by auto
  moreover have "pd_ns ?pd = ''ns''" "pd_name ?pd = ''a''" by (simp_all add: plain_pod_def)
  ultimately show ?thesis using h(1) by (fastforce simp: closed_from_def)
qed

lemma same_version_drift_reopens_witness:
  "\<exists>h1 h2 nd1 nd'. hist (final_of (DriverReconcile
       (upgrade_bed (wd_cluster (old_world [builder_at ''n1''])) [zero_ds ''ttdrv-d'']) ''d'') init_sys) = h1 @ h2 \<and>
     node_of (replay (wd_cluster (old_world [builder_at ''n1''])) h1) ''n1'' = Some nd1 \<and> nd_unsched nd1 \<and>
     node_of (replay (wd_cluster (old_world [builder_at ''n1''])) (h1 @ h2)) ''n1'' = Some nd' \<and> \<not> nd_unsched nd'"
proof -
  let ?nd = "plain_node ''n1''" and ?c = "wd_cluster (old_world [builder_at ''n1''])"
  let ?p = "upgrade_bed ?c [zero_ds ''ttdrv-d'']"
  obtain flt where up: "upgradable ?p (plain_drv ''d'') (\<lambda>l. True) flt" using bed_upgradable by blast
  have c: "cl_nodes ?c = [?nd]" "nd_name ?nd = ''n1''" by (simp_all add: old_world_def fresh_cluster_def plain_node_def)
  have "ready_at_target (plain_drv ''d'') (builder_pods default_ns (plain_drv ''d'') ?c) ''n1''"
    by (rule builder_at_ready) (simp_all add: old_world_def)
  then show ?thesis
    using same_version_drift_reopens [OF upgrade_bed_server [of ?c "[zero_ds ''ttdrv-d'']"], of init_sys "''d''"
        "plain_drv ''d''" "\<lambda>l. True" flt "zero_ds ''ttdrv-d''" ?nd] up bed_drift c bed_blind bed_matches
    by (fastforce simp: init_sys_def driverDaemonSetName_def)
qed

lemma bed_round: "\<exists>w'. driver_round (upgrade_bed c sets) (plain_drv ''d'') w w'"
  using upgrade_bed_server [of "wd_cluster w" "wd_sets w"] unfolding driver_round_def
  by (intro exI [of _ "run_world w (hist (final_of (DriverReconcile (upgrade_bed (wd_cluster w) (wd_sets w)) ''d'') init_sys))"]
      exI [of _ "upgrade_bed (wd_cluster w) (wd_sets w)"] exI [of _ init_sys] exI [of _ "plain_drv ''d''"])
    (simp add: init_sys_def)

text \<open>The reconcile that finds the drift, the new builder with its labels, and the reconcile that opens the node.\<close>

lemma upgrade_restores_nodes_witness:
  "\<exists>q w1 w2 w' nd'. driver_round q (plain_drv ''d'') (old_world []) w1 \<and> upgrade_env w1 w2 \<and>
     driver_round q (plain_drv ''d'') w2 w' \<and> node_of (wd_cluster w') ''n1'' = Some nd' \<and>
     nd_annos nd' = Map.empty \<and> \<not> nd_unsched nd'"
proof -
  let ?nd = "plain_node ''n1''" and ?q = "upgrade_bed (wd_cluster (old_world [])) []"
  obtain flt where up: "upgradable ?q (plain_drv ''d'') (\<lambda>l. True) flt" using bed_upgradable by blast
  obtain w1 where w1: "driver_round ?q (plain_drv ''d'') (old_world []) w1" using bed_round by blast
  define w2 where "w2 = w1\<lparr>wd_cluster := (wd_cluster w1)\<lparr>cl_pods := [builder_at ''n1''],
    cl_nodes := map (\<lambda>nd. nd\<lparr>nd_labels := (nd_labels nd)(LabelInstallMode \<mapsto> ''container'',
      LabelKMDVersion \<mapsto> ''2.0.0'')\<rparr>) (cl_nodes (wd_cluster w1))\<rparr>\<rparr>"
  have env: "upgrade_env w1 w2"
    by (simp add: upgrade_env_def w2_def list_all2_conv_all_nth node_patch_def builder_labels_def)
  obtain w' where w': "driver_round ?q (plain_drv ''d'') w2 w'" using bed_round by blast
  have "template_drift ?q (plain_drv ''d'') (old_world []) True"
    using bed_drift by (simp add: template_drift_def old_world_def driverDaemonSetName_def)
  then have run: "upgrade ?q (plain_drv ''d'') (old_world []) w2"
    using w1 env by (meson upgrade.start upgrade.env)
  have c: "cl_nodes (wd_cluster (old_world [])) = [?nd]" "nd_name ?nd = ''n1''"
    by (simp_all add: old_world_def fresh_cluster_def plain_node_def)
  have ready: "ready_at_target (plain_drv ''d'') (builder_pods default_ns (plain_drv ''d'') (wd_cluster w2)) ''n1''"
    by (rule builder_at_ready) (simp_all add: w2_def)
  have free: "free_node ?q ?nd" by (simp add: free_node_def plain_node_def const_defs)
  obtain nd' where "node_of (wd_cluster w') ''n1'' = Some nd'" "nd_annos nd' = nd_annos ?nd" "nd_unsched nd' = nd_unsched ?nd"
    using upgrade_restores_nodes [OF run w' up bed_blind(2) _ _ _ free] c ready by auto
  then show ?thesis using w1 env w' by (fastforce simp: plain_node_def)
qed


end
