(* ===== verification/Interplay.thy ===== *)
theory Interplay
  imports PolicyOwners UpgradeCases
begin

text \<open>
  Both controllers over one cluster. A driver reconcile that selects no node which the firmware policy holds is
  a step of the environment of its roll-out, so the guarantees of the roll-out stand beside the driver. One
  that does select such a node opens it while it is being flashed.
\<close>

section \<open>A driver reconcile as a step of the environment\<close>

definition held_names :: "fw_policy \<Rightarrow> cluster \<Rightarrow> string set" where
  "held_names cr c = {nd_name nd | nd. nd \<in> set (cl_nodes c) \<and> held cr nd}"

lemma driver_env_step:
  assumes "api_server p c B" "status_keeps_spec p" "hist s = []" "wf_cluster N c"
    "\<And>dcr. srv_get_drv (pf_reads p) [] name = Inr dcr \<Longrightarrow> spares p c dcr (held_names cr c)"
  shows "env_step opns cr N c (replay c (hist (final_of (DriverReconcile p name) s)))" (is "env_step _ _ _ _ ?c")
proof -
  have dist: "distinct (map nd_name (cl_nodes c))" using assms(4) by (simp add: wf_cluster_def)
  have "\<exists>nd \<in> set (cl_nodes c). nd_name nd = nd_name nd' \<and> (held cr nd \<longrightarrow> held cr nd')" if "nd' \<in> set (cl_nodes ?c)" for nd'
  proof -
    have "nd_name nd' \<in> nd_name ` set (cl_nodes c)" using that by (metis image_eqI image_set replay_names)
    then obtain nd where nd: "node_of c (nd_name nd') = Some nd" using node_of_exists by blast
    have name: "nd \<in> set (cl_nodes c)" "nd_name nd = nd_name nd'" using node_of_mem [OF nd] node_of_name [OF nd] by auto
    have "distinct (map nd_name (cl_nodes ?c))" using dist by simp
    then have "node_of ?c (nd_name nd') = Some nd'" using that by (rule node_of_distinct)
    with api_server.driver_step [where name = name, OF assms(1) dist assms(2,3,5) nd]
    have rel: "scope_rel (driver_labels p) driver_annos (held_names cr c) (nd_name nd') nd nd'" by auto
    have "held cr nd'" if "held cr nd"
    proof -
      have "nd_name nd \<in> held_names cr c" using that name(1) by (auto simp: held_names_def)
      then have "nd_name nd' \<in> held_names cr c" using name(2) by simp
      then have "node_patch (driver_labels p) {} False nd nd'" using rel by simp
      then show ?thesis using that by (simp add: held_def node_patch_def sget_def)
    qed
    with name show ?thesis by blast
  qed
  moreover have "cl_jobs ?c = cl_jobs c" by (rule driver_step_any(1) [OF assms(3)])
  ultimately show ?thesis using replay_wf [OF assms(4)] by (auto simp: env_step_def)
qed

text \<open>Runs of a firmware policy beside any driver policies that spare the nodes it holds.\<close>

inductive joint :: "string \<Rightarrow> fw_policy \<Rightarrow> string set \<Rightarrow> string set \<Rightarrow> cluster \<Rightarrow> bool" for opns cr N B where
  start: "wf_cluster N c \<Longrightarrow> list_all (\<lambda>j. \<not> labelled opns cr j \<and> \<not> named opns cr N j) (cl_jobs c) \<Longrightarrow>
    joint opns cr N B c"
| firmware: "joint opns cr N B c \<Longrightarrow> api_server p c B \<Longrightarrow> operatorNamespace p = opns \<Longrightarrow> hist s = [] \<Longrightarrow>
    (\<And>cr'. srv_get_fw (pf_reads p) [] (fp_name cr) = Inr cr' \<Longrightarrow> same_policy cr cr') \<Longrightarrow>
    joint opns cr N B (replay c (hist (final_of (FirmwareReconcile p (fp_name cr)) s)))"
| driver: "joint opns cr N B c \<Longrightarrow> api_server p c B \<Longrightarrow> status_keeps_spec p \<Longrightarrow> hist s = [] \<Longrightarrow>
    (\<And>dcr. srv_get_drv (pf_reads p) [] name = Inr dcr \<Longrightarrow> spares p c dcr (held_names cr c)) \<Longrightarrow>
    joint opns cr N B (replay c (hist (final_of (DriverReconcile p name) s)))"
| env: "joint opns cr N B c \<Longrightarrow> env_step opns cr N c c' \<Longrightarrow> joint opns cr N B c'"

lemma joint_reach: "joint opns cr N B c \<Longrightarrow> reach opns cr N B c"
proof (induction rule: joint.induct)
  case (driver c p s name)
  from driver(2-5) reach_wf [OF driver.IH] show ?case by (intro reach.env [OF driver.IH] driver_env_step)
qed (auto intro: reach.intros)

text \<open>C6: The guarantees of the firmware roll-out stand beside the driver controller. In every cluster that
  reconciles of a firmware policy with drain enabled, of any driver policies and steps of the environment can
  lead to, whatever calls fail on the way, an unfinished flash Job runs on a node that the policy holds
  cordoned and that has nothing left to drain, except on a node whose own Job lookup failed otherwise than
  with NotFound (its Job name is in \<open>B\<close>); and at most \<open>maxParallel\<close> Jobs have not ended. This takes that a
  driver policy which drains never selects a node the firmware policy holds at that time, and that its
  selector does not look at the labels that the operator itself writes.\<close>

theorem rollout_safe_beside_driver:
  assumes "joint opns cr N B c" "fp_name cr \<noteq> []" "inj_on (\<lambda>n. jobName cr n (fs_version (fp_spec cr))) N" "drainEnabled cr"
  shows "(\<forall>n nd j. jobName cr n (fs_version (fp_spec cr)) \<notin> B \<and> node_of c n = Some nd \<and>
      policy_job opns cr c n = Some j \<and> \<not> fst (jobFinished j) \<longrightarrow>
      nd_unsched nd \<and> sget (nd_annos nd) AnnoCordonedBy = fp_name cr \<and> to_drain opns cr (cl_pods c) n = []) \<and>
    int (in_flight opns cr c) \<le> max 0 (maxParallel cr)"
proof -
  have r: "reach opns cr N B c" using assms(1) by (rule joint_reach)
  have "int (in_flight opns cr c) \<le> max 0 (maxParallel cr)" using reach_in_flight [OF r] by linarith
  then show ?thesis using reach_flash_inv [OF r] assms(2-4) by (auto simp: flash_inv_def held_def blind_def)
qed

section \<open>A driver policy over the same nodes\<close>

text \<open>C40: When a driver policy selects a node that is being flashed, a drift of its template opens the node under
  the flash: with a builder ready at the version of the policy, one driver reconcile closes and opens the
  node, the firmware annotation stays, the flash Job goes on, and no reconcile of the firmware policy closes
  the node again, whatever calls fail in it.\<close>

theorem drift_opens_flashing_node:
  assumes "driver_server p c sets" "hist s = []" "srv_get_drv (pf_reads p) [] name = Inr dcr" "dp_deleted dcr = None"
    "upgradable p dcr sel flt" "label_blind p sel" "wf_cluster N c"
    "find_set sets (operatorNamespace p) (driverDaemonSetName (dp_name dcr)) = Some d"
    "daemonSetNeedsUpdate d (desired_set p dcr)" "nd \<in> set (cl_nodes c)" "driver_matches p sel (nd_labels nd)"
    "ready_at_target dcr (builder_pods (operatorNamespace p) dcr c) (nd_name nd)"
    "held cr nd" "policy_job opns cr c (nd_name nd) = Some j" "\<not> fst (jobFinished j)"
    "c' = replay c (hist (final_of (DriverReconcile p name) s))"
    "api_server q c' B" "operatorNamespace q = opns" "hist t = []"
    "\<And>cr'. srv_get_fw (pf_reads q) [] (fp_name cr) = Inr cr' \<Longrightarrow> same_policy cr cr'"
  shows "\<exists>nd' nd''. node_of c' (nd_name nd) = Some nd' \<and> \<not> nd_unsched nd' \<and>
    sget (nd_annos nd') AnnoCordonedBy = fp_name cr \<and> policy_job opns cr c' (nd_name nd) = Some j \<and>
    node_of (replay c' (hist (final_of (FirmwareReconcile q (fp_name cr)) t))) (nd_name nd) = Some nd'' \<and> \<not> nd_unsched nd''"
proof -
  have dist: "distinct (map nd_name (cl_nodes c))" using assms(7) by (simp add: wf_cluster_def)
  obtain nd' where nd': "node_of c' (nd_name nd) = Some nd'" "open_as p nd nd'"
    using drift_reopens [OF assms(1-6) dist assms(8-12)] unfolding assms(16) by metis
  have anno: "nd_annos nd' AnnoCordonedBy = nd_annos nd AnnoCordonedBy" using nd'(2) by (simp add: open_upto_def const_defs)
  have job: "policy_job opns cr c' (nd_name nd) = Some j"
    using assms(14) driver_step_any(1) [OF assms(2), of c p name] by (simp add: assms(16) policy_job_def find_job_def)
  have wf: "wf_cluster N c'" unfolding assms(16) by (rule replay_wf [OF assms(7)])
  obtain cr' h where h: "same_policy cr cr'" "list_all (step_call opns B cr' c') h"
    "replay c' (hist (final_of (FirmwareReconcile q (fp_name cr)) t)) = replay c' h"
    by (rule reconcile_step_calls [OF assms(17-19) wf assms(20)])
  obtain nd'' where nd'': "node_of (replay c' h) (nd_name nd) = Some nd''" "cordon_ok opns cr' c' nd' (cordon_of nd'')"
    using replay_cordon [OF h(2) nd'(1)] by blast
  have "phase_of opns cr' c' nd' = PhFlash"
    using job assms(15) node_of_name [OF nd'(1)] by (intro phase_of_flash) (simp_all add: same_policy_phase [OF h(1)])
  then have "cordon_of nd'' = cordon_of nd'" using nd''(2) by (simp add: cordon_ok_def)
  then have "\<not> nd_unsched nd''" using nd'(2) by (simp add: cordon_of_def open_upto_def)
  then show ?thesis
    using nd' nd''(1) anno job assms(13) h(3) by (auto simp: open_upto_def held_def sget_def)
qed

section \<open>Concrete clusters\<close>

text \<open>A driver policy that updates its DaemonSet without draining, beside a flash.\<close>

definition undrained_drv :: drv_policy where
  "undrained_drv = (plain_drv ''d'')\<lparr>dp_spec := (dp_spec (plain_drv ''d''))\<lparr>dv_upgrade := (dv_upgrade (dp_spec (plain_drv ''d'')))
     \<lparr>du_drain := (du_drain (dv_upgrade (dp_spec (plain_drv ''d''))))\<lparr>dd_enable := Some False\<rparr>\<rparr>\<rparr>\<rparr>"

definition undrained_server :: "cluster \<Rightarrow> platform" where
  "undrained_server c = drv_server ((testbed [] [] [] [])\<lparr>pf_reads :=
     (pf_reads (testbed [] [] [] []))\<lparr>srv_get_drv := \<lambda>h n. Inr undrained_drv\<rparr>\<rparr>) c [zero_ds ''ttdrv-d'']"

lemma undrained_server_ok:
  "api_server (undrained_server c) c {}" "status_keeps_spec (undrained_server c)"
  "srv_get_drv (pf_reads (undrained_server c)) h n = Inr undrained_drv"
proof -
  show "api_server (undrained_server c) c {}"
    unfolding undrained_server_def by (rule reliable_server.axioms(1), rule driver_server.axioms(1), rule drv.driver_server_axioms)
qed (simp_all add: undrained_server_def drv_server_def mem_server_def status_keeps_spec_def)

lemma undrained_spares: "spares p c undrained_drv K"
  by (simp add: spares_def undrained_drv_def drainEnabledForCR_def)

lemma rollout_safe_beside_driver_witness:
  "\<exists>c nd j. joint default_ns (plain_fw ''fw'') {''n1''} {} c \<and>
     c = replay flashing_cluster (hist (final_of (DriverReconcile (undrained_server flashing_cluster) ''d'') init_sys)) \<and>
     node_of c ''n1'' = Some nd \<and> policy_job default_ns (plain_fw ''fw'') c ''n1'' = Some j \<and> \<not> fst (jobFinished j) \<and>
     nd_unsched nd \<and> to_drain default_ns (plain_fw ''fw'') (cl_pods c) ''n1'' = []"
proof -
  let ?cr = "plain_fw ''fw''" and ?p = "undrained_server flashing_cluster"
  define c where "c = replay flashing_cluster (hist (final_of (DriverReconcile ?p ''d'') init_sys))"
  have cr: "same_policy ?cr ?cr" "fp_name ?cr = ''fw''" "drainEnabled ?cr"
    by (simp_all add: same_policy_def plain_fw_def drainEnabled_def)
  have init: "hist init_sys = []" by (simp add: init_sys_def)
  have "joint default_ns ?cr {''n1''} {} (fresh_cluster held_node)"
    by (rule joint.start) (simp_all add: wf_cluster_def fresh_cluster_def held_name)
  from joint.firmware [OF this reliable_server.axioms(1) [OF live_server_reliable], of ?cr init_sys]
  have flash: "joint default_ns ?cr {''n1''} {} flashing_cluster" by (simp add: flashing_cluster_def init cr)
  have run: "joint default_ns ?cr {''n1''} {} c"
    unfolding c_def by (rule joint.driver [OF flash undrained_server_ok(1,2) init]) (simp add: undrained_server_ok(3) undrained_spares)
  obtain nd0 j where nd0: "node_of flashing_cluster ''n1'' = Some nd0"
    "policy_job default_ns ?cr flashing_cluster ''n1'' = Some j" "\<not> fst (jobFinished j)"
    using flashing_cluster_job by blast
  obtain nd where nd: "node_of c ''n1'' = Some nd" using driver_step_any(2) [OF init nd0(1)] unfolding c_def by blast
  have j: "policy_job default_ns ?cr c ''n1'' = Some j"
    using nd0(2) driver_step_any(1) [OF init, of flashing_cluster ?p "''d''"] by (simp add: c_def policy_job_def find_job_def)
  have "nd_unsched nd \<and> to_drain default_ns ?cr (cl_pods c) ''n1'' = []"
    using conjunct1 [OF rollout_safe_beside_driver [OF run]] cr nd j nd0(3) by auto
  with run nd j nd0(3) show ?thesis unfolding c_def by blast
qed

text \<open>A node that is held by the firmware policy and flashed, with a ready builder.\<close>

definition shared_cluster :: cluster where
  "shared_cluster = \<lparr>cl_nodes = [held_node], cl_pods = [builder_at ''n1''],
     cl_jobs = [(plain_job (jobName (plain_fw ''fw'') ''n1'' (fs_version (fp_spec (plain_fw ''fw'')))))\<lparr>jb_ns := default_ns\<rparr>]\<rparr>"

lemma drift_opens_flashing_node_witness:
  "let c' = replay shared_cluster
       (hist (final_of (DriverReconcile (upgrade_bed shared_cluster [zero_ds ''ttdrv-d'']) ''d'') init_sys)) in
   \<exists>nd' nd''. node_of c' ''n1'' = Some nd' \<and> \<not> nd_unsched nd' \<and>
     policy_job default_ns (plain_fw ''fw'') c' ''n1'' \<noteq> None \<and>
     node_of (replay c' (hist (final_of (FirmwareReconcile (live_server (plain_fw ''fw'') c') ''fw'') init_sys))) ''n1'' = Some nd'' \<and>
     \<not> nd_unsched nd''"
proof -
  let ?c = shared_cluster and ?cr = "plain_fw ''fw''" and ?p = "upgrade_bed shared_cluster [zero_ds ''ttdrv-d'']"
  define c' where "c' = replay ?c (hist (final_of (DriverReconcile ?p ''d'') init_sys))"
  let ?j = "hd (cl_jobs shared_cluster)"
  obtain flt where up: "upgradable ?p (plain_drv ''d'') (\<lambda>l. True) flt" using bed_upgradable by blast
  have c: "held_node \<in> set (cl_nodes ?c)" "wf_cluster {''n1''} ?c" "held ?cr held_node"
    by (simp_all add: shared_cluster_def wf_cluster_def held_name)
      (simp add: held_def held_node_def sget_def plain_fw_def)
  have ready: "ready_at_target (plain_drv ''d'') (builder_pods default_ns (plain_drv ''d'') ?c) ''n1''"
    by (rule builder_at_ready) (simp_all add: shared_cluster_def)
  have job: "policy_job default_ns ?cr ?c ''n1'' = Some ?j" "\<not> fst (jobFinished ?j)"
    by (simp_all add: policy_job_def find_job_def shared_cluster_def plain_job_def jobFinished_def zero_job_status_def)
  have match: "driver_matches ?p (\<lambda>l. True) (nd_labels held_node)"
    using bed_matches [of ?c "[zero_ds ''ttdrv-d'']" "''n1''"] by (simp add: held_node_def)
  have cr: "same_policy ?cr ?cr" "fp_name ?cr = ''fw''" by (simp_all add: same_policy_def plain_fw_def)
  show ?thesis
    using drift_opens_flashing_node [OF upgrade_bed_server [of ?c "[zero_ds ''ttdrv-d'']"], of init_sys "''d''" "plain_drv ''d''"
        "\<lambda>l. True" flt "{''n1''}" "zero_ds ''ttdrv-d''" held_node ?cr default_ns ?j c' "live_server ?cr c'" "{}" init_sys]
      up bed_blind(1) c bed_drift match ready job cr reliable_server.axioms(1) [OF live_server_reliable [of ?cr c']]
    by (simp add: init_sys_def driverDaemonSetName_def held_name c'_def [symmetric, unfolded init_sys_def] Let_def) blast
qed

end
