(* ===== verification/GoHeap.thy ===== *)
theory GoHeap
  imports Prelude
begin

text \<open>
  The heap of a Go program as far as copying sees it: cells of one sum type, pointers that may be nil,
  slices. The locale \<open>deep_copy\<close> is the contract of a \<open>DeepCopyInto\<close> method; pointers, slices and
  structs of types that meet it meet it as well.
\<close>

section \<open>Cells\<close>

type_synonym addr = nat

record 'c heap =
  hp_next :: addr
  hp_cell :: "addr \<rightharpoonup> 'c"

definition wf_heap :: "'c heap \<Rightarrow> bool" where
  "wf_heap h \<longleftrightarrow> (\<forall>a. hp_cell h a \<noteq> None \<longrightarrow> a < hp_next h)"

text \<open>\<open>new\<close> and \<open>make\<close>: a fresh address with an initial value.\<close>

definition alloc :: "'c \<Rightarrow> 'c heap \<Rightarrow> addr \<times> 'c heap" where
  "alloc x h = (hp_next h, \<lparr>hp_next = Suc (hp_next h), hp_cell = (hp_cell h)(hp_next h \<mapsto> x)\<rparr>)"

definition store :: "addr \<Rightarrow> 'c \<Rightarrow> 'c heap \<Rightarrow> 'c heap" where
  "store a x h = h\<lparr>hp_cell := (hp_cell h)(a \<mapsto> x)\<rparr>"

text \<open>Reading a cell at a type: nothing when the address dangles or holds another type, which Go's
  type system excludes.\<close>

definition load :: "('c \<Rightarrow> 'a option) \<Rightarrow> addr \<Rightarrow> 'c heap \<Rightarrow> 'a option" where
  "load un a h = Option.bind (hp_cell h a) un"

text \<open>\<open>grows h h'\<close>: what was allocated is still there, unchanged.\<close>

definition grows :: "'c heap \<Rightarrow> 'c heap \<Rightarrow> bool" where
  "grows h h' \<longleftrightarrow> hp_next h \<le> hp_next h' \<and> (\<forall>a < hp_next h. hp_cell h' a = hp_cell h a)"

lemma grows_refl: "grows h h"
  by (simp add: grows_def)

lemma grows_trans [trans]: "grows h h' \<Longrightarrow> grows h' h'' \<Longrightarrow> grows h h''"
  by (simp add: grows_def)

lemma alloc_facts:
  assumes "alloc x h = (q, h')"
  shows "q = hp_next h" "hp_next h' = Suc (hp_next h)" "hp_cell h' = (hp_cell h)(q \<mapsto> x)" "grows h h'"
    "wf_heap h \<Longrightarrow> wf_heap h'"
  using assms by (auto simp: alloc_def grows_def wf_heap_def less_Suc_eq)

lemma store_facts [simp]: "hp_next (store a x h) = hp_next h" "hp_cell (store a x h) = (hp_cell h)(a \<mapsto> x)"
  by (simp_all add: store_def)

lemma store_wf: "wf_heap h \<Longrightarrow> a < hp_next h \<Longrightarrow> wf_heap (store a x h)"
  by (simp add: wf_heap_def)

lemma store_grows: "grows h h' \<Longrightarrow> hp_next h \<le> a \<Longrightarrow> grows h (store a x h')"
  by (simp add: grows_def)

text \<open>Two objects of value \<open>v\<close>, one that lives below the address \<open>n\<close> and one from there on: whatever happens
  to the other half of the memory, each keeps its value.\<close>

definition held_apart ::
  "('c heap \<Rightarrow> 'a \<Rightarrow> 'v option) \<Rightarrow> addr \<Rightarrow> 'c heap \<Rightarrow> 'a \<Rightarrow> 'a \<Rightarrow> 'v \<Rightarrow> bool" where
  "held_apart val n h a b v \<longleftrightarrow>
     (\<forall>h'. (\<forall>r < n. hp_cell h' r = hp_cell h r) \<longrightarrow> val h' a = Some v) \<and>
     (\<forall>h'. (\<forall>r \<ge> n. hp_cell h' r = hp_cell h r) \<longrightarrow> val h' b = Some v)"

section \<open>The contract of a deep copy\<close>

text \<open>A program that copies a value of type \<open>'a\<close>. No result means an ill-typed access.\<close>

type_synonym ('a, 'c) copier = "'a \<Rightarrow> 'c heap \<Rightarrow> ('a \<times> 'c heap) option"

text \<open>\<open>val h a\<close> is what \<open>a\<close> means, with every pointer followed, \<open>refs h a\<close> the addresses it reaches. A
  copy means the same, reaches new addresses only and changes nothing that existed.\<close>

locale deep_copy =
  fixes val :: "'c heap \<Rightarrow> 'a \<Rightarrow> 'v option" and refs :: "'c heap \<Rightarrow> 'a \<Rightarrow> addr set" and copy :: "('a, 'c) copier"
  assumes reach: "wf_heap h \<Longrightarrow> val h a = Some v \<Longrightarrow> r \<in> refs h a \<Longrightarrow> r < hp_next h"
    and local_val: "val h a = Some v \<Longrightarrow> (\<And>r. r \<in> refs h a \<Longrightarrow> hp_cell h' r = hp_cell h r) \<Longrightarrow> val h' a = Some v"
    and local_refs: "val h a = Some v \<Longrightarrow> (\<And>r. r \<in> refs h a \<Longrightarrow> hp_cell h' r = hp_cell h r) \<Longrightarrow> refs h' a = refs h a"
    and copies: "wf_heap h \<Longrightarrow> val h a = Some v \<Longrightarrow> \<exists>b h'. copy a h = Some (b, h') \<and> wf_heap h' \<and> grows h h' \<and>
      val h' b = Some v \<and> refs h' b \<subseteq> {hp_next h..<hp_next h'}"
begin

lemma kept:
  assumes "wf_heap h" "val h a = Some v" "grows h h'"
  shows "val h' a = Some v" "refs h' a = refs h a"
  using local_val [OF assms(2), of h'] local_refs [OF assms(2), of h'] reach [OF assms(1,2)] assms(3)
  by (auto simp: grows_def)

text \<open>The original does not see a write to the copy, and the copy none to the original.\<close>

lemma independent:
  assumes "wf_heap h" "val h a = Some v" "copy a h = Some (b, h')"
  shows "(\<And>r. r < hp_next h \<Longrightarrow> hp_cell h2 r = hp_cell h' r) \<Longrightarrow> val h2 a = Some v"
    "(\<And>r. hp_next h \<le> r \<Longrightarrow> hp_cell h2 r = hp_cell h' r) \<Longrightarrow> val h2 b = Some v"
proof -
  have c: "grows h h'" "val h' b = Some v" "refs h' b \<subseteq> {hp_next h..<hp_next h'}"
    using copies [OF assms(1,2)] assms(3) by auto
  show "val h2 a = Some v" if "\<And>r. r < hp_next h \<Longrightarrow> hp_cell h2 r = hp_cell h' r"
    using local_val [OF assms(2), of h2] reach [OF assms(1,2)] that c(1) by (auto simp: grows_def)
  show "val h2 b = Some v" if "\<And>r. hp_next h \<le> r \<Longrightarrow> hp_cell h2 r = hp_cell h' r"
    by (rule local_val [OF c(2)]) (use that c(3) in force)
qed

text \<open>The promise to the caller, in one statement.\<close>

lemma promise:
  assumes "wf_heap h" "val h a = Some v"
  shows "\<exists>b h'. copy a h = Some (b, h') \<and> wf_heap h' \<and> grows h h' \<and> held_apart val (hp_next h) h' a b v"
proof -
  obtain b h' where b: "copy a h = Some (b, h')" "wf_heap h'" "grows h h'" using copies [OF assms] by blast
  have "held_apart val (hp_next h) h' a b v"
    using independent [OF assms b(1)] by (simp add: held_apart_def)
  then show ?thesis using b by blast
qed

text \<open>A struct: some fields are copied deeply, the others as they are. \<open>mk\<close> may refuse a struct that means
  nothing, such as one with a string outside its enumeration.\<close>

lemma struct:
  assumes "\<And>h s. val' h s = Option.bind (val h (part s)) (mk s)" "\<And>h s. refs' h s = refs h (part s)"
    "\<And>s h. copy' s h = map_option (\<lambda>(b, h). (put s b, h)) (copy (part s) h)"
    "\<And>s b w v. mk s w = Some v \<Longrightarrow> part (put s b) = b" "\<And>s b. mk (put s b) = mk s"
  shows "deep_copy val' refs' copy'"
proof
  fix h and s and v
  assume h: "wf_heap h" "val' h s = Some v"
  then obtain w where w: "val h (part s) = Some w" "mk s w = Some v" using assms(1) by (auto simp: bind_eq_Some_conv)
  show "r \<in> refs' h s \<Longrightarrow> r < hp_next h" for r using reach [OF h(1) w(1)] by (simp add: assms(2))
  obtain b h' where b: "copy (part s) h = Some (b, h')" "wf_heap h'" "grows h h'" "val h' b = Some w"
    "refs h' b \<subseteq> {hp_next h..<hp_next h'}"
    using copies [OF h(1) w(1)] by blast
  then show "\<exists>z h'. copy' s h = Some (z, h') \<and> wf_heap h' \<and> grows h h' \<and> val' h' z = Some v \<and>
      refs' h' z \<subseteq> {hp_next h..<hp_next h'}"
    using w(2) assms(4) [OF w(2)] by (simp add: assms(1-3,5))
next
  fix h h' :: "'c heap" and s and v
  assume v: "val' h s = Some v" and same: "\<And>r. r \<in> refs' h s \<Longrightarrow> hp_cell h' r = hp_cell h r"
  then obtain w where w: "val h (part s) = Some w" "mk s w = Some v" using assms(1) by (auto simp: bind_eq_Some_conv)
  then show "val' h' s = Some v" "refs' h' s = refs' h s"
    using local_val [OF w(1), of h'] local_refs [OF w(1), of h'] same by (simp_all add: assms(1,2))
qed

end

section \<open>Plain values\<close>

definition plain_copy :: "('a, 'c) copier" where
  "plain_copy x h = Some (x, h)"

definition plain_val :: "'c heap \<Rightarrow> 'a \<Rightarrow> 'a option" where
  "plain_val h x = Some x"

definition plain_refs :: "'c heap \<Rightarrow> 'a \<Rightarrow> addr set" where
  "plain_refs h x = {}"

lemmas plain_defs = plain_copy_def plain_val_def plain_refs_def

interpretation plain: deep_copy plain_val plain_refs plain_copy
  by unfold_locales (auto simp: plain_defs grows_refl)

section \<open>Two fields\<close>

definition pair_copy :: "('a, 'c) copier \<Rightarrow> ('b, 'c) copier \<Rightarrow> ('a \<times> 'b, 'c) copier" where
  "pair_copy f g x h = do { (a, h) \<leftarrow> f (fst x) h; (b, h) \<leftarrow> g (snd x) h; Some ((a, b), h) }"

definition pair_val ::
  "('c heap \<Rightarrow> 'a \<Rightarrow> 'v option) \<Rightarrow> ('c heap \<Rightarrow> 'b \<Rightarrow> 'w option) \<Rightarrow> 'c heap \<Rightarrow> 'a \<times> 'b \<Rightarrow> ('v \<times> 'w) option" where
  "pair_val f g h x = do { v \<leftarrow> f h (fst x); w \<leftarrow> g h (snd x); Some (v, w) }"

definition pair_refs ::
  "('c heap \<Rightarrow> 'a \<Rightarrow> addr set) \<Rightarrow> ('c heap \<Rightarrow> 'b \<Rightarrow> addr set) \<Rightarrow> 'c heap \<Rightarrow> 'a \<times> 'b \<Rightarrow> addr set" where
  "pair_refs f g h x = f h (fst x) \<union> g h (snd x)"

lemma pair_val_Some: "pair_val f g h x = Some y \<longleftrightarrow> f h (fst x) = Some (fst y) \<and> g h (snd x) = Some (snd y)"
  by (auto simp: pair_val_def bind_eq_Some_conv)

locale two_copies = l: deep_copy val1 refs1 copy1 + r: deep_copy val2 refs2 copy2
  for val1 :: "'c heap \<Rightarrow> 'a \<Rightarrow> 'v option" and refs1 copy1 and val2 :: "'c heap \<Rightarrow> 'b \<Rightarrow> 'w option" and refs2 copy2
begin

lemma pair: "deep_copy (pair_val val1 val2) (pair_refs refs1 refs2) (pair_copy copy1 copy2)"
proof
  fix h :: "'c heap" and x y
  assume h: "wf_heap h" "pair_val val1 val2 h x = Some y"
  then have v: "val1 h (fst x) = Some (fst y)" "val2 h (snd x) = Some (snd y)" by (simp_all add: pair_val_Some)
  show "r \<in> pair_refs refs1 refs2 h x \<Longrightarrow> r < hp_next h" for r
    using l.reach [OF h(1) v(1)] r.reach [OF h(1) v(2)] by (auto simp: pair_refs_def)
  obtain a h1 where 1: "copy1 (fst x) h = Some (a, h1)" "wf_heap h1" "grows h h1" "val1 h1 a = Some (fst y)"
    "refs1 h1 a \<subseteq> {hp_next h..<hp_next h1}"
    using l.copies [OF h(1) v(1)] by blast
  obtain b h2 where 2: "copy2 (snd x) h1 = Some (b, h2)" "wf_heap h2" "grows h1 h2" "val2 h2 b = Some (snd y)"
    "refs2 h2 b \<subseteq> {hp_next h1..<hp_next h2}"
    using r.copies [OF 1(2) r.kept(1) [OF h(1) v(2) 1(3)]] by blast
  note kept = l.kept [OF 1(2,4) 2(3)]
  have "hp_next h \<le> hp_next h1" "hp_next h1 \<le> hp_next h2" using 1(3) 2(3) by (simp_all add: grows_def)
  then have "refs1 h2 a \<union> refs2 h2 b \<subseteq> {hp_next h..<hp_next h2}" unfolding kept(2) using 1(5) 2(5) by fastforce
  then show "\<exists>z h'. pair_copy copy1 copy2 x h = Some (z, h') \<and> wf_heap h' \<and> grows h h' \<and>
      pair_val val1 val2 h' z = Some y \<and> pair_refs refs1 refs2 h' z \<subseteq> {hp_next h..<hp_next h'}"
    using 1 2 kept(1) grows_trans [OF 1(3) 2(3)] by (simp add: pair_copy_def pair_val_Some pair_refs_def)
next
  fix h h' :: "'c heap" and x y
  assume "pair_val val1 val2 h x = Some y" "\<And>r. r \<in> pair_refs refs1 refs2 h x \<Longrightarrow> hp_cell h' r = hp_cell h r"
  then have v: "val1 h (fst x) = Some (fst y)" "val2 h (snd x) = Some (snd y)"
    and same: "\<And>r. r \<in> refs1 h (fst x) \<Longrightarrow> hp_cell h' r = hp_cell h r"
      "\<And>r. r \<in> refs2 h (snd x) \<Longrightarrow> hp_cell h' r = hp_cell h r"
    by (auto simp: pair_val_Some pair_refs_def)
  show "pair_val val1 val2 h' x = Some y" "pair_refs refs1 refs2 h' x = pair_refs refs1 refs2 h x"
    using l.local_val [OF v(1) same(1)] r.local_val [OF v(2) same(2)]
      l.local_refs [OF v(1) same(1)] r.local_refs [OF v(2) same(2)]
    by (simp_all add: pair_val_Some pair_refs_def)
qed

end

lemma pair_deep:
  "deep_copy v1 r1 c1 \<Longrightarrow> deep_copy v2 r2 c2 \<Longrightarrow> deep_copy (pair_val v1 v2) (pair_refs r1 r2) (pair_copy c1 c2)"
  by (rule two_copies.pair) (rule two_copies.intro)

end
