(* ===== verification/GoPointers.thy ===== *)
theory GoPointers
  imports GoHeap
begin

text \<open>
  Pointers and slices: the code that \<open>controller-gen\<close> emits for a field of such a type, for any way of
  copying what it refers to, and the contract of \<open>DeepCopyInto\<close> for it.
\<close>

section \<open>Cells of one type\<close>

text \<open>One of the types that the cells hold: its injection, and the projection back.\<close>

locale cell_type =
  fixes mk :: "'a \<Rightarrow> 'c" and un :: "'c \<Rightarrow> 'a option"
  assumes un_mk: "un (mk x) = Some x"

section \<open>Pointers\<close>

text \<open>The emitted code for a pointer: a nil pointer stays nil; otherwise \<open>new\<close>, then the referent is copied
  into the new cell.\<close>

definition pointer_copy :: "('a \<Rightarrow> 'c) \<Rightarrow> ('c \<Rightarrow> 'a option) \<Rightarrow> 'a \<Rightarrow> ('a, 'c) copier \<Rightarrow> (addr option, 'c) copier" where
  "pointer_copy mk un zero copy p h =
     (case p of
        None \<Rightarrow> Some (None, h)
      | Some a \<Rightarrow> do {
          let (q, h) = alloc (mk zero) h;
          x \<leftarrow> load un a h;
          (y, h) \<leftarrow> copy x h;
          Some (Some q, store q (mk y) h)
        })"

definition pointer_val ::
  "('c \<Rightarrow> 'a option) \<Rightarrow> ('c heap \<Rightarrow> 'a \<Rightarrow> 'v option) \<Rightarrow> 'c heap \<Rightarrow> addr option \<Rightarrow> 'v option option" where
  "pointer_val un val h p =
     (case p of None \<Rightarrow> Some None | Some a \<Rightarrow> map_option Some (Option.bind (load un a h) (val h)))"

definition pointer_refs ::
  "('c \<Rightarrow> 'a option) \<Rightarrow> ('c heap \<Rightarrow> 'a \<Rightarrow> addr set) \<Rightarrow> 'c heap \<Rightarrow> addr option \<Rightarrow> addr set" where
  "pointer_refs un refs h p =
     (case p of None \<Rightarrow> {} | Some a \<Rightarrow> insert a (case load un a h of None \<Rightarrow> {} | Some x \<Rightarrow> refs h x))"

lemma load_less: "wf_heap h \<Longrightarrow> load un a h = Some x \<Longrightarrow> a < hp_next h"
  by (auto simp: load_def wf_heap_def bind_eq_Some_conv)

lemma load_grows: "wf_heap h \<Longrightarrow> load un a h = Some x \<Longrightarrow> grows h h' \<Longrightarrow> load un a h' = Some x"
  using load_less [of h un a x] by (simp add: load_def grows_def)

lemma load_cong: "hp_cell h' a = hp_cell h a \<Longrightarrow> load un a h' = load un a h"
  by (simp add: load_def)

locale boxed = cell_type mk un + deep_copy val refs copy
  for mk :: "'a \<Rightarrow> 'c" and un and val :: "'c heap \<Rightarrow> 'a \<Rightarrow> 'v option" and refs copy +
  fixes zero :: 'a
begin

lemma load_store [simp]: "load un q (store q (mk y) h) = Some y"
  by (simp add: load_def un_mk)

text \<open>A value is unaffected by writing a cell that it does not reach.\<close>

lemma val_store:
  assumes "val h x = Some v" "q \<notin> refs h x"
  shows "val (store q c h) x = Some v" "refs (store q c h) x = refs h x"
  by (rule local_val [OF assms(1)] local_refs [OF assms(1)]; use assms(2) in auto)+

lemma pointer: "deep_copy (pointer_val un val) (pointer_refs un refs) (pointer_copy mk un zero copy)"
proof
  fix h :: "'c heap" and p :: "addr option" and w
  assume h: "wf_heap h" "pointer_val un val h p = Some w"
  show "r \<in> pointer_refs un refs h p \<Longrightarrow> r < hp_next h" for r
    using h(2) load_less [OF h(1)] reach [OF h(1)]
    by (auto simp: pointer_val_def pointer_refs_def bind_eq_Some_conv split: option.splits)
  show "\<exists>z h'. pointer_copy mk un zero copy p h = Some (z, h') \<and> wf_heap h' \<and> grows h h' \<and>
      pointer_val un val h' z = Some w \<and> pointer_refs un refs h' z \<subseteq> {hp_next h..<hp_next h'}"
  proof (cases p)
    case None
    then show ?thesis using h by (auto simp: pointer_copy_def pointer_val_def pointer_refs_def grows_refl)
  next
    case (Some a)
    then obtain x v where x: "load un a h = Some x" "val h x = Some v" "w = Some v"
      using h(2) by (auto simp: pointer_val_def bind_eq_Some_conv)
    obtain q h1 where q: "alloc (mk zero) h = (q, h1)" by (meson surj_pair)
    note new = alloc_facts [OF q]
    have h1: "wf_heap h1" "val h1 x = Some v" "load un a h1 = Some x"
      using new(5) [OF h(1)] kept(1) [OF h(1) x(2) new(4)] load_grows [OF h(1) x(1) new(4)] by auto
    obtain y h2 where y: "copy x h1 = Some (y, h2)" "wf_heap h2" "grows h1 h2" "val h2 y = Some v"
      "refs h2 y \<subseteq> {hp_next h1..<hp_next h2}"
      using copies [OF h1(1,2)] by blast
    have q2: "q < hp_next h2" "q \<notin> refs h2 y" "hp_next h \<le> hp_next h2"
      using y(3,5) new(1,2) by (auto simp: grows_def)
    note out = val_store [OF y(4) q2(2), of "mk y"]
    have "pointer_copy mk un zero copy p h = Some (Some q, store q (mk y) h2)"
      using Some q h1(3) y(1) by (simp add: pointer_copy_def)
    moreover have "grows h (store q (mk y) h2)"
      using store_grows [OF grows_trans [OF new(4) y(3)]] new(1) by simp
    moreover have "pointer_refs un refs (store q (mk y) h2) (Some q) \<subseteq> {hp_next h..<hp_next h2}"
      using y(5) q2 new(1,2) out(2) by (auto simp: pointer_refs_def)
    ultimately show ?thesis
      using store_wf [OF y(2) q2(1)] x(3) by (simp add: pointer_val_def out(1))
  qed
next
  fix h h' :: "'c heap" and p :: "addr option" and w
  assume w: "pointer_val un val h p = Some w" and same: "\<And>r. r \<in> pointer_refs un refs h p \<Longrightarrow> hp_cell h' r = hp_cell h r"
  have "pointer_val un val h' p = Some w \<and> pointer_refs un refs h' p = pointer_refs un refs h p"
  proof (cases p)
    case (Some a)
    then obtain x v where x: "load un a h = Some x" "val h x = Some v" "w = Some v"
      using w by (auto simp: pointer_val_def bind_eq_Some_conv)
    have "load un a h' = Some x" using same [of a] Some x(1) by (simp add: pointer_refs_def load_def)
    moreover have "\<And>r. r \<in> refs h x \<Longrightarrow> hp_cell h' r = hp_cell h r"
      using same Some x(1) by (simp add: pointer_refs_def)
    note local_val [OF x(2) this] local_refs [OF x(2) this]
    ultimately show ?thesis using Some x by (simp add: pointer_val_def pointer_refs_def)
  qed (use w in \<open>simp add: pointer_val_def pointer_refs_def\<close>)
  then show "pointer_val un val h' p = Some w" "pointer_refs un refs h' p = pointer_refs un refs h p" by simp_all
qed

end

section \<open>Slices\<close>

text \<open>A slice header: nil, or a window of an array cell.\<close>

datatype slice = NilSlice | Slice addr nat nat

text \<open>The emitted loop: \<open>(*in)[i].DeepCopyInto(&(*out)[i])\<close> for every index of the range.\<close>

fun copy_elems :: "('a list \<Rightarrow> 'c) \<Rightarrow> ('c \<Rightarrow> 'a list option) \<Rightarrow> ('a, 'c) copier \<Rightarrow> addr \<Rightarrow> nat \<Rightarrow> addr \<Rightarrow>
    nat list \<Rightarrow> 'c heap \<Rightarrow> 'c heap option" where
  "copy_elems mk un copy a off q [] h = Some h"
| "copy_elems mk un copy a off q (i # is) h = do {
     xs \<leftarrow> load un a h;
     x \<leftarrow> (if off + i < length xs then Some (xs ! (off + i)) else None);
     (y, h) \<leftarrow> copy x h;
     ys \<leftarrow> load un q h;
     (if i < length ys then copy_elems mk un copy a off q is (store q (mk (ys[i := y])) h) else None)
   }"

definition slice_copy :: "('a list \<Rightarrow> 'c) \<Rightarrow> ('c \<Rightarrow> 'a list option) \<Rightarrow> 'a \<Rightarrow> ('a, 'c) copier \<Rightarrow> (slice, 'c) copier" where
  "slice_copy mk un zero copy s h =
     (case s of
        NilSlice \<Rightarrow> Some (NilSlice, h)
      | Slice a off n \<Rightarrow> do {
          let (q, h) = alloc (mk (replicate n zero)) h;
          h \<leftarrow> copy_elems mk un copy a off q [0..<n] h;
          Some (Slice q 0 n, h)
        })"

text \<open>The elements of a window.\<close>

definition window :: "('c \<Rightarrow> 'a list option) \<Rightarrow> 'c heap \<Rightarrow> addr \<Rightarrow> nat \<Rightarrow> nat \<Rightarrow> 'a list option" where
  "window un h a off n =
     Option.bind (load un a h) (\<lambda>xs. if off + n \<le> length xs then Some (take n (drop off xs)) else None)"

definition slice_val ::
  "('c \<Rightarrow> 'a list option) \<Rightarrow> ('c heap \<Rightarrow> 'a \<Rightarrow> 'v option) \<Rightarrow> 'c heap \<Rightarrow> slice \<Rightarrow> 'v list option option" where
  "slice_val un val h s =
     (case s of
        NilSlice \<Rightarrow> Some None
      | Slice a off n \<Rightarrow> map_option Some (Option.bind (window un h a off n) (\<lambda>xs. those (map (val h) xs))))"

definition slice_refs ::
  "('c \<Rightarrow> 'a list option) \<Rightarrow> ('c heap \<Rightarrow> 'a \<Rightarrow> addr set) \<Rightarrow> 'c heap \<Rightarrow> slice \<Rightarrow> addr set" where
  "slice_refs un refs h s =
     (case s of
        NilSlice \<Rightarrow> {}
      | Slice a off n \<Rightarrow> insert a (case window un h a off n of None \<Rightarrow> {} | Some xs \<Rightarrow> (\<Union>x \<in> set xs. refs h x)))"

lemma those_eq: "those os = Some vs \<longleftrightarrow> os = map Some vs"
proof (induction os arbitrary: vs)
  case (Cons x os)
  then show ?case by (cases x) (auto simp: Cons_eq_map_conv)
qed auto

lemma those_map: "those (map f xs) = Some vs \<longleftrightarrow> length vs = length xs \<and> (\<forall>i < length xs. f (xs ! i) = Some (vs ! i))"
  by (auto simp: those_eq list_eq_iff_nth_eq)

locale sliced = cell_type mk un + deep_copy val refs copy
  for mk :: "'a list \<Rightarrow> 'c" and un and val :: "'c heap \<Rightarrow> 'a \<Rightarrow> 'v option" and refs copy +
  fixes zero :: 'a
begin

lemma load_store [simp]: "load un q (store q (mk y) h) = Some y"
  by (simp add: load_def un_mk)

text \<open>The loop, from the index where it stands: what is already copied stays copied.\<close>

definition filled :: "'c heap \<Rightarrow> 'c heap \<Rightarrow> addr \<Rightarrow> 'v list \<Rightarrow> nat \<Rightarrow> bool" where
  "filled h0 h q vs i \<longleftrightarrow> (\<exists>ys. load un q h = Some ys \<and> length ys = length vs \<and>
     (\<forall>j < i. val h (ys ! j) = Some (vs ! j) \<and> refs h (ys ! j) \<subseteq> {Suc q..<hp_next h}))"

lemma filled_next:
  assumes "filled h0 h q vs i" "wf_heap h" "grows h h'" "i < length vs" "val h' y = Some (vs ! i)"
    "refs h' y \<subseteq> {hp_next h..<hp_next h'}" "q < hp_next h"
  shows "\<exists>ys. load un q h' = Some ys \<and> i < length ys \<and> filled h0 (store q (mk (ys[i := y])) h') q vs (Suc i)"
proof -
  obtain ys where ys: "load un q h = Some ys" "length ys = length vs"
    "\<And>j. j < i \<Longrightarrow> val h (ys ! j) = Some (vs ! j) \<and> refs h (ys ! j) \<subseteq> {Suc q..<hp_next h}"
    using assms(1) by (auto simp: filled_def)
  let ?h = "store q (mk (ys[i := y])) h'"
  have lim: "hp_next h \<le> hp_next h'" using assms(3) by (simp add: grows_def)
  have at: "val h' (ys[i := y] ! j) = Some (vs ! j) \<and> refs h' (ys[i := y] ! j) \<subseteq> {Suc q..<hp_next h'}" if "j < Suc i" for j
  proof (cases "j = i")
    case True
    then show ?thesis using assms(4-7) ys(2) by fastforce
  next
    case False
    then have "j < i" using that by simp
    with ys(3) have j: "val h (ys ! j) = Some (vs ! j)" "refs h (ys ! j) \<subseteq> {Suc q..<hp_next h}" by auto
    show ?thesis using kept [OF assms(2) j(1) assms(3)] j(2) False lim by fastforce
  qed
  have "val ?h (ys[i := y] ! j) = Some (vs ! j) \<and> refs ?h (ys[i := y] ! j) \<subseteq> {Suc q..<hp_next h'}" if "j < Suc i" for j
  proof -
    have v: "val h' (ys[i := y] ! j) = Some (vs ! j)" and r: "refs h' (ys[i := y] ! j) \<subseteq> {Suc q..<hp_next h'}"
      using at [OF that] by auto
    have same: "\<And>r. r \<in> refs h' (ys[i := y] ! j) \<Longrightarrow> hp_cell ?h r = hp_cell h' r" using r by auto
    show ?thesis using local_val [OF v same] local_refs [OF v same] r by simp
  qed
  then show ?thesis
    using load_grows [OF assms(2) ys(1) assms(3)] ys(2) assms(4) by (auto simp: filled_def)
qed

lemma copy_elems_run:
  assumes "wf_heap h" "grows h0 h" "wf_heap h0" "window un h0 a off n = Some xs" "those (map (val h0) xs) = Some vs"
    "q = hp_next h0" "q < hp_next h" "filled h0 h q vs i" "i \<le> n"
  shows "\<exists>h'. copy_elems mk un copy a off q [i..<n] h = Some h' \<and> wf_heap h' \<and> grows h0 h' \<and> q < hp_next h' \<and>
    filled h0 h' q vs n"
  using assms(1,2,7-9)
proof (induction "n - i" arbitrary: i h)
  case 0
  then show ?case by simp
next
  case (Suc k)
  obtain zs where zs: "load un a h0 = Some zs" "off + n \<le> length zs" "xs = take n (drop off zs)"
    using assms(4) by (auto simp: window_def bind_eq_Some_conv split: if_splits)
  have len: "length xs = n" "length vs = n" using zs(2,3) assms(5) by (simp_all add: those_map)
  have i: "i < n" "[i..<n] = i # [Suc i..<n]" using Suc(2) by (simp_all add: upt_rec)
  have x: "load un a h = Some zs" "zs ! (off + i) = xs ! i" "off + i < length zs"
    using load_grows [OF assms(3) zs(1) Suc(4)] zs(2,3) i(1) by simp_all
  have "val h0 (xs ! i) = Some (vs ! i)" using assms(5) i(1) len by (simp add: those_map)
  from kept(1) [OF assms(3) this Suc(4)] copies [OF Suc(3)] obtain y h1 where
    y: "copy (xs ! i) h = Some (y, h1)" "wf_heap h1" "grows h h1" "val h1 y = Some (vs ! i)"
      "refs h1 y \<subseteq> {hp_next h..<hp_next h1}" by blast
  obtain ys where ys: "load un q h1 = Some ys" "i < length ys" "filled h0 (store q (mk (ys[i := y])) h1) q vs (Suc i)"
    using filled_next [OF Suc(6,3) y(3) _ y(4,5) Suc(5)] i(1) len(2) by blast
  have q1: "q < hp_next h1" using Suc(5) y(3) by (simp add: grows_def)
  have h2: "wf_heap (store q (mk (ys[i := y])) h1)" "grows h0 (store q (mk (ys[i := y])) h1)"
    using store_wf [OF y(2) q1] store_grows [OF grows_trans [OF Suc(4) y(3)]] assms(6) by auto
  have k: "k = n - Suc i" using Suc(2) by simp
  obtain h' where "copy_elems mk un copy a off q [Suc i..<n] (store q (mk (ys[i := y])) h1) = Some h'"
    "wf_heap h'" "grows h0 h'" "q < hp_next h'" "filled h0 h' q vs n"
    using Suc(1) [OF k h2 _ ys(3)] q1 i(1) by auto
  then show ?case using x y(1) ys(1,2) i(2) by simp
qed

lemma slice: "deep_copy (slice_val un val) (slice_refs un refs) (slice_copy mk un zero copy)"
proof
  fix h :: "'c heap" and s :: slice and w
  assume h: "wf_heap h" "slice_val un val h s = Some w"
  show "r < hp_next h" if r: "r \<in> slice_refs un refs h s" for r
  proof (cases s)
    case (Slice a off n)
    then obtain xs vs where xs: "window un h a off n = Some xs" "those (map (val h) xs) = Some vs"
      using h(2) by (auto simp: slice_val_def bind_eq_Some_conv)
    then obtain ys where ys: "load un a h = Some ys" by (auto simp: window_def bind_eq_Some_conv)
    from r Slice xs(1) consider "r = a" | x where "x \<in> set xs" "r \<in> refs h x" by (auto simp: slice_refs_def)
    then show ?thesis
    proof cases
      case 2
      then obtain v where "val h x = Some v" using xs(2) by (auto simp: those_map in_set_conv_nth)
      then show ?thesis using reach [OF h(1)] 2(2) by blast
    qed (use load_less [OF h(1) ys] in simp)
  qed (use r in \<open>simp add: slice_refs_def\<close>)
  show "\<exists>z h'. slice_copy mk un zero copy s h = Some (z, h') \<and> wf_heap h' \<and> grows h h' \<and>
      slice_val un val h' z = Some w \<and> slice_refs un refs h' z \<subseteq> {hp_next h..<hp_next h'}"
  proof (cases s)
    case NilSlice
    then show ?thesis using h by (auto simp: slice_copy_def slice_val_def slice_refs_def grows_refl)
  next
    case (Slice a off n)
    then obtain xs vs where xs: "window un h a off n = Some xs" "those (map (val h) xs) = Some vs" "w = Some vs"
      using h(2) by (auto simp: slice_val_def bind_eq_Some_conv)
    then have n: "length vs = n" by (auto simp: window_def bind_eq_Some_conv those_map split: if_splits)
    obtain q h1 where q: "alloc (mk (replicate n zero)) h = (q, h1)" by (meson surj_pair)
    note new = alloc_facts [OF q]
    have "filled h h1 q vs 0" using new(3) n by (simp add: filled_def load_def un_mk)
    from copy_elems_run [OF new(5) [OF h(1)] new(4) h(1) xs(1,2) new(1) _ this] new(1,2)
    obtain h2 where h2: "copy_elems mk un copy a off q [0..<n] h1 = Some h2" "wf_heap h2" "grows h h2" "q < hp_next h2"
      "filled h h2 q vs n" by auto
    obtain ys where ys: "load un q h2 = Some ys" "length ys = n"
      "\<And>j. j < n \<Longrightarrow> val h2 (ys ! j) = Some (vs ! j) \<and> refs h2 (ys ! j) \<subseteq> {Suc q..<hp_next h2}"
      using h2(5) n by (auto simp: filled_def)
    have win: "window un h2 q 0 n = Some ys" using ys(1,2) by (simp add: window_def)
    have "slice_copy mk un zero copy s h = Some (Slice q 0 n, h2)"
      using Slice q h2(1) by (simp add: slice_copy_def)
    moreover have "slice_val un val h2 (Slice q 0 n) = Some w"
      using win ys(2,3) n xs(3) by (simp add: slice_val_def those_map)
    moreover have "slice_refs un refs h2 (Slice q 0 n) \<subseteq> {hp_next h..<hp_next h2}"
      using win ys(2,3) h2(4) new(1) by (fastforce simp: slice_refs_def in_set_conv_nth)
    ultimately show ?thesis using h2(2,3) by blast
  qed
next
  fix h h' :: "'c heap" and s :: slice and w
  assume w: "slice_val un val h s = Some w" and same: "\<And>r. r \<in> slice_refs un refs h s \<Longrightarrow> hp_cell h' r = hp_cell h r"
  have "slice_val un val h' s = Some w \<and> slice_refs un refs h' s = slice_refs un refs h s"
  proof (cases s)
    case (Slice a off n)
    then obtain xs vs where xs: "window un h a off n = Some xs" "those (map (val h) xs) = Some vs" "w = Some vs"
      using w by (auto simp: slice_val_def bind_eq_Some_conv)
    have win: "window un h' a off n = Some xs"
      using same [of a] Slice xs(1) by (simp add: slice_refs_def window_def load_def)
    have "val h' x = val h x \<and> refs h' x = refs h x" if x: "x \<in> set xs" for x
    proof -
      obtain v where v: "val h x = Some v" using xs(2) x by (auto simp: those_map in_set_conv_nth)
      have "\<And>r. r \<in> refs h x \<Longrightarrow> hp_cell h' r = hp_cell h r"
        using same Slice xs(1) x by (auto simp: slice_refs_def)
      from local_val [OF v this] local_refs [OF v this] v show ?thesis by simp
    qed
    then show ?thesis using Slice win xs by (simp add: slice_val_def slice_refs_def cong: map_cong)
  qed (use w in \<open>simp add: slice_val_def slice_refs_def\<close>)
  then show "slice_val un val h' s = Some w" "slice_refs un refs h' s = slice_refs un refs h s" by simp_all
qed

end

end
