(* ===== verification/ApiObjects.thy ===== *)
theory ApiObjects
  imports GoPointers FirmwareApi DriverApi
begin

text \<open>
  The structs of \<open>api/firmware/v1alpha1/types.go\<close> and \<open>api/driver/v1alpha1/types.go\<close> as they lie in memory,
  with pointers and slices, the cells that hold them, and the library types inside them, whose copy
  functions are not in the repository.
\<close>

section \<open>Library types\<close>

text \<open>Structs of apimachinery (\<open>LabelSelector\<close>, \<open>Condition\<close>, \<open>Time\<close>, \<open>ObjectMeta\<close>, \<open>ListMeta\<close>) are values of the
  parameter type \<open>'l\<close>. \<open>TypeMeta\<close> has two strings.\<close>

record type_meta =
  tm_kind :: string
  tm_api :: string

record meta_value =
  mv_name :: string
  mv_uid :: string
  mv_generation :: int64
  mv_deleted :: "instant option"

record list_meta =
  lm_version :: string
  lm_continue :: string
  lm_remaining :: "int option"

section \<open>Firmware structs\<close>

record fw_drain_obj =
  fdo_enable :: "addr option"
  fdo_force :: bool
  fdo_delete_empty_dir :: "addr option"
  fdo_timeout :: int32

record fw_upgrade_obj =
  fuo_auto :: "addr option"
  fuo_max_parallel :: int32
  fuo_flash_timeout :: int32
  fuo_drain :: fw_drain_obj
  fuo_halt :: "addr option"

record fw_spec_obj =
  fso_version :: string
  fso_readback :: string
  fso_bundle_url :: string
  fso_affinity :: "addr option"
  fso_selector :: "addr option"
  fso_paused :: bool
  fso_upgrade :: fw_upgrade_obj
  fso_flasher :: "addr option"

record 'l fw_node_obj =
  fno_name :: string
  fno_state :: string
  fno_reason :: string
  fno_current :: string
  fno_job :: string
  fno_msg :: string
  fno_time :: 'l

record fw_status_obj =
  fto_observed :: int64
  fto_desired :: string
  fto_conds :: slice
  fto_summary :: fw_summary
  fto_nodes :: slice

record 'l fw_policy_obj =
  fpo_type :: type_meta
  fpo_meta :: 'l
  fpo_spec :: fw_spec_obj
  fpo_status :: fw_status_obj

record 'l fw_list_obj =
  flo_type :: type_meta
  flo_meta :: 'l
  flo_items :: slice

section \<open>Driver structs\<close>

record drv_drain_obj =
  ddo_enable :: "addr option"
  ddo_full_node :: "addr option"
  ddo_pod_selector :: string
  ddo_force :: bool
  ddo_delete_empty_dir :: "addr option"
  ddo_timeout :: int32

record drv_upgrade_obj =
  duo_drain :: drv_drain_obj
  duo_force_unload :: bool

record drv_spec_obj =
  dso_version :: string
  dso_affinity :: "addr option"
  dso_selector :: "addr option"
  dso_paused :: bool
  dso_upgrade :: drv_upgrade_obj
  dso_installer :: "addr option"

record 'l drv_node_obj =
  dno_name :: string
  dno_state :: string
  dno_reason :: string
  dno_current :: string
  dno_msg :: string
  dno_time :: 'l

record drv_status_obj =
  dto_observed :: int64
  dto_desired :: string
  dto_conds :: slice
  dto_summary :: drv_summary
  dto_daemonset :: string
  dto_nodes :: slice

record 'l drv_policy_obj =
  dpo_type :: type_meta
  dpo_meta :: 'l
  dpo_spec :: drv_spec_obj
  dpo_status :: drv_status_obj

record 'l drv_list_obj =
  dlo_type :: type_meta
  dlo_meta :: 'l
  dlo_items :: slice

section \<open>Cells\<close>

text \<open>Everything that \<open>new\<close> and \<open>make\<close> allocate in the copies; \<open>CLibrary\<close> is what the library allocates.\<close>

datatype 'l cell =
    CBool bool | CLibrary 'l | CSelector 'l | CConditions "'l list"
  | CFwDrain fw_drain_obj | CFwFlasher flasher_override | CFwUpgrade fw_upgrade_obj | CFwSpec fw_spec_obj
  | CFwNode "'l fw_node_obj" | CFwNodes "'l fw_node_obj list" | CFwSummary fw_summary | CFwStatus fw_status_obj
  | CFwPolicy "'l fw_policy_obj" | CFwPolicies "'l fw_policy_obj list" | CFwList "'l fw_list_obj"
  | CDrvDrain drv_drain_obj | CDrvInstaller installer_override | CDrvUpgrade drv_upgrade_obj | CDrvSpec drv_spec_obj
  | CDrvNode "'l drv_node_obj" | CDrvNodes "'l drv_node_obj list" | CDrvSummary drv_summary | CDrvStatus drv_status_obj
  | CDrvPolicy "'l drv_policy_obj" | CDrvPolicies "'l drv_policy_obj list" | CDrvList "'l drv_list_obj"

type_synonym 'l memory = "'l cell heap"

definition un_bool :: "'l cell \<Rightarrow> bool option" where
  "un_bool c = (case c of CBool x \<Rightarrow> Some x | _ \<Rightarrow> None)"

definition un_selector :: "'l cell \<Rightarrow> 'l option" where
  "un_selector c = (case c of CSelector x \<Rightarrow> Some x | _ \<Rightarrow> None)"

definition un_conditions :: "'l cell \<Rightarrow> 'l list option" where
  "un_conditions c = (case c of CConditions x \<Rightarrow> Some x | _ \<Rightarrow> None)"

text \<open>\<open>TypeMeta{}\<close>, and the interface value \<open>runtime.Object\<close>: nil, or a pointer with its dynamic type.\<close>

definition zero_type :: type_meta where
  "zero_type = \<lparr>tm_kind = '''', tm_api = ''''\<rparr>"

datatype object = NilObject | FwPolicyObject addr | FwListObject addr | DrvPolicyObject addr | DrvListObject addr

section \<open>The library's copy functions\<close>

text \<open>The \<open>DeepCopyInto\<close> methods of the library structs and their zero values.\<close>

record 'l library =
  lc_selector :: "('l, 'l cell) copier"
  lc_condition :: "('l, 'l cell) copier"
  lc_time :: "('l, 'l cell) copier"
  lc_meta :: "('l, 'l cell) copier"
  lc_list_meta :: "('l, 'l cell) copier"
  lz_selector :: 'l
  lz_condition :: 'l
  lz_time :: 'l
  lz_meta :: 'l
  lz_list_meta :: 'l

text \<open>What the library structs mean, and the memory they own.\<close>

record 'l meaning =
  lv_selector :: "'l memory \<Rightarrow> 'l \<Rightarrow> label_selector option"
  lv_condition :: "'l memory \<Rightarrow> 'l \<Rightarrow> mcond option"
  lv_time :: "'l memory \<Rightarrow> 'l \<Rightarrow> instant option"
  lv_meta :: "'l memory \<Rightarrow> 'l \<Rightarrow> meta_value option"
  lv_list_meta :: "'l memory \<Rightarrow> 'l \<Rightarrow> list_meta option"
  lr_selector :: "'l memory \<Rightarrow> 'l \<Rightarrow> addr set"
  lr_condition :: "'l memory \<Rightarrow> 'l \<Rightarrow> addr set"
  lr_time :: "'l memory \<Rightarrow> 'l \<Rightarrow> addr set"
  lr_meta :: "'l memory \<Rightarrow> 'l \<Rightarrow> addr set"
  lr_list_meta :: "'l memory \<Rightarrow> 'l \<Rightarrow> addr set"

text \<open>The documented behaviour of the library: its \<open>DeepCopyInto\<close> methods are deep copies.\<close>

definition library_contract :: "'l library \<Rightarrow> 'l meaning \<Rightarrow> bool" where
  "library_contract L M \<longleftrightarrow>
     deep_copy (lv_selector M) (lr_selector M) (lc_selector L) \<and>
     deep_copy (lv_condition M) (lr_condition M) (lc_condition L) \<and>
     deep_copy (lv_time M) (lr_time M) (lc_time L) \<and>
     deep_copy (lv_meta M) (lr_meta M) (lc_meta L) \<and>
     deep_copy (lv_list_meta M) (lr_list_meta M) (lc_list_meta L)"

section \<open>Blocks that the generated code repeats\<close>

text \<open>\<open>*bool\<close>, \<open>*metav1.LabelSelector\<close> and \<open>[]metav1.Condition\<close>.\<close>

definition bool_copy :: "(addr option, 'l cell) copier" where
  "bool_copy = pointer_copy CBool un_bool False plain_copy"

definition bool_val :: "'l memory \<Rightarrow> addr option \<Rightarrow> bool option option" where
  "bool_val = pointer_val un_bool plain_val"

definition bool_refs :: "'l memory \<Rightarrow> addr option \<Rightarrow> addr set" where
  "bool_refs = pointer_refs un_bool plain_refs"

definition selector_copy :: "'l library \<Rightarrow> (addr option, 'l cell) copier" where
  "selector_copy L = pointer_copy CSelector un_selector (lz_selector L) (lc_selector L)"

definition selector_val :: "'l meaning \<Rightarrow> 'l memory \<Rightarrow> addr option \<Rightarrow> label_selector option option" where
  "selector_val M = pointer_val un_selector (lv_selector M)"

definition selector_refs :: "'l meaning \<Rightarrow> 'l memory \<Rightarrow> addr option \<Rightarrow> addr set" where
  "selector_refs M = pointer_refs un_selector (lr_selector M)"

definition conditions_copy :: "'l library \<Rightarrow> (slice, 'l cell) copier" where
  "conditions_copy L = slice_copy CConditions un_conditions (lz_condition L) (lc_condition L)"

definition conditions_val :: "'l meaning \<Rightarrow> 'l memory \<Rightarrow> slice \<Rightarrow> mcond list option option" where
  "conditions_val M = slice_val un_conditions (lv_condition M)"

definition conditions_refs :: "'l meaning \<Rightarrow> 'l memory \<Rightarrow> slice \<Rightarrow> addr set" where
  "conditions_refs M = slice_refs un_conditions (lr_condition M)"

interpretation bool_cell: cell_type CBool un_bool
  by unfold_locales (simp add: un_bool_def)

interpretation bools: boxed CBool un_bool plain_val plain_refs plain_copy False
  by unfold_locales

lemma pointer_deep:
  assumes "\<And>x. un (mk x) = Some x" "deep_copy val refs copy"
  shows "deep_copy (pointer_val un val) (pointer_refs un refs) (pointer_copy mk un zero copy)"
  by (rule boxed.pointer) (intro boxed.intro cell_type.intro assms)

lemma slice_deep:
  assumes "\<And>x. un (mk x) = Some x" "deep_copy val refs copy"
  shows "deep_copy (slice_val un val) (slice_refs un refs) (slice_copy mk un zero copy)"
  by (rule sliced.slice) (intro sliced.intro cell_type.intro assms)

interpretation bool_ptr: deep_copy bool_val bool_refs bool_copy
  unfolding bool_val_def bool_refs_def bool_copy_def by (rule bools.pointer)

lemma selector_deep: "library_contract L M \<Longrightarrow> deep_copy (selector_val M) (selector_refs M) (selector_copy L)"
  unfolding selector_val_def selector_refs_def selector_copy_def
  by (rule pointer_deep) (simp_all add: un_selector_def library_contract_def)

lemma conditions_deep: "library_contract L M \<Longrightarrow> deep_copy (conditions_val M) (conditions_refs M) (conditions_copy L)"
  unfolding conditions_val_def conditions_refs_def conditions_copy_def
  by (rule slice_deep) (simp_all add: un_conditions_def library_contract_def)

text \<open>\<open>DeepCopyObject\<close> wraps the pointer that \<open>DeepCopy\<close> returns.\<close>

lemma object_promise:
  assumes "deep_copy (pointer_val un val) refs copy" "wf_heap h" "pointer_val un val h (Some a) = Some (Some v)"
    "\<And>p h. obj p h = Option.bind (copy p h) (\<lambda>(c, h). Some (case c of Some q \<Rightarrow> (box q, h) | None \<Rightarrow> (NilObject, h)))"
  shows "\<exists>q h'. obj (Some a) h = Some (box q, h') \<and> wf_heap h' \<and> grows h h' \<and>
    held_apart (pointer_val un val) (hp_next h) h' (Some a) (Some q) (Some v)"
proof -
  obtain b h' where b: "copy (Some a) h = Some (b, h')" "wf_heap h'" "grows h h'"
    "held_apart (pointer_val un val) (hp_next h) h' (Some a) b (Some v)"
    using deep_copy.promise [OF assms(1-3)] by blast
  have "pointer_val un val h' b = Some (Some v)" using b(4) by (simp add: held_apart_def)
  then obtain q where "b = Some q" by (auto simp: pointer_val_def split: option.splits)
  then show ?thesis using b by (intro exI [of _ q] exI [of _ h']) (simp add: assms(4))
qed

lemma library_contract_parts:
  assumes "library_contract L M"
  shows "deep_copy (lv_selector M) (lr_selector M) (lc_selector L)" "deep_copy (lv_condition M) (lr_condition M) (lc_condition L)"
    "deep_copy (lv_time M) (lr_time M) (lc_time L)" "deep_copy (lv_meta M) (lr_meta M) (lc_meta L)"
    "deep_copy (lv_list_meta M) (lr_list_meta M) (lc_list_meta L)"
  using assms by (simp_all add: library_contract_def)

interpretation two_bools: two_copies bool_val bool_refs bool_copy bool_val bool_refs bool_copy
  by unfold_locales

text \<open>The list that a slice holds, nil or not.\<close>

definition elements :: "'a list option \<Rightarrow> 'a list" where
  "elements xs = (case xs of None \<Rightarrow> [] | Some xs \<Rightarrow> xs)"

lemma map_option_bind: "map_option f (Option.bind x g) = Option.bind x (\<lambda>a. map_option f (g a))"
  by (cases x) simp_all

text \<open>A chain of copies and field updates is one copy of the fields, put back.\<close>

lemmas copied = pair_copy_def map_option_bind Option.bind_assoc Let_def split_def prod_eq_iff

end
