(* ===== verification/FirmwareDeepCopy.thy ===== *)
theory FirmwareDeepCopy
  imports ApiObjects
begin

text \<open>
  \<open>api/firmware/v1alpha1/zz_generated.deepcopy.go\<close>: the copy methods of the firmware resource, what each
  struct means (the records of \<open>FirmwareApi\<close>), and that every method is a deep copy. A method that
  writes through \<open>out\<close> returns the struct that \<open>*out\<close> ends as; \<open>in\<close> and \<open>out\<close> are different objects.
\<close>

section \<open>Projections and zero values\<close>

definition un_fw_drain :: "'l cell \<Rightarrow> fw_drain_obj option" where
  "un_fw_drain c = (case c of CFwDrain x \<Rightarrow> Some x | _ \<Rightarrow> None)"

definition un_fw_flasher :: "'l cell \<Rightarrow> flasher_override option" where
  "un_fw_flasher c = (case c of CFwFlasher x \<Rightarrow> Some x | _ \<Rightarrow> None)"

definition un_fw_upgrade :: "'l cell \<Rightarrow> fw_upgrade_obj option" where
  "un_fw_upgrade c = (case c of CFwUpgrade x \<Rightarrow> Some x | _ \<Rightarrow> None)"

definition un_fw_spec :: "'l cell \<Rightarrow> fw_spec_obj option" where
  "un_fw_spec c = (case c of CFwSpec x \<Rightarrow> Some x | _ \<Rightarrow> None)"

definition un_fw_node :: "'l cell \<Rightarrow> 'l fw_node_obj option" where
  "un_fw_node c = (case c of CFwNode x \<Rightarrow> Some x | _ \<Rightarrow> None)"

definition un_fw_nodes :: "'l cell \<Rightarrow> 'l fw_node_obj list option" where
  "un_fw_nodes c = (case c of CFwNodes x \<Rightarrow> Some x | _ \<Rightarrow> None)"

definition un_fw_summary :: "'l cell \<Rightarrow> fw_summary option" where
  "un_fw_summary c = (case c of CFwSummary x \<Rightarrow> Some x | _ \<Rightarrow> None)"

definition un_fw_status :: "'l cell \<Rightarrow> fw_status_obj option" where
  "un_fw_status c = (case c of CFwStatus x \<Rightarrow> Some x | _ \<Rightarrow> None)"

definition un_fw_policy :: "'l cell \<Rightarrow> 'l fw_policy_obj option" where
  "un_fw_policy c = (case c of CFwPolicy x \<Rightarrow> Some x | _ \<Rightarrow> None)"

definition un_fw_policies :: "'l cell \<Rightarrow> 'l fw_policy_obj list option" where
  "un_fw_policies c = (case c of CFwPolicies x \<Rightarrow> Some x | _ \<Rightarrow> None)"

definition un_fw_list :: "'l cell \<Rightarrow> 'l fw_list_obj option" where
  "un_fw_list c = (case c of CFwList x \<Rightarrow> Some x | _ \<Rightarrow> None)"

lemmas un_fw_defs = un_fw_drain_def un_fw_flasher_def un_fw_upgrade_def un_fw_spec_def un_fw_node_def
  un_fw_nodes_def un_fw_summary_def un_fw_status_def un_fw_policy_def un_fw_policies_def un_fw_list_def

definition zero_fw_drain :: fw_drain_obj where
  "zero_fw_drain = \<lparr>fdo_enable = None, fdo_force = False, fdo_delete_empty_dir = None, fdo_timeout = 0\<rparr>"

definition zero_flasher :: flasher_override where
  "zero_flasher = \<lparr>fo_image = '''', fo_pull = '''', fo_force_write = False, fo_continue = False, fo_homogenize = False\<rparr>"

definition zero_fw_upgrade :: fw_upgrade_obj where
  "zero_fw_upgrade = \<lparr>fuo_auto = None, fuo_max_parallel = 0, fuo_flash_timeout = 0, fuo_drain = zero_fw_drain, fuo_halt = None\<rparr>"

definition zero_fw_spec :: fw_spec_obj where
  "zero_fw_spec = \<lparr>fso_version = '''', fso_readback = '''', fso_bundle_url = '''', fso_affinity = None, fso_selector = None,
     fso_paused = False, fso_upgrade = zero_fw_upgrade, fso_flasher = None\<rparr>"

definition zero_fw_node :: "'l library \<Rightarrow> 'l fw_node_obj" where
  "zero_fw_node L = \<lparr>fno_name = '''', fno_state = '''', fno_reason = '''', fno_current = '''', fno_job = '''',
     fno_msg = '''', fno_time = lz_time L\<rparr>"

definition zero_fw_summary :: fw_summary where
  "zero_fw_summary = \<lparr>sm_matched = 0, sm_uptodate = 0, sm_inprogress = 0, sm_failed = 0, sm_pending = 0\<rparr>"

definition zero_fw_status :: fw_status_obj where
  "zero_fw_status = \<lparr>fto_observed = 0, fto_desired = '''', fto_conds = NilSlice, fto_summary = zero_fw_summary,
     fto_nodes = NilSlice\<rparr>"

definition zero_fw_policy :: "'l library \<Rightarrow> 'l fw_policy_obj" where
  "zero_fw_policy L = \<lparr>fpo_type = zero_type, fpo_meta = lz_meta L, fpo_spec = zero_fw_spec, fpo_status = zero_fw_status\<rparr>"

definition zero_fw_list :: "'l library \<Rightarrow> 'l fw_list_obj" where
  "zero_fw_list L = \<lparr>flo_type = zero_type, flo_meta = lz_list_meta L, flo_items = NilSlice\<rparr>"

section \<open>DeepCopyInto\<close>

text \<open>\<open>*out = *in\<close> copies the struct with its pointers and slice headers; every field that points elsewhere
  is then replaced by a copy of what it points to.\<close>

definition FwDrainPolicy_DeepCopyInto :: "(fw_drain_obj, 'l cell) copier" where
  "FwDrainPolicy_DeepCopyInto s h = do {
     let out = s;
     (p, h) \<leftarrow> bool_copy (fdo_enable s) h;
     let out = out\<lparr>fdo_enable := p\<rparr>;
     (p, h) \<leftarrow> bool_copy (fdo_delete_empty_dir s) h;
     let out = out\<lparr>fdo_delete_empty_dir := p\<rparr>;
     Some (out, h)
   }"

definition FlasherOverride_DeepCopyInto :: "(flasher_override, 'l cell) copier" where
  "FlasherOverride_DeepCopyInto s h = Some (s, h)"

definition NodeStatus_DeepCopyInto :: "'l library \<Rightarrow> ('l fw_node_obj, 'l cell) copier" where
  "NodeStatus_DeepCopyInto L s h = do {
     let out = s;
     (t, h) \<leftarrow> lc_time L (fno_time s) h;
     Some (out\<lparr>fno_time := t\<rparr>, h)
   }"

definition StatusSummary_DeepCopyInto :: "(fw_summary, 'l cell) copier" where
  "StatusSummary_DeepCopyInto s h = Some (s, h)"

definition FwUpgradePolicy_DeepCopyInto :: "(fw_upgrade_obj, 'l cell) copier" where
  "FwUpgradePolicy_DeepCopyInto s h = do {
     let out = s;
     (p, h) \<leftarrow> bool_copy (fuo_auto s) h;
     let out = out\<lparr>fuo_auto := p\<rparr>;
     (d, h) \<leftarrow> FwDrainPolicy_DeepCopyInto (fuo_drain s) h;
     let out = out\<lparr>fuo_drain := d\<rparr>;
     (p, h) \<leftarrow> bool_copy (fuo_halt s) h;
     let out = out\<lparr>fuo_halt := p\<rparr>;
     Some (out, h)
   }"

definition TenstorrentFirmwarePolicySpec_DeepCopyInto :: "'l library \<Rightarrow> (fw_spec_obj, 'l cell) copier" where
  "TenstorrentFirmwarePolicySpec_DeepCopyInto L s h = do {
     let out = s;
     (p, h) \<leftarrow> selector_copy L (fso_affinity s) h;
     let out = out\<lparr>fso_affinity := p\<rparr>;
     (p, h) \<leftarrow> selector_copy L (fso_selector s) h;
     let out = out\<lparr>fso_selector := p\<rparr>;
     (u, h) \<leftarrow> FwUpgradePolicy_DeepCopyInto (fso_upgrade s) h;
     let out = out\<lparr>fso_upgrade := u\<rparr>;
     (p, h) \<leftarrow> pointer_copy CFwFlasher un_fw_flasher zero_flasher plain_copy (fso_flasher s) h;
     let out = out\<lparr>fso_flasher := p\<rparr>;
     Some (out, h)
   }"

definition TenstorrentFirmwarePolicyStatus_DeepCopyInto :: "'l library \<Rightarrow> (fw_status_obj, 'l cell) copier" where
  "TenstorrentFirmwarePolicyStatus_DeepCopyInto L s h = do {
     let out = s;
     (c, h) \<leftarrow> conditions_copy L (fto_conds s) h;
     let out = out\<lparr>fto_conds := c\<rparr>;
     let out = out\<lparr>fto_summary := fto_summary s\<rparr>;
     (n, h) \<leftarrow> slice_copy CFwNodes un_fw_nodes (zero_fw_node L) (NodeStatus_DeepCopyInto L) (fto_nodes s) h;
     let out = out\<lparr>fto_nodes := n\<rparr>;
     Some (out, h)
   }"

definition TenstorrentFirmwarePolicy_DeepCopyInto :: "'l library \<Rightarrow> ('l fw_policy_obj, 'l cell) copier" where
  "TenstorrentFirmwarePolicy_DeepCopyInto L s h = do {
     let out = s;
     let out = out\<lparr>fpo_type := fpo_type s\<rparr>;
     (m, h) \<leftarrow> lc_meta L (fpo_meta s) h;
     let out = out\<lparr>fpo_meta := m\<rparr>;
     (x, h) \<leftarrow> TenstorrentFirmwarePolicySpec_DeepCopyInto L (fpo_spec s) h;
     let out = out\<lparr>fpo_spec := x\<rparr>;
     (x, h) \<leftarrow> TenstorrentFirmwarePolicyStatus_DeepCopyInto L (fpo_status s) h;
     let out = out\<lparr>fpo_status := x\<rparr>;
     Some (out, h)
   }"

definition TenstorrentFirmwarePolicyList_DeepCopyInto :: "'l library \<Rightarrow> ('l fw_list_obj, 'l cell) copier" where
  "TenstorrentFirmwarePolicyList_DeepCopyInto L s h = do {
     let out = s;
     let out = out\<lparr>flo_type := flo_type s\<rparr>;
     (m, h) \<leftarrow> lc_list_meta L (flo_meta s) h;
     let out = out\<lparr>flo_meta := m\<rparr>;
     (i, h) \<leftarrow> slice_copy CFwPolicies un_fw_policies (zero_fw_policy L) (TenstorrentFirmwarePolicy_DeepCopyInto L)
       (flo_items s) h;
     let out = out\<lparr>flo_items := i\<rparr>;
     Some (out, h)
   }"

section \<open>DeepCopy and DeepCopyObject\<close>

definition FwDrainPolicy_DeepCopy :: "(addr option, 'l cell) copier" where
  "FwDrainPolicy_DeepCopy = pointer_copy CFwDrain un_fw_drain zero_fw_drain FwDrainPolicy_DeepCopyInto"

definition FlasherOverride_DeepCopy :: "(addr option, 'l cell) copier" where
  "FlasherOverride_DeepCopy = pointer_copy CFwFlasher un_fw_flasher zero_flasher FlasherOverride_DeepCopyInto"

definition NodeStatus_DeepCopy :: "'l library \<Rightarrow> (addr option, 'l cell) copier" where
  "NodeStatus_DeepCopy L = pointer_copy CFwNode un_fw_node (zero_fw_node L) (NodeStatus_DeepCopyInto L)"

definition StatusSummary_DeepCopy :: "(addr option, 'l cell) copier" where
  "StatusSummary_DeepCopy = pointer_copy CFwSummary un_fw_summary zero_fw_summary StatusSummary_DeepCopyInto"

definition FwUpgradePolicy_DeepCopy :: "(addr option, 'l cell) copier" where
  "FwUpgradePolicy_DeepCopy = pointer_copy CFwUpgrade un_fw_upgrade zero_fw_upgrade FwUpgradePolicy_DeepCopyInto"

definition TenstorrentFirmwarePolicySpec_DeepCopy :: "'l library \<Rightarrow> (addr option, 'l cell) copier" where
  "TenstorrentFirmwarePolicySpec_DeepCopy L =
     pointer_copy CFwSpec un_fw_spec zero_fw_spec (TenstorrentFirmwarePolicySpec_DeepCopyInto L)"

definition TenstorrentFirmwarePolicyStatus_DeepCopy :: "'l library \<Rightarrow> (addr option, 'l cell) copier" where
  "TenstorrentFirmwarePolicyStatus_DeepCopy L =
     pointer_copy CFwStatus un_fw_status zero_fw_status (TenstorrentFirmwarePolicyStatus_DeepCopyInto L)"

definition TenstorrentFirmwarePolicy_DeepCopy :: "'l library \<Rightarrow> (addr option, 'l cell) copier" where
  "TenstorrentFirmwarePolicy_DeepCopy L =
     pointer_copy CFwPolicy un_fw_policy (zero_fw_policy L) (TenstorrentFirmwarePolicy_DeepCopyInto L)"

definition TenstorrentFirmwarePolicyList_DeepCopy :: "'l library \<Rightarrow> (addr option, 'l cell) copier" where
  "TenstorrentFirmwarePolicyList_DeepCopy L =
     pointer_copy CFwList un_fw_list (zero_fw_list L) (TenstorrentFirmwarePolicyList_DeepCopyInto L)"

definition TenstorrentFirmwarePolicy_DeepCopyObject :: "'l library \<Rightarrow> addr option \<Rightarrow> 'l memory \<Rightarrow> (object \<times> 'l memory) option" where
  "TenstorrentFirmwarePolicy_DeepCopyObject L p h = do {
     (c, h) \<leftarrow> TenstorrentFirmwarePolicy_DeepCopy L p h;
     Some (case c of Some a \<Rightarrow> (FwPolicyObject a, h) | None \<Rightarrow> (NilObject, h))
   }"

definition TenstorrentFirmwarePolicyList_DeepCopyObject :: "'l library \<Rightarrow> addr option \<Rightarrow> 'l memory \<Rightarrow> (object \<times> 'l memory) option" where
  "TenstorrentFirmwarePolicyList_DeepCopyObject L p h = do {
     (c, h) \<leftarrow> TenstorrentFirmwarePolicyList_DeepCopy L p h;
     Some (case c of Some a \<Rightarrow> (FwListObject a, h) | None \<Rightarrow> (NilObject, h))
   }"

section \<open>What the structs mean\<close>

text \<open>For every struct its value, given the values of the fields that point elsewhere, and the value of a
  struct in memory. A node state outside the enumeration of the CRD has none.\<close>

definition fw_drain_value :: "fw_drain_obj \<Rightarrow> bool option \<times> bool option \<Rightarrow> fw_drain option" where
  "fw_drain_value s = (\<lambda>(e, d).
     Some \<lparr>fd_enable = e, fd_force = fdo_force s, fd_delete_empty_dir = d, fd_timeout = fdo_timeout s\<rparr>)"

definition fw_drain_val :: "'l memory \<Rightarrow> fw_drain_obj \<Rightarrow> fw_drain option" where
  "fw_drain_val h s =
     Option.bind (pair_val bool_val bool_val h (fdo_enable s, fdo_delete_empty_dir s)) (fw_drain_value s)"

definition fw_drain_refs :: "'l memory \<Rightarrow> fw_drain_obj \<Rightarrow> addr set" where
  "fw_drain_refs h s = pair_refs bool_refs bool_refs h (fdo_enable s, fdo_delete_empty_dir s)"

definition fw_upgrade_value :: "fw_upgrade_obj \<Rightarrow> bool option \<times> fw_drain \<times> bool option \<Rightarrow> fw_upgrade option" where
  "fw_upgrade_value s = (\<lambda>(a, d, t).
     Some \<lparr>fu_auto = a, fu_max_parallel = fuo_max_parallel s, fu_flash_timeout = fuo_flash_timeout s,
       fu_drain = d, fu_halt = t\<rparr>)"

definition fw_upgrade_val :: "'l memory \<Rightarrow> fw_upgrade_obj \<Rightarrow> fw_upgrade option" where
  "fw_upgrade_val h s =
     Option.bind (pair_val bool_val (pair_val fw_drain_val bool_val) h (fuo_auto s, fuo_drain s, fuo_halt s))
       (fw_upgrade_value s)"

definition fw_upgrade_refs :: "'l memory \<Rightarrow> fw_upgrade_obj \<Rightarrow> addr set" where
  "fw_upgrade_refs h s = pair_refs bool_refs (pair_refs fw_drain_refs bool_refs) h (fuo_auto s, fuo_drain s, fuo_halt s)"

definition fw_spec_value :: "fw_spec_obj \<Rightarrow>
    label_selector option \<times> label_selector option \<times> fw_upgrade \<times> flasher_override option \<Rightarrow> fw_spec option" where
  "fw_spec_value s = (\<lambda>(a, n, u, f).
     Some \<lparr>fs_version = fso_version s, fs_readback = fso_readback s, fs_bundle_url = fso_bundle_url s,
       fs_affinity = a, fs_selector = n, fs_paused = fso_paused s, fs_upgrade = u, fs_flasher = f\<rparr>)"

definition fw_spec_val :: "'l meaning \<Rightarrow> 'l memory \<Rightarrow> fw_spec_obj \<Rightarrow> fw_spec option" where
  "fw_spec_val M h s =
     Option.bind
       (pair_val (selector_val M) (pair_val (selector_val M) (pair_val fw_upgrade_val (pointer_val un_fw_flasher plain_val)))
         h (fso_affinity s, fso_selector s, fso_upgrade s, fso_flasher s))
       (fw_spec_value s)"

definition fw_spec_refs :: "'l meaning \<Rightarrow> 'l memory \<Rightarrow> fw_spec_obj \<Rightarrow> addr set" where
  "fw_spec_refs M h s =
     pair_refs (selector_refs M) (pair_refs (selector_refs M) (pair_refs fw_upgrade_refs (pointer_refs un_fw_flasher plain_refs)))
       h (fso_affinity s, fso_selector s, fso_upgrade s, fso_flasher s)"

definition node_state_named :: "string \<Rightarrow> node_state option" where
  "node_state_named x = find (\<lambda>st. node_state_str st = x)
     [NodeStatePending, NodeStateCordoning, NodeStateDraining, NodeStateFlashing, NodeStateUncordoning, NodeStateDone,
      NodeStateFailed]"

definition fw_node_value :: "'l fw_node_obj \<Rightarrow> instant \<Rightarrow> node_status option" where
  "fw_node_value s t = do {
     st \<leftarrow> node_state_named (fno_state s);
     Some \<lparr>ns_name = fno_name s, ns_state = st, ns_reason = fno_reason s, ns_current = fno_current s,
       ns_job = fno_job s, ns_msg = fno_msg s, ns_time = t\<rparr>
   }"

definition fw_node_val :: "'l meaning \<Rightarrow> 'l memory \<Rightarrow> 'l fw_node_obj \<Rightarrow> node_status option" where
  "fw_node_val M h s = Option.bind (lv_time M h (fno_time s)) (fw_node_value s)"

definition fw_node_refs :: "'l meaning \<Rightarrow> 'l memory \<Rightarrow> 'l fw_node_obj \<Rightarrow> addr set" where
  "fw_node_refs M h s = lr_time M h (fno_time s)"

text \<open>A nil slice and an empty one are the same list to every reader.\<close>

definition fw_status_value :: "fw_status_obj \<Rightarrow> mcond list option \<times> node_status list option \<Rightarrow> fw_status option" where
  "fw_status_value s = (\<lambda>(c, n).
     Some \<lparr>ft_observed = fto_observed s, ft_desired = fto_desired s, ft_conds = elements c,
       ft_summary = fto_summary s, ft_nodes = elements n\<rparr>)"

definition fw_status_val :: "'l meaning \<Rightarrow> 'l memory \<Rightarrow> fw_status_obj \<Rightarrow> fw_status option" where
  "fw_status_val M h s =
     Option.bind (pair_val (conditions_val M) (slice_val un_fw_nodes (fw_node_val M)) h (fto_conds s, fto_nodes s))
       (fw_status_value s)"

definition fw_status_refs :: "'l meaning \<Rightarrow> 'l memory \<Rightarrow> fw_status_obj \<Rightarrow> addr set" where
  "fw_status_refs M h s =
     pair_refs (conditions_refs M) (slice_refs un_fw_nodes (fw_node_refs M)) h (fto_conds s, fto_nodes s)"

text \<open>A policy is its \<open>TypeMeta\<close> and the record that the controller works on.\<close>

definition fw_policy_value :: "'l fw_policy_obj \<Rightarrow> meta_value \<times> fw_spec \<times> fw_status \<Rightarrow> (type_meta \<times> fw_policy) option" where
  "fw_policy_value s = (\<lambda>(m, x, t).
     Some (fpo_type s, \<lparr>fp_name = mv_name m, fp_uid = mv_uid m, fp_generation = mv_generation m,
       fp_deleted = mv_deleted m, fp_spec = x, fp_status = t\<rparr>))"

definition fw_policy_val :: "'l meaning \<Rightarrow> 'l memory \<Rightarrow> 'l fw_policy_obj \<Rightarrow> (type_meta \<times> fw_policy) option" where
  "fw_policy_val M h s =
     Option.bind (pair_val (lv_meta M) (pair_val (fw_spec_val M) (fw_status_val M)) h (fpo_meta s, fpo_spec s, fpo_status s))
       (fw_policy_value s)"

definition fw_policy_refs :: "'l meaning \<Rightarrow> 'l memory \<Rightarrow> 'l fw_policy_obj \<Rightarrow> addr set" where
  "fw_policy_refs M h s =
     pair_refs (lr_meta M) (pair_refs (fw_spec_refs M) (fw_status_refs M)) h (fpo_meta s, fpo_spec s, fpo_status s)"

type_synonym fw_list_value = "type_meta \<times> list_meta \<times> (type_meta \<times> fw_policy) list option"

definition fw_list_value :: "'l fw_list_obj \<Rightarrow> list_meta \<times> (type_meta \<times> fw_policy) list option \<Rightarrow> fw_list_value option" where
  "fw_list_value s = (\<lambda>(m, i). Some (flo_type s, m, i))"

definition fw_list_val :: "'l meaning \<Rightarrow> 'l memory \<Rightarrow> 'l fw_list_obj \<Rightarrow> fw_list_value option" where
  "fw_list_val M h s =
     Option.bind (pair_val (lv_list_meta M) (slice_val un_fw_policies (fw_policy_val M)) h (flo_meta s, flo_items s))
       (fw_list_value s)"

definition fw_list_refs :: "'l meaning \<Rightarrow> 'l memory \<Rightarrow> 'l fw_list_obj \<Rightarrow> addr set" where
  "fw_list_refs M h s = pair_refs (lr_list_meta M) (slice_refs un_fw_policies (fw_policy_refs M)) h (flo_meta s, flo_items s)"

section \<open>Every method is a deep copy\<close>

lemma fw_drain_deep: "deep_copy fw_drain_val fw_drain_refs FwDrainPolicy_DeepCopyInto"
  by (rule deep_copy.struct [OF two_bools.pair,
        where part = "\<lambda>s. (fdo_enable s, fdo_delete_empty_dir s)" and mk = fw_drain_value
          and put = "\<lambda>s (e, d). s\<lparr>fdo_enable := e, fdo_delete_empty_dir := d\<rparr>"])
    (auto simp: fw_drain_val_def fw_drain_refs_def FwDrainPolicy_DeepCopyInto_def fw_drain_value_def copied)

lemma fw_upgrade_deep: "deep_copy fw_upgrade_val fw_upgrade_refs FwUpgradePolicy_DeepCopyInto"
  by (rule deep_copy.struct [OF pair_deep [OF bool_ptr.deep_copy_axioms pair_deep [OF fw_drain_deep bool_ptr.deep_copy_axioms]],
        where part = "\<lambda>s. (fuo_auto s, fuo_drain s, fuo_halt s)" and mk = fw_upgrade_value
          and put = "\<lambda>s (a, d, t). s\<lparr>fuo_auto := a, fuo_drain := d, fuo_halt := t\<rparr>"])
    (auto simp: fw_upgrade_val_def fw_upgrade_refs_def FwUpgradePolicy_DeepCopyInto_def fw_upgrade_value_def copied)

lemma flasher_pointer: "deep_copy (pointer_val un_fw_flasher plain_val) (pointer_refs un_fw_flasher plain_refs)
    (pointer_copy CFwFlasher un_fw_flasher zero_flasher plain_copy)"
  by (rule pointer_deep) (simp_all add: un_fw_defs plain.deep_copy_axioms)

lemma fw_spec_deep:
  assumes "library_contract L M"
  shows "deep_copy (fw_spec_val M) (fw_spec_refs M) (TenstorrentFirmwarePolicySpec_DeepCopyInto L)"
proof -
  note fields = pair_deep [OF selector_deep [OF assms] pair_deep [OF selector_deep [OF assms] pair_deep [OF fw_upgrade_deep flasher_pointer]]]
  show ?thesis
    by (rule deep_copy.struct [OF fields,
          where part = "\<lambda>s. (fso_affinity s, fso_selector s, fso_upgrade s, fso_flasher s)" and mk = fw_spec_value
            and put = "\<lambda>s (a, n, u, f). s\<lparr>fso_affinity := a, fso_selector := n, fso_upgrade := u, fso_flasher := f\<rparr>"])
      (auto simp: fw_spec_val_def fw_spec_refs_def TenstorrentFirmwarePolicySpec_DeepCopyInto_def fw_spec_value_def copied)
qed

lemma fw_node_deep:
  assumes "library_contract L M"
  shows "deep_copy (fw_node_val M) (fw_node_refs M) (NodeStatus_DeepCopyInto L)"
proof -
  note time = library_contract_parts(3) [OF assms]
  show ?thesis
    by (rule deep_copy.struct [OF time, where part = fno_time and mk = fw_node_value and put = "\<lambda>s t. s\<lparr>fno_time := t\<rparr>"])
      (auto simp: fw_node_val_def fw_node_refs_def NodeStatus_DeepCopyInto_def fw_node_value_def Let_def split_def
        map_conv_bind_option comp_def)
qed

lemma fw_nodes_deep:
  assumes "library_contract L M"
  shows "deep_copy (slice_val un_fw_nodes (fw_node_val M)) (slice_refs un_fw_nodes (fw_node_refs M))
    (slice_copy CFwNodes un_fw_nodes (zero_fw_node L) (NodeStatus_DeepCopyInto L))"
  by (rule slice_deep) (simp_all add: un_fw_defs fw_node_deep [OF assms])

lemma fw_status_deep:
  assumes "library_contract L M"
  shows "deep_copy (fw_status_val M) (fw_status_refs M) (TenstorrentFirmwarePolicyStatus_DeepCopyInto L)"
  by (rule deep_copy.struct [OF pair_deep [OF conditions_deep [OF assms] fw_nodes_deep [OF assms]],
        where part = "\<lambda>s. (fto_conds s, fto_nodes s)" and mk = fw_status_value
          and put = "\<lambda>s (c, n). s\<lparr>fto_conds := c, fto_nodes := n\<rparr>"])
    (auto simp: fw_status_val_def fw_status_refs_def TenstorrentFirmwarePolicyStatus_DeepCopyInto_def fw_status_value_def copied)

lemma fw_policy_deep:
  assumes "library_contract L M"
  shows "deep_copy (fw_policy_val M) (fw_policy_refs M) (TenstorrentFirmwarePolicy_DeepCopyInto L)"
  by (rule deep_copy.struct [OF pair_deep [OF library_contract_parts(4) [OF assms]
          pair_deep [OF fw_spec_deep [OF assms] fw_status_deep [OF assms]]],
        where part = "\<lambda>s. (fpo_meta s, fpo_spec s, fpo_status s)" and mk = fw_policy_value
          and put = "\<lambda>s (m, x, t). s\<lparr>fpo_meta := m, fpo_spec := x, fpo_status := t\<rparr>"])
    (auto simp: fw_policy_val_def fw_policy_refs_def TenstorrentFirmwarePolicy_DeepCopyInto_def fw_policy_value_def copied)

lemma fw_policies_deep:
  assumes "library_contract L M"
  shows "deep_copy (slice_val un_fw_policies (fw_policy_val M)) (slice_refs un_fw_policies (fw_policy_refs M))
    (slice_copy CFwPolicies un_fw_policies (zero_fw_policy L) (TenstorrentFirmwarePolicy_DeepCopyInto L))"
  by (rule slice_deep) (simp_all add: un_fw_defs fw_policy_deep [OF assms])

lemma fw_list_deep:
  assumes "library_contract L M"
  shows "deep_copy (fw_list_val M) (fw_list_refs M) (TenstorrentFirmwarePolicyList_DeepCopyInto L)"
  by (rule deep_copy.struct [OF pair_deep [OF library_contract_parts(5) [OF assms] fw_policies_deep [OF assms]],
        where part = "\<lambda>s. (flo_meta s, flo_items s)" and mk = fw_list_value
          and put = "\<lambda>s (m, i). s\<lparr>flo_meta := m, flo_items := i\<rparr>"])
    (auto simp: fw_list_val_def fw_list_refs_def TenstorrentFirmwarePolicyList_DeepCopyInto_def fw_list_value_def copied)

section \<open>DeepCopy returns a deep copy of the object, or nil\<close>

lemma plain_into: "FlasherOverride_DeepCopyInto = plain_copy" "StatusSummary_DeepCopyInto = plain_copy"
  by (simp_all add: fun_eq_iff FlasherOverride_DeepCopyInto_def StatusSummary_DeepCopyInto_def plain_copy_def)

lemma small_fw_copies:
  "deep_copy (pointer_val un_fw_drain fw_drain_val) (pointer_refs un_fw_drain fw_drain_refs) FwDrainPolicy_DeepCopy"
  "deep_copy (pointer_val un_fw_flasher plain_val) (pointer_refs un_fw_flasher plain_refs) FlasherOverride_DeepCopy"
  "deep_copy (pointer_val un_fw_summary plain_val) (pointer_refs un_fw_summary plain_refs) StatusSummary_DeepCopy"
  "deep_copy (pointer_val un_fw_upgrade fw_upgrade_val) (pointer_refs un_fw_upgrade fw_upgrade_refs) FwUpgradePolicy_DeepCopy"
  unfolding FwDrainPolicy_DeepCopy_def FlasherOverride_DeepCopy_def StatusSummary_DeepCopy_def
    FwUpgradePolicy_DeepCopy_def plain_into
  by (rule pointer_deep; simp add: un_fw_defs plain.deep_copy_axioms fw_drain_deep fw_upgrade_deep)+

lemma fw_copies:
  assumes "library_contract L M"
  shows "deep_copy (pointer_val un_fw_node (fw_node_val M)) (pointer_refs un_fw_node (fw_node_refs M)) (NodeStatus_DeepCopy L)"
    "deep_copy (pointer_val un_fw_spec (fw_spec_val M)) (pointer_refs un_fw_spec (fw_spec_refs M))
       (TenstorrentFirmwarePolicySpec_DeepCopy L)"
    "deep_copy (pointer_val un_fw_status (fw_status_val M)) (pointer_refs un_fw_status (fw_status_refs M))
       (TenstorrentFirmwarePolicyStatus_DeepCopy L)"
    "deep_copy (pointer_val un_fw_policy (fw_policy_val M)) (pointer_refs un_fw_policy (fw_policy_refs M))
       (TenstorrentFirmwarePolicy_DeepCopy L)"
    "deep_copy (pointer_val un_fw_list (fw_list_val M)) (pointer_refs un_fw_list (fw_list_refs M))
       (TenstorrentFirmwarePolicyList_DeepCopy L)"
  unfolding NodeStatus_DeepCopy_def TenstorrentFirmwarePolicySpec_DeepCopy_def TenstorrentFirmwarePolicyStatus_DeepCopy_def
    TenstorrentFirmwarePolicy_DeepCopy_def TenstorrentFirmwarePolicyList_DeepCopy_def
  by (rule pointer_deep;
      simp add: un_fw_defs fw_node_deep [OF assms] fw_spec_deep [OF assms] fw_status_deep [OF assms]
        fw_policy_deep [OF assms] fw_list_deep [OF assms])+

lemma deep_copy_nil:
  "TenstorrentFirmwarePolicy_DeepCopyObject L None h = Some (NilObject, h)"
  "TenstorrentFirmwarePolicyList_DeepCopyObject L None h = Some (NilObject, h)"
  by (simp_all add: TenstorrentFirmwarePolicy_DeepCopyObject_def TenstorrentFirmwarePolicyList_DeepCopyObject_def
      TenstorrentFirmwarePolicy_DeepCopy_def TenstorrentFirmwarePolicyList_DeepCopy_def pointer_copy_def)

text \<open>C20: \<open>DeepCopyObject\<close> of a policy and of a list of policies returns a new object of the same kind and the
  same value and leaves the memory that exists as it is. Afterwards no write to the copy, at any depth, changes the
  original, and no write to the original changes the copy. A nil pointer gives a nil object.\<close>

theorem firmware_deep_copy:
  assumes "library_contract L M" "wf_heap h"
    "pointer_val un_fw_policy (fw_policy_val M) h (Some a) = Some (Some v)"
    "pointer_val un_fw_list (fw_list_val M) h (Some l) = Some (Some w)"
  shows "(\<exists>q h'. TenstorrentFirmwarePolicy_DeepCopyObject L (Some a) h = Some (FwPolicyObject q, h') \<and> wf_heap h' \<and> grows h h' \<and>
      held_apart (pointer_val un_fw_policy (fw_policy_val M)) (hp_next h) h' (Some a) (Some q) (Some v)) \<and>
    (\<exists>q h'. TenstorrentFirmwarePolicyList_DeepCopyObject L (Some l) h = Some (FwListObject q, h') \<and> wf_heap h' \<and> grows h h' \<and>
      held_apart (pointer_val un_fw_list (fw_list_val M)) (hp_next h) h' (Some l) (Some q) (Some w)) \<and>
    TenstorrentFirmwarePolicy_DeepCopyObject L None h = Some (NilObject, h) \<and>
    TenstorrentFirmwarePolicyList_DeepCopyObject L None h = Some (NilObject, h)"
  using object_promise [OF fw_copies(4) [OF assms(1)] assms(2,3) TenstorrentFirmwarePolicy_DeepCopyObject_def]
    object_promise [OF fw_copies(5) [OF assms(1)] assms(2,4) TenstorrentFirmwarePolicyList_DeepCopyObject_def]
  by (simp_all add: deep_copy_nil)

end
