(* ===== verification/DriverDeepCopy.thy ===== *)
theory DriverDeepCopy
  imports ApiObjects
begin

text \<open>
  \<open>api/driver/v1alpha1/zz_generated.deepcopy.go\<close>: the copy methods of the driver resource, what each
  struct means (the records of \<open>DriverApi\<close>), and that every method is a deep copy. A method that
  writes through \<open>out\<close> returns the struct that \<open>*out\<close> ends as; \<open>in\<close> and \<open>out\<close> are different objects.
\<close>

section \<open>Projections and zero values\<close>

definition un_drv_drain :: "'l cell \<Rightarrow> drv_drain_obj option" where
  "un_drv_drain c = (case c of CDrvDrain x \<Rightarrow> Some x | _ \<Rightarrow> None)"

definition un_drv_installer :: "'l cell \<Rightarrow> installer_override option" where
  "un_drv_installer c = (case c of CDrvInstaller x \<Rightarrow> Some x | _ \<Rightarrow> None)"

definition un_drv_upgrade :: "'l cell \<Rightarrow> drv_upgrade_obj option" where
  "un_drv_upgrade c = (case c of CDrvUpgrade x \<Rightarrow> Some x | _ \<Rightarrow> None)"

definition un_drv_spec :: "'l cell \<Rightarrow> drv_spec_obj option" where
  "un_drv_spec c = (case c of CDrvSpec x \<Rightarrow> Some x | _ \<Rightarrow> None)"

definition un_drv_node :: "'l cell \<Rightarrow> 'l drv_node_obj option" where
  "un_drv_node c = (case c of CDrvNode x \<Rightarrow> Some x | _ \<Rightarrow> None)"

definition un_drv_nodes :: "'l cell \<Rightarrow> 'l drv_node_obj list option" where
  "un_drv_nodes c = (case c of CDrvNodes x \<Rightarrow> Some x | _ \<Rightarrow> None)"

definition un_drv_summary :: "'l cell \<Rightarrow> drv_summary option" where
  "un_drv_summary c = (case c of CDrvSummary x \<Rightarrow> Some x | _ \<Rightarrow> None)"

definition un_drv_status :: "'l cell \<Rightarrow> drv_status_obj option" where
  "un_drv_status c = (case c of CDrvStatus x \<Rightarrow> Some x | _ \<Rightarrow> None)"

definition un_drv_policy :: "'l cell \<Rightarrow> 'l drv_policy_obj option" where
  "un_drv_policy c = (case c of CDrvPolicy x \<Rightarrow> Some x | _ \<Rightarrow> None)"

definition un_drv_policies :: "'l cell \<Rightarrow> 'l drv_policy_obj list option" where
  "un_drv_policies c = (case c of CDrvPolicies x \<Rightarrow> Some x | _ \<Rightarrow> None)"

definition un_drv_list :: "'l cell \<Rightarrow> 'l drv_list_obj option" where
  "un_drv_list c = (case c of CDrvList x \<Rightarrow> Some x | _ \<Rightarrow> None)"

lemmas un_drv_defs = un_drv_drain_def un_drv_installer_def un_drv_upgrade_def un_drv_spec_def un_drv_node_def
  un_drv_nodes_def un_drv_summary_def un_drv_status_def un_drv_policy_def un_drv_policies_def un_drv_list_def

definition zero_drv_drain :: drv_drain_obj where
  "zero_drv_drain = \<lparr>ddo_enable = None, ddo_full_node = None, ddo_pod_selector = '''', ddo_force = False,
     ddo_delete_empty_dir = None, ddo_timeout = 0\<rparr>"

definition zero_installer :: installer_override where
  "zero_installer = \<lparr>io_image = '''', io_pull = ''''\<rparr>"

definition zero_drv_upgrade :: drv_upgrade_obj where
  "zero_drv_upgrade = \<lparr>duo_drain = zero_drv_drain, duo_force_unload = False\<rparr>"

definition zero_drv_spec :: drv_spec_obj where
  "zero_drv_spec = \<lparr>dso_version = '''', dso_affinity = None, dso_selector = None,
     dso_paused = False, dso_upgrade = zero_drv_upgrade, dso_installer = None\<rparr>"

definition zero_drv_node :: "'l library \<Rightarrow> 'l drv_node_obj" where
  "zero_drv_node L = \<lparr>dno_name = '''', dno_state = '''', dno_reason = '''', dno_current = '''',
     dno_msg = '''', dno_time = lz_time L\<rparr>"

definition zero_drv_summary :: drv_summary where
  "zero_drv_summary = \<lparr>dsm_matched = 0, dsm_desired = 0, dsm_ready = 0, dsm_available = 0, dsm_failed = 0,
     dsm_uptodate = 0, dsm_inprogress = 0\<rparr>"

definition zero_drv_status :: drv_status_obj where
  "zero_drv_status = \<lparr>dto_observed = 0, dto_desired = '''', dto_conds = NilSlice, dto_summary = zero_drv_summary,
     dto_daemonset = '''', dto_nodes = NilSlice\<rparr>"

definition zero_drv_policy :: "'l library \<Rightarrow> 'l drv_policy_obj" where
  "zero_drv_policy L = \<lparr>dpo_type = zero_type, dpo_meta = lz_meta L, dpo_spec = zero_drv_spec, dpo_status = zero_drv_status\<rparr>"

definition zero_drv_list :: "'l library \<Rightarrow> 'l drv_list_obj" where
  "zero_drv_list L = \<lparr>dlo_type = zero_type, dlo_meta = lz_list_meta L, dlo_items = NilSlice\<rparr>"

section \<open>DeepCopyInto\<close>

text \<open>\<open>*out = *in\<close> copies the struct with its pointers and slice headers; every field that points elsewhere
  is then replaced by a copy of what it points to.\<close>

definition DrvDrainPolicy_DeepCopyInto :: "(drv_drain_obj, 'l cell) copier" where
  "DrvDrainPolicy_DeepCopyInto s h = do {
     let out = s;
     (p, h) \<leftarrow> bool_copy (ddo_enable s) h;
     let out = out\<lparr>ddo_enable := p\<rparr>;
     (p, h) \<leftarrow> bool_copy (ddo_full_node s) h;
     let out = out\<lparr>ddo_full_node := p\<rparr>;
     (p, h) \<leftarrow> bool_copy (ddo_delete_empty_dir s) h;
     let out = out\<lparr>ddo_delete_empty_dir := p\<rparr>;
     Some (out, h)
   }"

definition InstallerOverride_DeepCopyInto :: "(installer_override, 'l cell) copier" where
  "InstallerOverride_DeepCopyInto s h = Some (s, h)"

definition DriverNodeStatus_DeepCopyInto :: "'l library \<Rightarrow> ('l drv_node_obj, 'l cell) copier" where
  "DriverNodeStatus_DeepCopyInto L s h = do {
     let out = s;
     (t, h) \<leftarrow> lc_time L (dno_time s) h;
     Some (out\<lparr>dno_time := t\<rparr>, h)
   }"

definition DriverSummary_DeepCopyInto :: "(drv_summary, 'l cell) copier" where
  "DriverSummary_DeepCopyInto s h = Some (s, h)"

definition DrvUpgradePolicy_DeepCopyInto :: "(drv_upgrade_obj, 'l cell) copier" where
  "DrvUpgradePolicy_DeepCopyInto s h = do {
     let out = s;
     (d, h) \<leftarrow> DrvDrainPolicy_DeepCopyInto (duo_drain s) h;
     let out = out\<lparr>duo_drain := d\<rparr>;
     Some (out, h)
   }"

definition TenstorrentDriverPolicySpec_DeepCopyInto :: "'l library \<Rightarrow> (drv_spec_obj, 'l cell) copier" where
  "TenstorrentDriverPolicySpec_DeepCopyInto L s h = do {
     let out = s;
     (p, h) \<leftarrow> selector_copy L (dso_affinity s) h;
     let out = out\<lparr>dso_affinity := p\<rparr>;
     (p, h) \<leftarrow> selector_copy L (dso_selector s) h;
     let out = out\<lparr>dso_selector := p\<rparr>;
     (u, h) \<leftarrow> DrvUpgradePolicy_DeepCopyInto (dso_upgrade s) h;
     let out = out\<lparr>dso_upgrade := u\<rparr>;
     (p, h) \<leftarrow> pointer_copy CDrvInstaller un_drv_installer zero_installer plain_copy (dso_installer s) h;
     let out = out\<lparr>dso_installer := p\<rparr>;
     Some (out, h)
   }"

definition TenstorrentDriverPolicyStatus_DeepCopyInto :: "'l library \<Rightarrow> (drv_status_obj, 'l cell) copier" where
  "TenstorrentDriverPolicyStatus_DeepCopyInto L s h = do {
     let out = s;
     (c, h) \<leftarrow> conditions_copy L (dto_conds s) h;
     let out = out\<lparr>dto_conds := c\<rparr>;
     let out = out\<lparr>dto_summary := dto_summary s\<rparr>;
     (n, h) \<leftarrow> slice_copy CDrvNodes un_drv_nodes (zero_drv_node L) (DriverNodeStatus_DeepCopyInto L) (dto_nodes s) h;
     let out = out\<lparr>dto_nodes := n\<rparr>;
     Some (out, h)
   }"

definition TenstorrentDriverPolicy_DeepCopyInto :: "'l library \<Rightarrow> ('l drv_policy_obj, 'l cell) copier" where
  "TenstorrentDriverPolicy_DeepCopyInto L s h = do {
     let out = s;
     let out = out\<lparr>dpo_type := dpo_type s\<rparr>;
     (m, h) \<leftarrow> lc_meta L (dpo_meta s) h;
     let out = out\<lparr>dpo_meta := m\<rparr>;
     (x, h) \<leftarrow> TenstorrentDriverPolicySpec_DeepCopyInto L (dpo_spec s) h;
     let out = out\<lparr>dpo_spec := x\<rparr>;
     (x, h) \<leftarrow> TenstorrentDriverPolicyStatus_DeepCopyInto L (dpo_status s) h;
     let out = out\<lparr>dpo_status := x\<rparr>;
     Some (out, h)
   }"

definition TenstorrentDriverPolicyList_DeepCopyInto :: "'l library \<Rightarrow> ('l drv_list_obj, 'l cell) copier" where
  "TenstorrentDriverPolicyList_DeepCopyInto L s h = do {
     let out = s;
     let out = out\<lparr>dlo_type := dlo_type s\<rparr>;
     (m, h) \<leftarrow> lc_list_meta L (dlo_meta s) h;
     let out = out\<lparr>dlo_meta := m\<rparr>;
     (i, h) \<leftarrow> slice_copy CDrvPolicies un_drv_policies (zero_drv_policy L) (TenstorrentDriverPolicy_DeepCopyInto L)
       (dlo_items s) h;
     let out = out\<lparr>dlo_items := i\<rparr>;
     Some (out, h)
   }"

section \<open>DeepCopy and DeepCopyObject\<close>

definition DrvDrainPolicy_DeepCopy :: "(addr option, 'l cell) copier" where
  "DrvDrainPolicy_DeepCopy = pointer_copy CDrvDrain un_drv_drain zero_drv_drain DrvDrainPolicy_DeepCopyInto"

definition InstallerOverride_DeepCopy :: "(addr option, 'l cell) copier" where
  "InstallerOverride_DeepCopy = pointer_copy CDrvInstaller un_drv_installer zero_installer InstallerOverride_DeepCopyInto"

definition DriverNodeStatus_DeepCopy :: "'l library \<Rightarrow> (addr option, 'l cell) copier" where
  "DriverNodeStatus_DeepCopy L = pointer_copy CDrvNode un_drv_node (zero_drv_node L) (DriverNodeStatus_DeepCopyInto L)"

definition DriverSummary_DeepCopy :: "(addr option, 'l cell) copier" where
  "DriverSummary_DeepCopy = pointer_copy CDrvSummary un_drv_summary zero_drv_summary DriverSummary_DeepCopyInto"

definition DrvUpgradePolicy_DeepCopy :: "(addr option, 'l cell) copier" where
  "DrvUpgradePolicy_DeepCopy = pointer_copy CDrvUpgrade un_drv_upgrade zero_drv_upgrade DrvUpgradePolicy_DeepCopyInto"

definition TenstorrentDriverPolicySpec_DeepCopy :: "'l library \<Rightarrow> (addr option, 'l cell) copier" where
  "TenstorrentDriverPolicySpec_DeepCopy L =
     pointer_copy CDrvSpec un_drv_spec zero_drv_spec (TenstorrentDriverPolicySpec_DeepCopyInto L)"

definition TenstorrentDriverPolicyStatus_DeepCopy :: "'l library \<Rightarrow> (addr option, 'l cell) copier" where
  "TenstorrentDriverPolicyStatus_DeepCopy L =
     pointer_copy CDrvStatus un_drv_status zero_drv_status (TenstorrentDriverPolicyStatus_DeepCopyInto L)"

definition TenstorrentDriverPolicy_DeepCopy :: "'l library \<Rightarrow> (addr option, 'l cell) copier" where
  "TenstorrentDriverPolicy_DeepCopy L =
     pointer_copy CDrvPolicy un_drv_policy (zero_drv_policy L) (TenstorrentDriverPolicy_DeepCopyInto L)"

definition TenstorrentDriverPolicyList_DeepCopy :: "'l library \<Rightarrow> (addr option, 'l cell) copier" where
  "TenstorrentDriverPolicyList_DeepCopy L =
     pointer_copy CDrvList un_drv_list (zero_drv_list L) (TenstorrentDriverPolicyList_DeepCopyInto L)"

definition TenstorrentDriverPolicy_DeepCopyObject :: "'l library \<Rightarrow> addr option \<Rightarrow> 'l memory \<Rightarrow> (object \<times> 'l memory) option" where
  "TenstorrentDriverPolicy_DeepCopyObject L p h = do {
     (c, h) \<leftarrow> TenstorrentDriverPolicy_DeepCopy L p h;
     Some (case c of Some a \<Rightarrow> (DrvPolicyObject a, h) | None \<Rightarrow> (NilObject, h))
   }"

definition TenstorrentDriverPolicyList_DeepCopyObject :: "'l library \<Rightarrow> addr option \<Rightarrow> 'l memory \<Rightarrow> (object \<times> 'l memory) option" where
  "TenstorrentDriverPolicyList_DeepCopyObject L p h = do {
     (c, h) \<leftarrow> TenstorrentDriverPolicyList_DeepCopy L p h;
     Some (case c of Some a \<Rightarrow> (DrvListObject a, h) | None \<Rightarrow> (NilObject, h))
   }"

section \<open>What the structs mean\<close>

text \<open>For every struct its value, given the values of the fields that point elsewhere, and the value of a
  struct in memory. A node state outside the enumeration of the CRD has none.\<close>

definition drv_drain_value :: "drv_drain_obj \<Rightarrow> bool option \<times> bool option \<times> bool option \<Rightarrow> drv_drain option" where
  "drv_drain_value s = (\<lambda>(e, f, d).
     Some \<lparr>dd_enable = e, dd_full_node = f, dd_pod_selector = ddo_pod_selector s, dd_force = ddo_force s,
       dd_delete_empty_dir = d, dd_timeout = ddo_timeout s\<rparr>)"

definition drv_drain_val :: "'l memory \<Rightarrow> drv_drain_obj \<Rightarrow> drv_drain option" where
  "drv_drain_val h s =
     Option.bind (pair_val bool_val (pair_val bool_val bool_val) h (ddo_enable s, ddo_full_node s, ddo_delete_empty_dir s))
       (drv_drain_value s)"

definition drv_drain_refs :: "'l memory \<Rightarrow> drv_drain_obj \<Rightarrow> addr set" where
  "drv_drain_refs h s = pair_refs bool_refs (pair_refs bool_refs bool_refs) h (ddo_enable s, ddo_full_node s, ddo_delete_empty_dir s)"

definition drv_upgrade_value :: "drv_upgrade_obj \<Rightarrow> drv_drain \<Rightarrow> drv_upgrade option" where
  "drv_upgrade_value s = (\<lambda>d. Some \<lparr>du_drain = d, du_force_unload = duo_force_unload s\<rparr>)"

definition drv_upgrade_val :: "'l memory \<Rightarrow> drv_upgrade_obj \<Rightarrow> drv_upgrade option" where
  "drv_upgrade_val h s = Option.bind (drv_drain_val h (duo_drain s)) (drv_upgrade_value s)"

definition drv_upgrade_refs :: "'l memory \<Rightarrow> drv_upgrade_obj \<Rightarrow> addr set" where
  "drv_upgrade_refs h s = drv_drain_refs h (duo_drain s)"

definition drv_spec_value :: "drv_spec_obj \<Rightarrow>
    label_selector option \<times> label_selector option \<times> drv_upgrade \<times> installer_override option \<Rightarrow> drv_spec option" where
  "drv_spec_value s = (\<lambda>(a, n, u, f).
     Some \<lparr>dv_version = dso_version s, dv_affinity = a, dv_selector = n, dv_paused = dso_paused s, dv_upgrade = u, dv_installer = f\<rparr>)"

definition drv_spec_val :: "'l meaning \<Rightarrow> 'l memory \<Rightarrow> drv_spec_obj \<Rightarrow> drv_spec option" where
  "drv_spec_val M h s =
     Option.bind
       (pair_val (selector_val M) (pair_val (selector_val M) (pair_val drv_upgrade_val (pointer_val un_drv_installer plain_val)))
         h (dso_affinity s, dso_selector s, dso_upgrade s, dso_installer s))
       (drv_spec_value s)"

definition drv_spec_refs :: "'l meaning \<Rightarrow> 'l memory \<Rightarrow> drv_spec_obj \<Rightarrow> addr set" where
  "drv_spec_refs M h s =
     pair_refs (selector_refs M) (pair_refs (selector_refs M) (pair_refs drv_upgrade_refs (pointer_refs un_drv_installer plain_refs)))
       h (dso_affinity s, dso_selector s, dso_upgrade s, dso_installer s)"

definition drv_state_named :: "string \<Rightarrow> drv_state option" where
  "drv_state_named x = find (\<lambda>st. drv_state_str st = x)
     [DrvPending, DrvCordoning, DrvDraining, DrvUpgrading, DrvUncordoning, DrvDone, DrvFailed, DrvHostManaged]"

definition drv_node_value :: "'l drv_node_obj \<Rightarrow> instant \<Rightarrow> drv_node_status option" where
  "drv_node_value s t = do {
     st \<leftarrow> drv_state_named (dno_state s);
     Some \<lparr>dn_name = dno_name s, dn_state = st, dn_reason = dno_reason s, dn_current = dno_current s,
       dn_msg = dno_msg s, dn_time = t\<rparr>
   }"

definition drv_node_val :: "'l meaning \<Rightarrow> 'l memory \<Rightarrow> 'l drv_node_obj \<Rightarrow> drv_node_status option" where
  "drv_node_val M h s = Option.bind (lv_time M h (dno_time s)) (drv_node_value s)"

definition drv_node_refs :: "'l meaning \<Rightarrow> 'l memory \<Rightarrow> 'l drv_node_obj \<Rightarrow> addr set" where
  "drv_node_refs M h s = lr_time M h (dno_time s)"

text \<open>A nil slice and an empty one are the same list to every reader.\<close>

definition drv_status_value :: "drv_status_obj \<Rightarrow> mcond list option \<times> drv_node_status list option \<Rightarrow> drv_status option" where
  "drv_status_value s = (\<lambda>(c, n).
     Some \<lparr>dst_observed = dto_observed s, dst_desired = dto_desired s, dst_conds = elements c,
       dst_summary = dto_summary s, dst_daemonset = dto_daemonset s, dst_nodes = elements n\<rparr>)"

definition drv_status_val :: "'l meaning \<Rightarrow> 'l memory \<Rightarrow> drv_status_obj \<Rightarrow> drv_status option" where
  "drv_status_val M h s =
     Option.bind (pair_val (conditions_val M) (slice_val un_drv_nodes (drv_node_val M)) h (dto_conds s, dto_nodes s))
       (drv_status_value s)"

definition drv_status_refs :: "'l meaning \<Rightarrow> 'l memory \<Rightarrow> drv_status_obj \<Rightarrow> addr set" where
  "drv_status_refs M h s =
     pair_refs (conditions_refs M) (slice_refs un_drv_nodes (drv_node_refs M)) h (dto_conds s, dto_nodes s)"

text \<open>A policy is its \<open>TypeMeta\<close> and the record that the controller works on.\<close>

definition drv_policy_value :: "'l drv_policy_obj \<Rightarrow> meta_value \<times> drv_spec \<times> drv_status \<Rightarrow> (type_meta \<times> drv_policy) option" where
  "drv_policy_value s = (\<lambda>(m, x, t).
     Some (dpo_type s, \<lparr>dp_name = mv_name m, dp_uid = mv_uid m, dp_generation = mv_generation m,
       dp_deleted = mv_deleted m, dp_spec = x, dp_status = t\<rparr>))"

definition drv_policy_val :: "'l meaning \<Rightarrow> 'l memory \<Rightarrow> 'l drv_policy_obj \<Rightarrow> (type_meta \<times> drv_policy) option" where
  "drv_policy_val M h s =
     Option.bind (pair_val (lv_meta M) (pair_val (drv_spec_val M) (drv_status_val M)) h (dpo_meta s, dpo_spec s, dpo_status s))
       (drv_policy_value s)"

definition drv_policy_refs :: "'l meaning \<Rightarrow> 'l memory \<Rightarrow> 'l drv_policy_obj \<Rightarrow> addr set" where
  "drv_policy_refs M h s =
     pair_refs (lr_meta M) (pair_refs (drv_spec_refs M) (drv_status_refs M)) h (dpo_meta s, dpo_spec s, dpo_status s)"

type_synonym drv_list_value = "type_meta \<times> list_meta \<times> (type_meta \<times> drv_policy) list option"

definition drv_list_value :: "'l drv_list_obj \<Rightarrow> list_meta \<times> (type_meta \<times> drv_policy) list option \<Rightarrow> drv_list_value option" where
  "drv_list_value s = (\<lambda>(m, i). Some (dlo_type s, m, i))"

definition drv_list_val :: "'l meaning \<Rightarrow> 'l memory \<Rightarrow> 'l drv_list_obj \<Rightarrow> drv_list_value option" where
  "drv_list_val M h s =
     Option.bind (pair_val (lv_list_meta M) (slice_val un_drv_policies (drv_policy_val M)) h (dlo_meta s, dlo_items s))
       (drv_list_value s)"

definition drv_list_refs :: "'l meaning \<Rightarrow> 'l memory \<Rightarrow> 'l drv_list_obj \<Rightarrow> addr set" where
  "drv_list_refs M h s = pair_refs (lr_list_meta M) (slice_refs un_drv_policies (drv_policy_refs M)) h (dlo_meta s, dlo_items s)"

section \<open>Every method is a deep copy\<close>

lemma drv_drain_deep: "deep_copy drv_drain_val drv_drain_refs DrvDrainPolicy_DeepCopyInto"
  by (rule deep_copy.struct [OF pair_deep [OF bool_ptr.deep_copy_axioms
          pair_deep [OF bool_ptr.deep_copy_axioms bool_ptr.deep_copy_axioms]],
        where part = "\<lambda>s. (ddo_enable s, ddo_full_node s, ddo_delete_empty_dir s)" and mk = drv_drain_value
          and put = "\<lambda>s (e, f, d). s\<lparr>ddo_enable := e, ddo_full_node := f, ddo_delete_empty_dir := d\<rparr>"])
    (auto simp: drv_drain_val_def drv_drain_refs_def DrvDrainPolicy_DeepCopyInto_def drv_drain_value_def copied)

lemma drv_upgrade_deep: "deep_copy drv_upgrade_val drv_upgrade_refs DrvUpgradePolicy_DeepCopyInto"
  by (rule deep_copy.struct [OF drv_drain_deep, where part = duo_drain and mk = drv_upgrade_value
          and put = "\<lambda>s d. s\<lparr>duo_drain := d\<rparr>"])
    (auto simp: drv_upgrade_val_def drv_upgrade_refs_def DrvUpgradePolicy_DeepCopyInto_def drv_upgrade_value_def Let_def
      split_def map_conv_bind_option comp_def)

lemma installer_pointer: "deep_copy (pointer_val un_drv_installer plain_val) (pointer_refs un_drv_installer plain_refs)
    (pointer_copy CDrvInstaller un_drv_installer zero_installer plain_copy)"
  by (rule pointer_deep) (simp_all add: un_drv_defs plain.deep_copy_axioms)

lemma drv_spec_deep:
  assumes "library_contract L M"
  shows "deep_copy (drv_spec_val M) (drv_spec_refs M) (TenstorrentDriverPolicySpec_DeepCopyInto L)"
proof -
  note fields = pair_deep [OF selector_deep [OF assms] pair_deep [OF selector_deep [OF assms] pair_deep [OF drv_upgrade_deep installer_pointer]]]
  show ?thesis
    by (rule deep_copy.struct [OF fields,
          where part = "\<lambda>s. (dso_affinity s, dso_selector s, dso_upgrade s, dso_installer s)" and mk = drv_spec_value
            and put = "\<lambda>s (a, n, u, f). s\<lparr>dso_affinity := a, dso_selector := n, dso_upgrade := u, dso_installer := f\<rparr>"])
      (auto simp: drv_spec_val_def drv_spec_refs_def TenstorrentDriverPolicySpec_DeepCopyInto_def drv_spec_value_def copied)
qed

lemma drv_node_deep:
  assumes "library_contract L M"
  shows "deep_copy (drv_node_val M) (drv_node_refs M) (DriverNodeStatus_DeepCopyInto L)"
proof -
  note time = library_contract_parts(3) [OF assms]
  show ?thesis
    by (rule deep_copy.struct [OF time, where part = dno_time and mk = drv_node_value and put = "\<lambda>s t. s\<lparr>dno_time := t\<rparr>"])
      (auto simp: drv_node_val_def drv_node_refs_def DriverNodeStatus_DeepCopyInto_def drv_node_value_def Let_def split_def
        map_conv_bind_option comp_def)
qed

lemma drv_nodes_deep:
  assumes "library_contract L M"
  shows "deep_copy (slice_val un_drv_nodes (drv_node_val M)) (slice_refs un_drv_nodes (drv_node_refs M))
    (slice_copy CDrvNodes un_drv_nodes (zero_drv_node L) (DriverNodeStatus_DeepCopyInto L))"
  by (rule slice_deep) (simp_all add: un_drv_defs drv_node_deep [OF assms])

lemma drv_status_deep:
  assumes "library_contract L M"
  shows "deep_copy (drv_status_val M) (drv_status_refs M) (TenstorrentDriverPolicyStatus_DeepCopyInto L)"
  by (rule deep_copy.struct [OF pair_deep [OF conditions_deep [OF assms] drv_nodes_deep [OF assms]],
        where part = "\<lambda>s. (dto_conds s, dto_nodes s)" and mk = drv_status_value
          and put = "\<lambda>s (c, n). s\<lparr>dto_conds := c, dto_nodes := n\<rparr>"])
    (auto simp: drv_status_val_def drv_status_refs_def TenstorrentDriverPolicyStatus_DeepCopyInto_def drv_status_value_def copied)

lemma drv_policy_deep:
  assumes "library_contract L M"
  shows "deep_copy (drv_policy_val M) (drv_policy_refs M) (TenstorrentDriverPolicy_DeepCopyInto L)"
  by (rule deep_copy.struct [OF pair_deep [OF library_contract_parts(4) [OF assms]
          pair_deep [OF drv_spec_deep [OF assms] drv_status_deep [OF assms]]],
        where part = "\<lambda>s. (dpo_meta s, dpo_spec s, dpo_status s)" and mk = drv_policy_value
          and put = "\<lambda>s (m, x, t). s\<lparr>dpo_meta := m, dpo_spec := x, dpo_status := t\<rparr>"])
    (auto simp: drv_policy_val_def drv_policy_refs_def TenstorrentDriverPolicy_DeepCopyInto_def drv_policy_value_def copied)

lemma drv_policies_deep:
  assumes "library_contract L M"
  shows "deep_copy (slice_val un_drv_policies (drv_policy_val M)) (slice_refs un_drv_policies (drv_policy_refs M))
    (slice_copy CDrvPolicies un_drv_policies (zero_drv_policy L) (TenstorrentDriverPolicy_DeepCopyInto L))"
  by (rule slice_deep) (simp_all add: un_drv_defs drv_policy_deep [OF assms])

lemma drv_list_deep:
  assumes "library_contract L M"
  shows "deep_copy (drv_list_val M) (drv_list_refs M) (TenstorrentDriverPolicyList_DeepCopyInto L)"
  by (rule deep_copy.struct [OF pair_deep [OF library_contract_parts(5) [OF assms] drv_policies_deep [OF assms]],
        where part = "\<lambda>s. (dlo_meta s, dlo_items s)" and mk = drv_list_value
          and put = "\<lambda>s (m, i). s\<lparr>dlo_meta := m, dlo_items := i\<rparr>"])
    (auto simp: drv_list_val_def drv_list_refs_def TenstorrentDriverPolicyList_DeepCopyInto_def drv_list_value_def copied)

section \<open>DeepCopy returns a deep copy of the object, or nil\<close>

lemma plain_drv_into: "InstallerOverride_DeepCopyInto = plain_copy" "DriverSummary_DeepCopyInto = plain_copy"
  by (simp_all add: fun_eq_iff InstallerOverride_DeepCopyInto_def DriverSummary_DeepCopyInto_def plain_copy_def)

lemma small_drv_copies:
  "deep_copy (pointer_val un_drv_drain drv_drain_val) (pointer_refs un_drv_drain drv_drain_refs) DrvDrainPolicy_DeepCopy"
  "deep_copy (pointer_val un_drv_installer plain_val) (pointer_refs un_drv_installer plain_refs) InstallerOverride_DeepCopy"
  "deep_copy (pointer_val un_drv_summary plain_val) (pointer_refs un_drv_summary plain_refs) DriverSummary_DeepCopy"
  "deep_copy (pointer_val un_drv_upgrade drv_upgrade_val) (pointer_refs un_drv_upgrade drv_upgrade_refs) DrvUpgradePolicy_DeepCopy"
  unfolding DrvDrainPolicy_DeepCopy_def InstallerOverride_DeepCopy_def DriverSummary_DeepCopy_def
    DrvUpgradePolicy_DeepCopy_def plain_drv_into
  by (rule pointer_deep; simp add: un_drv_defs plain.deep_copy_axioms drv_drain_deep drv_upgrade_deep)+

lemma drv_copies:
  assumes "library_contract L M"
  shows "deep_copy (pointer_val un_drv_node (drv_node_val M)) (pointer_refs un_drv_node (drv_node_refs M)) (DriverNodeStatus_DeepCopy L)"
    "deep_copy (pointer_val un_drv_spec (drv_spec_val M)) (pointer_refs un_drv_spec (drv_spec_refs M))
       (TenstorrentDriverPolicySpec_DeepCopy L)"
    "deep_copy (pointer_val un_drv_status (drv_status_val M)) (pointer_refs un_drv_status (drv_status_refs M))
       (TenstorrentDriverPolicyStatus_DeepCopy L)"
    "deep_copy (pointer_val un_drv_policy (drv_policy_val M)) (pointer_refs un_drv_policy (drv_policy_refs M))
       (TenstorrentDriverPolicy_DeepCopy L)"
    "deep_copy (pointer_val un_drv_list (drv_list_val M)) (pointer_refs un_drv_list (drv_list_refs M))
       (TenstorrentDriverPolicyList_DeepCopy L)"
  unfolding DriverNodeStatus_DeepCopy_def TenstorrentDriverPolicySpec_DeepCopy_def TenstorrentDriverPolicyStatus_DeepCopy_def
    TenstorrentDriverPolicy_DeepCopy_def TenstorrentDriverPolicyList_DeepCopy_def
  by (rule pointer_deep;
      simp add: un_drv_defs drv_node_deep [OF assms] drv_spec_deep [OF assms] drv_status_deep [OF assms]
        drv_policy_deep [OF assms] drv_list_deep [OF assms])+

lemma drv_copy_nil:
  "TenstorrentDriverPolicy_DeepCopyObject L None h = Some (NilObject, h)"
  "TenstorrentDriverPolicyList_DeepCopyObject L None h = Some (NilObject, h)"
  by (simp_all add: TenstorrentDriverPolicy_DeepCopyObject_def TenstorrentDriverPolicyList_DeepCopyObject_def
      TenstorrentDriverPolicy_DeepCopy_def TenstorrentDriverPolicyList_DeepCopy_def pointer_copy_def)

text \<open>C21: \<open>DeepCopyObject\<close> of a policy and of a list of policies returns a new object of the same kind and the
  same value and leaves the memory that exists as it is. Afterwards no write to the copy, at any depth, changes the
  original, and no write to the original changes the copy. A nil pointer gives a nil object.\<close>

theorem driver_deep_copy:
  assumes "library_contract L M" "wf_heap h"
    "pointer_val un_drv_policy (drv_policy_val M) h (Some a) = Some (Some v)"
    "pointer_val un_drv_list (drv_list_val M) h (Some l) = Some (Some w)"
  shows "(\<exists>q h'. TenstorrentDriverPolicy_DeepCopyObject L (Some a) h = Some (DrvPolicyObject q, h') \<and> wf_heap h' \<and> grows h h' \<and>
      held_apart (pointer_val un_drv_policy (drv_policy_val M)) (hp_next h) h' (Some a) (Some q) (Some v)) \<and>
    (\<exists>q h'. TenstorrentDriverPolicyList_DeepCopyObject L (Some l) h = Some (DrvListObject q, h') \<and> wf_heap h' \<and> grows h h' \<and>
      held_apart (pointer_val un_drv_list (drv_list_val M)) (hp_next h) h' (Some l) (Some q) (Some w)) \<and>
    TenstorrentDriverPolicy_DeepCopyObject L None h = Some (NilObject, h) \<and>
    TenstorrentDriverPolicyList_DeepCopyObject L None h = Some (NilObject, h)"
  using object_promise [OF drv_copies(4) [OF assms(1)] assms(2,3) TenstorrentDriverPolicy_DeepCopyObject_def]
    object_promise [OF drv_copies(5) [OF assms(1)] assms(2,4) TenstorrentDriverPolicyList_DeepCopyObject_def]
  by (simp_all add: drv_copy_nil)

end
