(* ===== verification/DeepCopyCases.thy ===== *)
theory DeepCopyCases
  imports FirmwareDeepCopy DriverDeepCopy
begin

text \<open>
  The documented memory layout of the apimachinery structs, a library that meets the contract of
  \<open>ApiObjects\<close>, and two resources in memory to which the promises of the copies apply.
\<close>

section \<open>Library structs\<close>

text \<open>\<open>Time\<close> and \<open>Condition\<close> own no memory; \<open>LabelSelector\<close> has its maps and slices elsewhere, \<open>ObjectMeta\<close> a
  pointer to the deletion time, \<open>ListMeta\<close> one to a counter.\<close>

datatype machinery =
    MTime instant
  | MCondition mcond
  | MSelector "addr option" | MTerms label_selector
  | MMeta string string int64 "addr option"
  | MListMeta string string "addr option" | MCount int

definition un_time :: "machinery cell \<Rightarrow> instant option" where
  "un_time c = (case c of CLibrary (MTime t) \<Rightarrow> Some t | _ \<Rightarrow> None)"

definition un_terms :: "machinery cell \<Rightarrow> label_selector option" where
  "un_terms c = (case c of CLibrary (MTerms s) \<Rightarrow> Some s | _ \<Rightarrow> None)"

definition un_count :: "machinery cell \<Rightarrow> int option" where
  "un_count c = (case c of CLibrary (MCount n) \<Rightarrow> Some n | _ \<Rightarrow> None)"

lemmas un_machinery_defs = un_time_def un_terms_def un_count_def

text \<open>The pointer inside a struct, and the struct with another one.\<close>

fun inner :: "machinery \<Rightarrow> addr option" where
  "inner (MSelector p) = p"
| "inner (MMeta n u g p) = p"
| "inner (MListMeta v c p) = p"
| "inner _ = None"

fun with_inner :: "machinery \<Rightarrow> addr option \<Rightarrow> machinery" where
  "with_inner (MSelector p) q = MSelector q"
| "with_inner (MMeta n u g p) q = MMeta n u g q"
| "with_inner (MListMeta v c p) q = MListMeta v c q"
| "with_inner x q = x"

definition inner_copy :: "('a \<Rightarrow> machinery) \<Rightarrow> (machinery cell \<Rightarrow> 'a option) \<Rightarrow> 'a \<Rightarrow> (machinery, machinery cell) copier" where
  "inner_copy mk un zero s h =
     map_option (\<lambda>(q, h). (with_inner s q, h)) (pointer_copy (\<lambda>x. CLibrary (mk x)) un zero plain_copy (inner s) h)"

definition inner_refs :: "(machinery cell \<Rightarrow> 'a option) \<Rightarrow> machinery memory \<Rightarrow> machinery \<Rightarrow> addr set" where
  "inner_refs un h s = pointer_refs un plain_refs h (inner s)"

fun time_value :: "machinery \<Rightarrow> instant option" where
  "time_value (MTime t) = Some t"
| "time_value _ = None"

fun condition_value :: "machinery \<Rightarrow> mcond option" where
  "condition_value (MCondition c) = Some c"
| "condition_value _ = None"

fun selector_value :: "machinery \<Rightarrow> label_selector option \<Rightarrow> label_selector option" where
  "selector_value (MSelector p) x = Some (case x of None \<Rightarrow> empty_selector | Some s \<Rightarrow> s)"
| "selector_value _ x = None"

fun meta_value_of :: "machinery \<Rightarrow> instant option \<Rightarrow> meta_value option" where
  "meta_value_of (MMeta n u g p) t = Some \<lparr>mv_name = n, mv_uid = u, mv_generation = g, mv_deleted = t\<rparr>"
| "meta_value_of _ t = None"

fun list_meta_of :: "machinery \<Rightarrow> int option \<Rightarrow> list_meta option" where
  "list_meta_of (MListMeta v c p) n = Some \<lparr>lm_version = v, lm_continue = c, lm_remaining = n\<rparr>"
| "list_meta_of _ n = None"

definition machinery_library :: "machinery library" where
  "machinery_library =
     \<lparr>lc_selector = inner_copy MTerms un_terms empty_selector, lc_condition = plain_copy, lc_time = plain_copy,
      lc_meta = inner_copy MTime un_time 0, lc_list_meta = inner_copy MCount un_count 0,
      lz_selector = MSelector None, lz_condition = MTime 0, lz_time = MTime 0, lz_meta = MMeta '''' '''' 0 None,
      lz_list_meta = MListMeta '''' '''' None\<rparr>"

definition machinery_meaning :: "machinery meaning" where
  "machinery_meaning =
     \<lparr>lv_selector = (\<lambda>h s. Option.bind (pointer_val un_terms plain_val h (inner s)) (selector_value s)),
      lv_condition = (\<lambda>h. condition_value), lv_time = (\<lambda>h. time_value),
      lv_meta = (\<lambda>h s. Option.bind (pointer_val un_time plain_val h (inner s)) (meta_value_of s)),
      lv_list_meta = (\<lambda>h s. Option.bind (pointer_val un_count plain_val h (inner s)) (list_meta_of s)),
      lr_selector = inner_refs un_terms, lr_condition = plain_refs, lr_time = plain_refs,
      lr_meta = inner_refs un_time, lr_list_meta = inner_refs un_count\<rparr>"

lemma inner_deep:
  assumes "\<And>x. un (CLibrary (mk x)) = Some x" "\<And>s w v. mean s w = Some v \<Longrightarrow> (\<forall>q. inner (with_inner s q) = q)"
    "\<And>s q. mean (with_inner s q) = mean s"
  shows "deep_copy (\<lambda>h s. Option.bind (pointer_val un plain_val h (inner s)) (mean s)) (inner_refs un) (inner_copy mk un zero)"
proof -
  have "deep_copy (pointer_val un plain_val) (pointer_refs un plain_refs) (pointer_copy (\<lambda>x. CLibrary (mk x)) un zero plain_copy)"
    by (rule pointer_deep) (simp_all add: assms(1) plain.deep_copy_axioms)
  then show ?thesis
    by (rule deep_copy.struct [where part = inner and put = with_inner and mk = mean])
      (use assms(2,3) in \<open>auto simp: inner_copy_def inner_refs_def\<close>)
qed

lemma plain_struct_deep: "deep_copy (\<lambda>h. f) plain_refs plain_copy"
  by unfold_locales (auto simp: plain_defs grows_refl)

lemma selector_inner: "selector_value s w = Some v \<Longrightarrow> inner (with_inner s q) = q" "selector_value (with_inner s q) = selector_value s"
  by (cases s; simp add: fun_eq_iff)+

lemma meta_inner: "meta_value_of s w = Some v \<Longrightarrow> inner (with_inner s q) = q" "meta_value_of (with_inner s q) = meta_value_of s"
  by (cases s; simp add: fun_eq_iff)+

lemma list_inner: "list_meta_of s w = Some v \<Longrightarrow> inner (with_inner s q) = q" "list_meta_of (with_inner s q) = list_meta_of s"
  by (cases s; simp add: fun_eq_iff)+

lemma machinery_contract: "library_contract machinery_library machinery_meaning"
  unfolding library_contract_def machinery_library_def machinery_meaning_def library.simps meaning.simps
  by (intro conjI plain_struct_deep inner_deep)
    (auto simp: un_machinery_defs dest: selector_inner(1) meta_inner(1) list_inner(1)
      simp: selector_inner(2) meta_inner(2) list_inner(2))

interpretation machinery_conditions: sliced CConditions un_conditions "lv_condition machinery_meaning"
    "lr_condition machinery_meaning" "lc_condition machinery_library" "lz_condition machinery_library"
  by (intro sliced.intro cell_type.intro library_contract_parts(2) [OF machinery_contract])
    (simp add: un_conditions_def)

section \<open>Two resources in memory\<close>

definition memory_of :: "machinery cell list \<Rightarrow> machinery memory" where
  "memory_of cs = \<lparr>hp_next = length cs, hp_cell = (\<lambda>a. if a < length cs then Some (cs ! a) else None)\<rparr>"

lemma memory_wf: "wf_heap (memory_of cs)"
  by (simp add: wf_heap_def memory_of_def)

lemma memory_load [simp]: "load un a (memory_of cs) = (if a < length cs then un (cs ! a) else None)"
  by (simp add: load_def memory_of_def)

definition a_selector :: label_selector where
  "a_selector = \<lparr>match_labels = [(''tt'', ''true'')], match_exprs = []\<rparr>"

definition a_condition :: mcond where
  "a_condition = \<lparr>mc_type = ''Ready'', mc_status = ConditionTrue, mc_reason = ''UpToDate'', mc_message = '''', mc_gen = 1, mc_time = 7\<rparr>"

definition fw_cells :: "machinery cell list" where
  "fw_cells =
     (let drain = \<lparr>fdo_enable = Some 0, fdo_force = True, fdo_delete_empty_dir = None, fdo_timeout = 300\<rparr>;
          upgrade = \<lparr>fuo_auto = Some 0, fuo_max_parallel = 2, fuo_flash_timeout = 600, fuo_drain = drain, fuo_halt = Some 1\<rparr>;
          spec = \<lparr>fso_version = ''19.2.0'', fso_readback = '''', fso_bundle_url = '''', fso_affinity = Some 2, fso_selector = None,
            fso_paused = False, fso_upgrade = upgrade, fso_flasher = Some 4\<rparr>;
          status = \<lparr>fto_observed = 1, fto_desired = ''19.2.0'', fto_conds = Slice 5 0 1, fto_summary = zero_fw_summary,
            fto_nodes = Slice 6 1 1\<rparr>;
          policy = \<lparr>fpo_type = zero_type, fpo_meta = MMeta ''gold'' ''u'' 1 (Some 7), fpo_spec = spec, fpo_status = status\<rparr>;
          node = (\<lambda>n st. \<lparr>fno_name = n, fno_state = st, fno_reason = '''', fno_current = '''', fno_job = '''', fno_msg = '''',
            fno_time = MTime 5\<rparr>)
      in [CBool True, CBool False, CSelector (MSelector (Some 3)), CLibrary (MTerms a_selector), CFwFlasher zero_flasher,
          CConditions [MCondition a_condition], CFwNodes [node ''n1'' ''Pending'', node ''n2'' ''Done''], CLibrary (MTime 9),
          CFwPolicy policy, CFwPolicies [policy, policy],
          CFwList \<lparr>flo_type = zero_type, flo_meta = MListMeta ''12'' '''' None, flo_items = Slice 9 0 2\<rparr>])"

definition fw_cells_value :: "type_meta \<times> fw_policy" where
  "fw_cells_value =
     (zero_type, \<lparr>fp_name = ''gold'', fp_uid = ''u'', fp_generation = 1, fp_deleted = Some 9,
        fp_spec = \<lparr>fs_version = ''19.2.0'', fs_readback = '''', fs_bundle_url = '''', fs_affinity = Some a_selector, fs_selector = None,
          fs_paused = False,
          fs_upgrade = \<lparr>fu_auto = Some True, fu_max_parallel = 2, fu_flash_timeout = 600,
            fu_drain = \<lparr>fd_enable = Some True, fd_force = True, fd_delete_empty_dir = None, fd_timeout = 300\<rparr>, fu_halt = Some False\<rparr>,
          fs_flasher = Some zero_flasher\<rparr>,
        fp_status = \<lparr>ft_observed = 1, ft_desired = ''19.2.0'', ft_conds = [a_condition], ft_summary = zero_fw_summary,
          ft_nodes = [\<lparr>ns_name = ''n2'', ns_state = NodeStateDone, ns_reason = '''', ns_current = '''', ns_job = '''', ns_msg = '''',
            ns_time = 5\<rparr>]\<rparr>\<rparr>)"

lemmas reading = Let_def pointer_val_def plain_val_def slice_val_def window_def pair_val_def bool_val_def selector_val_def conditions_val_def
  un_bool_def un_selector_def un_conditions_def un_machinery_defs machinery_meaning_def elements_def

lemmas fw_reading = reading un_fw_defs fw_list_val_def fw_list_value_def fw_policy_val_def fw_policy_value_def fw_status_val_def
  fw_status_value_def fw_node_val_def fw_node_value_def fw_spec_val_def fw_spec_value_def fw_upgrade_val_def fw_upgrade_value_def
  fw_drain_val_def fw_drain_value_def node_state_named_def fw_cells_def fw_cells_value_def

lemma fw_cells_read:
  "pointer_val un_fw_policy (fw_policy_val machinery_meaning) (memory_of fw_cells) (Some 8) = Some (Some fw_cells_value)"
  "pointer_val un_fw_list (fw_list_val machinery_meaning) (memory_of fw_cells) (Some 10) =
     Some (Some (zero_type, \<lparr>lm_version = ''12'', lm_continue = '''', lm_remaining = None\<rparr>, Some [fw_cells_value, fw_cells_value]))"
  by (simp_all add: fw_reading)

lemma firmware_deep_copy_witness:
  "\<exists>q h'. TenstorrentFirmwarePolicyList_DeepCopyObject machinery_library (Some 10) (memory_of fw_cells) = Some (FwListObject q, h') \<and>
     wf_heap h' \<and> grows (memory_of fw_cells) h' \<and>
     held_apart (pointer_val un_fw_list (fw_list_val machinery_meaning)) 11 h' (Some 10) (Some q)
       (Some (zero_type, \<lparr>lm_version = ''12'', lm_continue = '''', lm_remaining = None\<rparr>, Some [fw_cells_value, fw_cells_value]))"
proof -
  have n: "hp_next (memory_of fw_cells) = 11" by (simp add: memory_of_def fw_cells_def Let_def)
  show ?thesis using firmware_deep_copy [OF machinery_contract memory_wf fw_cells_read] unfolding n by blast
qed

definition drv_cells :: "machinery cell list" where
  "drv_cells =
     (let drain = \<lparr>ddo_enable = Some 0, ddo_full_node = Some 1, ddo_pod_selector = ''app'', ddo_force = False,
            ddo_delete_empty_dir = None, ddo_timeout = 300\<rparr>;
          spec = \<lparr>dso_version = ''2.4.1'', dso_affinity = None, dso_selector = Some 2, dso_paused = False,
            dso_upgrade = \<lparr>duo_drain = drain, duo_force_unload = True\<rparr>, dso_installer = Some 4\<rparr>;
          status = \<lparr>dto_observed = 1, dto_desired = ''2.4.1'', dto_conds = NilSlice, dto_summary = zero_drv_summary,
            dto_daemonset = ''gold'', dto_nodes = Slice 6 0 1\<rparr>;
          policy = \<lparr>dpo_type = zero_type, dpo_meta = MMeta ''gold'' ''u'' 1 None, dpo_spec = spec, dpo_status = status\<rparr>
      in [CBool True, CBool False, CSelector (MSelector (Some 3)), CLibrary (MTerms a_selector), CDrvInstaller zero_installer,
          CLibrary (MCount 3),
          CDrvNodes [\<lparr>dno_name = ''n1'', dno_state = ''Upgrading'', dno_reason = '''', dno_current = '''', dno_msg = '''',
            dno_time = MTime 5\<rparr>],
          CDrvPolicy policy, CDrvPolicies [policy],
          CDrvList \<lparr>dlo_type = zero_type, dlo_meta = MListMeta ''12'' '''' (Some 5), dlo_items = Slice 8 0 1\<rparr>])"

definition drv_cells_value :: "type_meta \<times> drv_policy" where
  "drv_cells_value =
     (zero_type, \<lparr>dp_name = ''gold'', dp_uid = ''u'', dp_generation = 1, dp_deleted = None,
        dp_spec = \<lparr>dv_version = ''2.4.1'', dv_affinity = None, dv_selector = Some a_selector, dv_paused = False,
          dv_upgrade = \<lparr>du_drain = \<lparr>dd_enable = Some True, dd_full_node = Some False, dd_pod_selector = ''app'', dd_force = False,
              dd_delete_empty_dir = None, dd_timeout = 300\<rparr>, du_force_unload = True\<rparr>,
          dv_installer = Some zero_installer\<rparr>,
        dp_status = \<lparr>dst_observed = 1, dst_desired = ''2.4.1'', dst_conds = [], dst_summary = zero_drv_summary,
          dst_daemonset = ''gold'',
          dst_nodes = [\<lparr>dn_name = ''n1'', dn_state = DrvUpgrading, dn_reason = '''', dn_current = '''', dn_msg = '''', dn_time = 5\<rparr>]\<rparr>\<rparr>)"

lemmas drv_reading = reading un_drv_defs drv_list_val_def drv_list_value_def drv_policy_val_def drv_policy_value_def
  drv_status_val_def drv_status_value_def drv_node_val_def drv_node_value_def drv_spec_val_def drv_spec_value_def
  drv_upgrade_val_def drv_upgrade_value_def drv_drain_val_def drv_drain_value_def drv_state_named_def drv_cells_def
  drv_cells_value_def

lemma drv_cells_read:
  "pointer_val un_drv_policy (drv_policy_val machinery_meaning) (memory_of drv_cells) (Some 7) = Some (Some drv_cells_value)"
  "pointer_val un_drv_list (drv_list_val machinery_meaning) (memory_of drv_cells) (Some 9) =
     Some (Some (zero_type, \<lparr>lm_version = ''12'', lm_continue = '''', lm_remaining = Some 3\<rparr>, Some [drv_cells_value]))"
  by (simp_all add: drv_reading)

lemma driver_deep_copy_witness:
  "\<exists>q h'. TenstorrentDriverPolicyList_DeepCopyObject machinery_library (Some 9) (memory_of drv_cells) = Some (DrvListObject q, h') \<and>
     wf_heap h' \<and> grows (memory_of drv_cells) h' \<and>
     held_apart (pointer_val un_drv_list (drv_list_val machinery_meaning)) 10 h' (Some 9) (Some q)
       (Some (zero_type, \<lparr>lm_version = ''12'', lm_continue = '''', lm_remaining = Some 3\<rparr>, Some [drv_cells_value]))"
proof -
  have n: "hp_next (memory_of drv_cells) = 10" by (simp add: memory_of_def drv_cells_def Let_def)
  show ?thesis using driver_deep_copy [OF machinery_contract memory_wf drv_cells_read] unfolding n by blast
qed

end
