(* ===== verification/Manager.thy ===== *)
theory Manager
  imports DriverReconcile FirmwareReconcile
begin

text \<open>
  \<open>cmd/manager/main.go\<close>: the command line, the order in which the process is set up, and the watches
  the two controllers ask for (\<open>SetupWithManager\<close>), with the registration of the API groups
  (\<open>groupversion_info.go\<close>). The flags of the libraries are a parameter of the parser, and the answers
  of controller-runtime a parameter of the start-up.
\<close>

section \<open>API groups\<close>

record group_version =
  gv_group :: string
  gv_version :: string

definition driver_GroupVersion :: group_version where
  "driver_GroupVersion = \<lparr>gv_group = ''driver.tenstorrent.com'', gv_version = ''v1alpha1''\<rparr>"

definition firmware_GroupVersion :: group_version where
  "firmware_GroupVersion = \<lparr>gv_group = ''firmware.tenstorrent.com'', gv_version = ''v1alpha1''\<rparr>"

definition driver_registered :: "string list" where
  "driver_registered = [''TenstorrentDriverPolicy'', ''TenstorrentDriverPolicyList'']"

definition firmware_registered :: "string list" where
  "firmware_registered = [''TenstorrentFirmwarePolicy'', ''TenstorrentFirmwarePolicyList'']"

text \<open>An API version as owner references spell it.\<close>

definition api_version :: "group_version \<Rightarrow> string" where
  "api_version gv = gv_group gv @ ''/'' @ gv_version gv"

section \<open>Watches\<close>

text \<open>The kinds a controller is for, owns and watches; an event on a watched object is mapped to requests
  by a function of the controller.\<close>

record wiring =
  w_for :: "group_version \<times> string"
  w_owns :: string
  w_watches :: string
  w_map :: "platform \<Rightarrow> string list io"

definition driver_SetupWithManager :: wiring where
  "driver_SetupWithManager = \<lparr>w_for = (driver_GroupVersion, ''TenstorrentDriverPolicy''),
     w_owns = ''DaemonSet'', w_watches = ''Node'', w_map = mapNodeToDriverCRs\<rparr>"

definition firmware_SetupWithManager :: wiring where
  "firmware_SetupWithManager = \<lparr>w_for = (firmware_GroupVersion, ''TenstorrentFirmwarePolicy''),
     w_owns = ''Job'', w_watches = ''Node'', w_map = mapNodeToCRs\<rparr>"

section \<open>The flag package\<close>

text \<open>\<open>strconv.ParseBool\<close>.\<close>

definition parse_bool :: "string \<Rightarrow> bool option" where
  "parse_bool s =
     (if s \<in> {''1'', ''t'', ''T'', ''TRUE'', ''true'', ''True''} then Some True
      else if s \<in> {''0'', ''f'', ''F'', ''FALSE'', ''false'', ''False''} then Some False
      else None)"

record options =
  op_metrics :: string
  op_probe :: string
  op_leader :: bool

definition default_options :: options where
  "default_options = \<lparr>op_metrics = '':8080'', op_probe = '':8081'', op_leader = False\<rparr>"

text \<open>A flag that a library registered (those of zap, and \<open>kubeconfig\<close>): whether it may stand without a
  value, and the values it takes.\<close>

record lib_flag =
  lf_bool :: bool
  lf_accepts :: "string \<Rightarrow> bool"

type_synonym lib_flags = "string \<rightharpoonup> lib_flag"

definition flag_is_bool :: "lib_flags \<Rightarrow> string \<Rightarrow> bool option" where
  "flag_is_bool lib name =
     (if name = ''metrics-bind-address'' \<or> name = ''health-probe-bind-address'' then Some False
      else if name = ''leader-elect'' then Some True
      else map_option lf_bool (lib name))"

definition set_flag :: "lib_flags \<Rightarrow> string \<Rightarrow> string \<Rightarrow> options \<Rightarrow> options option" where
  "set_flag lib name v ops =
     (if name = ''metrics-bind-address'' then Some (ops\<lparr>op_metrics := v\<rparr>)
      else if name = ''health-probe-bind-address'' then Some (ops\<lparr>op_probe := v\<rparr>)
      else if name = ''leader-elect'' then map_option (\<lambda>b. ops\<lparr>op_leader := b\<rparr>) (parse_bool v)
      else (case lib name of
          None \<Rightarrow> None
        | Some f \<Rightarrow> if lf_accepts f v then Some ops else None))"

text \<open>The name of a flag ends at the first \<open>=\<close>.\<close>

fun cut_eq :: "string \<Rightarrow> string \<times> string option" where
  "cut_eq [] = ([], None)"
| "cut_eq (c # cs) =
     (if c = CHR ''='' then ([], Some cs) else (let (a, b) = cut_eq cs in (c # a, b)))"

text \<open>\<open>flag.Parse\<close> with \<open>ExitOnError\<close>: the exit code when the process ends here, or the options. Parsing
  ends at the first argument that is no flag, and after \<open>--\<close>.\<close>

fun parse_args :: "lib_flags \<Rightarrow> options \<Rightarrow> string list \<Rightarrow> nat + options" where
  "parse_args lib ops [] = Inr ops"
| "parse_args lib ops (s # rest) =
     (if length s < 2 \<or> hd s \<noteq> CHR ''-'' then Inr ops
      else if s = ''--'' then Inr ops
      else (let name = (if s ! 1 = CHR ''-'' then drop 2 s else drop 1 s) in
        if name = [] \<or> hd name = CHR ''-'' \<or> hd name = CHR ''='' then Inl 2
        else (let (name, value) = cut_eq name in
          case flag_is_bool lib name of
            None \<Rightarrow> Inl (if name = ''help'' \<or> name = ''h'' then 0 else 2)
          | Some True \<Rightarrow>
              (case set_flag lib name (case value of None \<Rightarrow> ''true'' | Some v \<Rightarrow> v) ops of
                 None \<Rightarrow> Inl 2
               | Some ops \<Rightarrow> parse_args lib ops rest)
          | Some False \<Rightarrow>
              (case value of
                 Some v \<Rightarrow>
                   (case set_flag lib name v ops of None \<Rightarrow> Inl 2 | Some ops \<Rightarrow> parse_args lib ops rest)
               | None \<Rightarrow>
                   (case rest of
                      [] \<Rightarrow> Inl 2
                    | v # rest \<Rightarrow>
                        (case set_flag lib name v ops of
                           None \<Rightarrow> Inl 2 | Some ops \<Rightarrow> parse_args lib ops rest))))))"

section \<open>Start-up\<close>

text \<open>What the process asks of the libraries, in the order of the source.\<close>

record manager_options =
  mo_metrics :: string
  mo_probe :: string
  mo_leader :: bool
  mo_leader_id :: string

record reconciler_config =
  rc_recorder :: string
  rc_wiring :: wiring

datatype step =
    AddToScheme string "string list"
  | ParseFlags "string list"
  | GetConfig
  | NewManager manager_options
  | SetupController reconciler_config
  | AddHealthzCheck string
  | AddReadyzCheck string
  | StartManager

text \<open>The answer to a step may depend on all steps before it.\<close>

type_synonym libs = "step list \<Rightarrow> step \<Rightarrow> err option"

text \<open>\<open>if err := ...; err != nil { os.Exit(code) }\<close>, and the rest of the function otherwise. The result is
  the steps taken and the exit code of the process.\<close>

definition must :: "libs \<Rightarrow> nat \<Rightarrow> step \<Rightarrow> (step list \<Rightarrow> step list \<times> nat) \<Rightarrow> step list \<Rightarrow> step list \<times> nat" where
  "must lib code st k = (\<lambda>done.
     (case lib done st of Some e \<Rightarrow> (done @ [st], code) | None \<Rightarrow> k (done @ [st])))"

text \<open>\<open>init\<close>: the schemes; \<open>utilruntime.Must\<close> panics, which ends the process with code 2.\<close>

definition init_scheme :: "libs \<Rightarrow> (step list \<Rightarrow> step list \<times> nat) \<Rightarrow> step list \<Rightarrow> step list \<times> nat" where
  "init_scheme lib k =
     must lib 2 (AddToScheme ''kubernetes'' [])
     (must lib 2 (AddToScheme (gv_group driver_GroupVersion) driver_registered)
     (must lib 2 (AddToScheme (gv_group firmware_GroupVersion) firmware_registered) k))"

definition manager_of :: "options \<Rightarrow> manager_options" where
  "manager_of ops = \<lparr>mo_metrics = op_metrics ops, mo_probe = op_probe ops, mo_leader = op_leader ops,
     mo_leader_id = ''tt-k8s-driver-manager.tenstorrent.com''\<rparr>"

definition driver_reconciler :: reconciler_config where
  "driver_reconciler = \<lparr>rc_recorder = ''tt-k8s-driver-manager'', rc_wiring = driver_SetupWithManager\<rparr>"

definition firmware_reconciler :: reconciler_config where
  "firmware_reconciler = \<lparr>rc_recorder = ''tt-k8s-driver-manager'', rc_wiring = firmware_SetupWithManager\<rparr>"

definition main_func :: "libs \<Rightarrow> lib_flags \<Rightarrow> string list \<Rightarrow> step list \<Rightarrow> step list \<times> nat" where
  "main_func lib flags args = (\<lambda>done.
     (case parse_args flags default_options args of
        Inl code \<Rightarrow> (done @ [ParseFlags args], code)
      | Inr ops \<Rightarrow>
          (must lib 1 GetConfig
          (must lib 1 (NewManager (manager_of ops))
          (must lib 1 (SetupController driver_reconciler)
          (must lib 1 (SetupController firmware_reconciler)
          (must lib 1 (AddHealthzCheck ''healthz'')
          (must lib 1 (AddReadyzCheck ''readyz'')
          (must lib 1 StartManager (\<lambda>done. (done, 0))))))))) (done @ [ParseFlags args])))"

definition run_process :: "libs \<Rightarrow> lib_flags \<Rightarrow> string list \<Rightarrow> step list \<times> nat" where
  "run_process lib flags args = init_scheme lib (main_func lib flags args) []"

section \<open>Facts\<close>

lemma cut_eq_app: "CHR ''='' \<notin> set name \<Longrightarrow> cut_eq (name @ CHR ''='' # v) = (name, Some v)"
  by (induction name) auto

lemma cut_eq_none: "CHR ''='' \<notin> set name \<Longrightarrow> cut_eq name = (name, None)"
  by (induction name) auto

text \<open>The arguments of the Deployment in the chart.\<close>

definition chart_args :: "options \<Rightarrow> string list" where
  "chart_args ops = [''--leader-elect='' @ (if op_leader ops then ''true'' else ''false''),
     ''--health-probe-bind-address='' @ op_probe ops, ''--metrics-bind-address='' @ op_metrics ops]"

text \<open>A run of \<open>must\<close> over a list of steps.\<close>

fun run_steps :: "libs \<Rightarrow> nat \<Rightarrow> step list \<Rightarrow> (step list \<Rightarrow> step list \<times> nat) \<Rightarrow> step list \<Rightarrow> step list \<times> nat" where
  "run_steps lib code [] k = k"
| "run_steps lib code (st # sts) k = must lib code st (run_steps lib code sts k)"

definition plan :: "options \<Rightarrow> step list" where
  "plan ops = [GetConfig, NewManager (manager_of ops), SetupController driver_reconciler,
     SetupController firmware_reconciler, AddHealthzCheck ''healthz'', AddReadyzCheck ''readyz'', StartManager]"

text \<open>The run stops at the first step that fails, or goes on with \<open>k\<close>.\<close>

lemma run_steps_find:
  "run_steps lib code sts k done =
     (case find (\<lambda>i. lib (done @ take i sts) (sts ! i) \<noteq> None) [0..<length sts] of
        None \<Rightarrow> k (done @ sts) | Some i \<Rightarrow> (done @ take (Suc i) sts, code))"
proof (induction sts arbitrary: "done")
  case (Cons st sts)
  have "[0..<length (st # sts)] = 0 # map Suc [0..<length sts]"
    by (simp add: upt_conv_Cons map_Suc_upt del: upt_Suc)
  then show ?case
    by (simp add: must_def Cons find_map comp_def split: option.split)
qed simp


lemma main_func_plan:
  "main_func lib flags args done =
     (case parse_args flags default_options args of
        Inl code \<Rightarrow> (done @ [ParseFlags args], code)
      | Inr ops \<Rightarrow> run_steps lib 1 (plan ops) (\<lambda>done. (done, 0)) (done @ [ParseFlags args]))"
  by (cases "parse_args flags default_options args") (simp_all add: main_func_def plan_def)

definition scheme_steps :: "step list" where
  "scheme_steps = [AddToScheme ''kubernetes'' [], AddToScheme (gv_group driver_GroupVersion) driver_registered,
     AddToScheme (gv_group firmware_GroupVersion) firmware_registered]"

lemma init_scheme_steps: "init_scheme lib k = run_steps lib 2 scheme_steps k"
  by (simp add: init_scheme_def scheme_steps_def)

text \<open>C38: The command line of the chart's Deployment sets exactly what it says, whatever addresses it holds and
  whatever other flags the libraries define; without arguments leader election is off, as it is with
  the chart's default value.\<close>

theorem chart_args_roundtrip:
  "parse_args flags default_options (chart_args ops) = Inr ops \<and>
   parse_args flags default_options [] = Inr \<lparr>op_metrics = '':8080'', op_probe = '':8081'', op_leader = False\<rparr>"
proof -
  have cut: "cut_eq (''leader-elect='' @ v) = (''leader-elect'', Some v)"
    "cut_eq (''health-probe-bind-address='' @ v) = (''health-probe-bind-address'', Some v)"
    "cut_eq (''metrics-bind-address='' @ v) = (''metrics-bind-address'', Some v)" for v
    by (simp_all add: Let_def)
  show ?thesis
    by (cases ops) (simp add: chart_args_def cut [simplified] flag_is_bool_def set_flag_def parse_bool_def
        default_options_def Let_def)
qed

text \<open>C17: Start-up is all or nothing. The process registers the Kubernetes types and both API groups, parses its
  flags, then creates the manager, sets up the driver and the firmware controller and both health
  checks, and only then starts the manager. The first of these steps that fails ends it, with exit code
  1 (2 for the schemes, which panic) and without any later step; it ends with code 0 exactly when
  every step succeeds and the manager returns without an error.\<close>

theorem startup_all_or_nothing:
  assumes "parse_args flags default_options args = Inr ops"
    "all = [AddToScheme ''kubernetes'' [], AddToScheme ''driver.tenstorrent.com'' driver_registered,
       AddToScheme ''firmware.tenstorrent.com'' firmware_registered, ParseFlags args, GetConfig,
       NewManager (manager_of ops), SetupController driver_reconciler, SetupController firmware_reconciler,
       AddHealthzCheck ''healthz'', AddReadyzCheck ''readyz'', StartManager]"
  shows "run_process lib flags args =
    (case find (\<lambda>i. i \<noteq> 3 \<and> lib (take i all) (all ! i) \<noteq> None) [0..<length all] of
       None \<Rightarrow> (all, 0)
     | Some i \<Rightarrow> (take (Suc i) all, if i < 3 then 2 else 1))"
proof -
  have all: "all = (scheme_steps @ [ParseFlags args]) @ plan ops"
    by (simp add: assms(2) scheme_steps_def plan_def driver_GroupVersion_def firmware_GroupVersion_def)
  have len: "length scheme_steps = 3" by (simp add: scheme_steps_def)
  have early: "find P [0..<3] = Some i \<Longrightarrow> i < 3" for P and i :: nat
    by (auto simp: find_Some_iff)
  let ?bad = "\<lambda>i. lib (take i all) (all ! i) \<noteq> None"
  have "[0..<length all] = [0..<3] @ [3] @ map ((+) 4) [0..<length (plan ops)]"
    by (simp add: all len plan_def upt_rec)
  moreover have "find (\<lambda>i. i \<noteq> 3 \<and> ?bad i) [0..<3] =
      find (\<lambda>i. lib (take i scheme_steps) (scheme_steps ! i) \<noteq> None) [0..<3]"
    by (rule find_cong) (auto simp: all len nth_append)
  moreover have "find (\<lambda>i. i \<noteq> 3 \<and> ?bad i) (map ((+) 4) [0..<length (plan ops)]) = map_option ((+) 4)
      (find (\<lambda>i. lib (scheme_steps @ ParseFlags args # take i (plan ops)) (plan ops ! i) \<noteq> None) [0..<length (plan ops)])"
    by (simp add: find_map comp_def all len nth_append take_Cons')
  moreover have "run_process lib flags args = run_steps lib 2 scheme_steps (main_func lib flags args) []"
    by (simp add: run_process_def init_scheme_steps)
  ultimately show ?thesis
    by (simp add: find_append run_steps_find len main_func_plan assms(1) split: option.split) (auto simp: all len dest: early)
qed

lemma startup_all_or_nothing_witness:
  "snd (run_process (\<lambda>done st. None) Map.empty [''--leader-elect'']) = 0"
  using startup_all_or_nothing [of Map.empty "[''--leader-elect'']" "default_options\<lparr>op_leader := True\<rparr>" _ "\<lambda>done st. None"]
  by (simp add: flag_is_bool_def set_flag_def parse_bool_def find_None_iff Let_def)

section \<open>Routing of events\<close>

text \<open>The events of the objects a controller owns find their way back: the DaemonSet and the flash Job carry
  exactly one owner reference, to the policy they were built for, as controller, with the group, version
  and kind that the controller is set up for and that are registered in the scheme; and a node event asks for
  every policy the server lists.\<close>

theorem owned_objects_route_to_policy:
  "(\<exists>r. dm_owners (buildDaemonSet p dcr n) = [r] \<and> or_controller r \<and> or_name r = dp_name dcr \<and>
      or_api r = api_version (fst (w_for driver_SetupWithManager)) \<and>
      or_kind r = snd (w_for driver_SetupWithManager) \<and> or_kind r \<in> set driver_registered) \<and>
   (\<exists>r. jb_owners (setOwnerRef (buildFlashJob p fcr n img) fcr) = [r] \<and> or_controller r \<and> or_name r = fp_name fcr \<and>
      or_api r = api_version (fst (w_for firmware_SetupWithManager)) \<and>
      or_kind r = snd (w_for firmware_SetupWithManager) \<and> or_kind r \<in> set firmware_registered) \<and>
   (srv_list_drv (pf_reads p) (hist s) = Inr dcrs \<longrightarrow> result_of (w_map driver_SetupWithManager p) s = map dp_name dcrs) \<and>
   (srv_list_fw (pf_reads p) (hist s) = Inr fcrs \<longrightarrow> result_of (w_map firmware_SetupWithManager p) s = map fp_name fcrs)"
  by (auto simp: buildDaemonSet_def driver_owner_refs_def setOwnerRef_def driver_SetupWithManager_def
      firmware_SetupWithManager_def driver_GroupVersion_def firmware_GroupVersion_def api_version_def
      driver_registered_def firmware_registered_def mapNodeToDriverCRs_def mapNodeToCRs_def list_drv_def
      list_fw_def Let_def)

lemma owned_objects_route_to_policy_witness:
  "result_of (w_map firmware_SetupWithManager (testbed [] [] [] [])) init_sys = []"
  using owned_objects_route_to_policy [of "testbed [] [] [] []" undefined undefined undefined undefined init_sys "[]" "[]"]
  by (simp add: testbed_def)

end
