(* ===== verification/Spec2Isabelle.thy ===== *)
theory Spec2Isabelle
  imports FirmwareGaps FirmwareStatus RollOutHalt CacheCases DriverGaps Cooperation WellFormed Interplay DeepCopyCases Manager
begin

text \<open>
  A model of the Tenstorrent Kubernetes driver manager (Go, \<open>src/\<close>) and of what its two controllers
  guarantee.

  The program. The operator reconciles two kinds of cluster-wide custom resources. A
  \<open>TenstorrentFirmwarePolicy\<close> brings nodes to a firmware version: every matched node is claimed by a
  label, cordoned, drained of device pods, flashed by a one-shot Job and opened again, with a limit on
  parallel flashes, a halt on failure, and a status that reports each node. A
  \<open>TenstorrentDriverPolicy\<close> rolls a kernel-module builder out as a DaemonSet: on drift of the template
  all matched nodes are cordoned, their deploy gates switched off and their pods evicted in two passes
  before the DaemonSet is updated, and each node is opened when its builder is ready at the new
  version. Both work on the same nodes through \<open>internal/drain\<close>, with annotations of their own and the one
  unschedulable flag, and both publish Prometheus series through \<open>internal/metrics\<close>.

  How it is modelled. A function of the source that talks to the API server, reads the clock, emits an
  event or touches a metric is a program of the state monad over \<open>sys\<close> (theory \<open>Runtime\<close>): the history
  of API calls with their outcomes, the metric operations, the events and the dedup memory. The API
  server, the clock, the environment variables and the apimachinery functions (selectors, condition
  merging, JSON) are code outside \<open>src/\<close>: they are the record \<open>platform\<close>, an argument of every
  definition, whose answers depend on the history in any way. A theorem without a hypothesis on the
  platform holds for every server, including one that fails any call. A Go error is a value \<open>err + 'a\<close>;
  an object that a callee changes through a pointer is returned next to the result; \<open>int32\<close> counters are
  \<open>32 word\<close>; a map that is only indexed is a HOL map, one that is iterated an association list.

  The theories and what they model:
  \<^item> \<open>Prelude\<close>: strings, maps with zero values, the state monad with its Hoare triple and the frame
    judgement \<open>keeps\<close> (locale \<open>frame\<close>); \<open>K8s\<close>: the API objects; \<open>Runtime\<close>: platform, calls, \<open>issues P m\<close>
    (the program \<open>m\<close> makes only calls in \<open>P\<close>) and \<open>issued_at\<close>, the interpretations of \<open>frame\<close> that the
    footprints use.
  \<^item> \<open>FirmwareApi\<close>, \<open>DriverApi\<close>: \<open>api/firmware/v1alpha1/types.go\<close>, \<open>api/driver/v1alpha1/types.go\<close>.
  \<^item> \<open>Labels\<close>: \<open>internal/controller/labels.go\<close> and \<open>env.go\<close>; \<open>Rfc3339\<close>: the two conversions of Go's \<open>time\<close>
    package that the drain clock stores in an annotation; \<open>Sha256\<close>: the hash behind Job names and the
    template stamp.
  \<^item> \<open>Drain\<close>: \<open>internal/drain/drain.go\<close>, with the contracts \<open>cordon_protocol\<close> (one controller's pair of
    annotation keys) and \<open>two_cordons\<close> (two controllers with disjoint keys).
  \<^item> \<open>FlashJob\<close>: \<open>internal/controller/job.go\<close>; \<open>Metrics\<close>: \<open>internal/metrics/metrics.go\<close>, with the contracts
    \<open>once_per_key\<close> (the dedup) and \<open>registry\<close> (a metric vector).
  \<^item> \<open>FirmwareNode\<close>, \<open>FirmwareReconcile\<close>, \<open>FirmwareMetrics\<close>: \<open>firmware_policy_controller.go\<close>, \<open>drain.go\<close> and
    \<open>firmware_metrics.go\<close> of \<open>internal/controller\<close>: observing and advancing one node, the passes of
    \<open>Reconcile\<close> in their order, the gauges.
  \<^item> \<open>DaemonSet\<close>, \<open>DriverNode\<close>, \<open>DriverDrain\<close>, \<open>DriverReconcile\<close>: \<open>driver_policy_controller.go\<close>,
    \<open>driver_drain.go\<close> and \<open>driver_metrics.go\<close>: the rendered DaemonSet and its hash, the state of a node,
    the two-pass drain, \<open>Reconcile\<close> and the status.
  \<^item> \<open>Manager\<close>: \<open>cmd/manager/main.go\<close>, \<open>SetupWithManager\<close> of both controllers and \<open>groupversion_info.go\<close>: the
    command line by the rules of Go's \<open>flag\<close> package, the steps of the start-up, the watches.

  The objects in memory. In the theories above a policy is a value. The generated copy functions are about
  memory, so they have a heap of their own:
  \<^item> \<open>GoHeap\<close>: cells, \<open>new\<close>, writes, and the contract \<open>deep_copy\<close> of a copy function (same value, new
    addresses only, nothing changed), closed under structs. \<open>GoPointers\<close>: the code that is emitted for a
    pointer and for a slice, and that it keeps the contract.
  \<^item> \<open>ApiObjects\<close>: the structs of both \<open>types.go\<close> with their pointers and slices, and the contract of the copy
    functions of apimachinery, which are a parameter. \<open>FirmwareDeepCopy\<close>, \<open>DriverDeepCopy\<close>: every method of the
    two \<open>zz_generated.deepcopy.go\<close>, and what the structs mean as records of \<open>FirmwareApi\<close> and \<open>DriverApi\<close>.
    \<open>DeepCopyCases\<close>: the documented layout of the apimachinery structs and two lists of policies in memory.

  The loop with the cluster. The theories above take one reconcile by itself, on any platform; these close
  the loop, first for the firmware controller:
  \<^item> \<open>Cluster\<close>: nodes, pods and Jobs, the effect of an accepted call (\<open>replay\<close>), and the contract
    \<open>api_server p c B\<close>: a read that succeeds shows the stored objects, NotFound means that there is no such
    Job, accepted writes take effect; any call may fail, and \<open>B\<close> records the names of the Jobs whose lookup
    may fail otherwise than with NotFound: \<open>observeNode\<close> takes such a node for a ready one
    (\<open>FirmwareGaps\<close>), so the guarantees for a node require that its own Job is not in \<open>B\<close>.
    \<open>reliable_server\<close> (in \<open>RollOutLive\<close>) extends it to a server that does not fail. Both are interpreted on
    \<open>mem_server\<close>, which keeps the objects in memory.
  \<^item> \<open>Phases\<close>: the phase of a node, read off the cluster, and the calls it allows. \<open>PhaseSteps\<close>: every call of
    a reconcile is one that the phase of its node allows. \<open>PhaseMoves\<close>: such calls move the phases along
    the state machine \<open>phase_step\<close> (the refinement), but for the undrained flash after a failed lookup of
    the node's own Job.
  \<^item> \<open>RollOutReach\<close>: reconciles alternating with an environment that runs Jobs, moves pods and changes
    nodes; with drain enabled a flash runs only on a drained node (but for failed lookups of its own Job), and
    at most \<open>maxParallel\<close> Jobs are in flight, in every reachable cluster. \<open>RollOutLive\<close>, \<open>RollOutDone\<close>: progress of a reconcile, and the end of a roll-out after
    three rounds per node: the rank of a node (three before its cordon, two when ready, one when
    flashed) never grows, and falls for some node in every round. \<open>RollOutCases\<close>: clusters of one
    node, and the second flash that a change of version starts. \<open>RollOutHalt\<close>: a paused or halted policy
    leaves every node in its phase.
  \<^item> \<open>CacheReads\<close>: the same controller on reads that lag. The client of the manager reads from informer
    caches, so \<open>api_server\<close> is an idealisation; the contract \<open>cached_server\<close> lets every read show some earlier
    cluster of the run, each kind of object with its own lag. The flash still runs on a drained node if
    the Pods are not older than the Nodes (and with the same exception as above); the limit of parallel flashes holds if the Jobs are no older
    than the last reconcile, whatever the other reads show. \<open>CacheCases\<close>: without these orders neither
    holds, and the ownership of a node does not hold on caches at all.

  The same for the driver controller, on servers that do not fail (\<open>driver_server\<close>, which extends
  \<open>reliable_server\<close> by the DaemonSets and is interpreted on \<open>drv_server\<close>):
  \<^item> \<open>UpgradeNodes\<close>: what closing, opening and the label clean-up do to the stored node, exactly.
    \<open>UpgradeLoop\<close>: the DaemonSets, the evictions, the drain of all matched nodes. \<open>UpgradeRounds\<close>: one
    reconcile with and without drift of the template.
  \<^item> \<open>UpgradeCycle\<close>: the upgrade from the drift to the last opened node of a policy that is not paused, drains,
    and has a filter that parses, with an environment that in between moves pods, reports on DaemonSets and
    lets the builders patch their three labels on the nodes: the template changes on closed nodes only,
    cordon and deploy gates go together, and the nodes are given back as they were up to those labels.
    \<open>UpgradeCases\<close>: the same on a cluster of one node.

  Both controllers, with servers that may fail any call:
  \<^item> \<open>DriverSteps\<close>: what a driver reconcile guarantees to others: the labels and annotations it may write, and
    that a node outside the selector keeps its schedulability and its annotations.
  \<^item> \<open>PolicyOwners\<close>: reconciles of several firmware and driver policies over one cluster; every call respects
    the owner labels that it found, and a Job is created only after its node is claimed.
  \<^item> \<open>Interplay\<close>: a driver reconcile that selects no node held by the firmware policy is a step of the
    environment of \<open>RollOutReach\<close>, so its invariants stand beside the driver; one that does select such a
    node opens it under the flash, for good.

  What the other lemmas show:
  \<^item> \<open>FirmwareSafety\<close>: the calls a firmware reconcile can make, the limit on flash Jobs, pause and halt.
    \<open>FirmwareFlow\<close>: what each observed state means, drained before flashed, ownership of nodes.
    \<open>FirmwareStatus\<close>: stamps, events, summary, conditions, the status write, requeue and deletion.
    \<open>FirmwareGaps\<close>: where the roll-out departs from its comments.
  \<^item> \<open>DriverSafety\<close>: the calls a driver reconcile can make, the drain that is asked of every matched node
    before the update, which nodes are opened and on which listings that is decided (on any platform, with
    the judgement \<open>issued_at\<close> of \<open>Runtime\<close>, which sees the calls made before each call).
    \<open>DriverStatus\<close>: node states by their causes in every written status, events, summary, conditions, gauges.
    \<open>DriverGaps\<close>: requeue, deletion, the gate operations and a removal that fails, the fleet gauge, and nodes
    that stay closed.
  \<^item> \<open>Templates\<close>: the DaemonSet against the node matching, its hash, the version read back, flash Jobs.
    \<open>WellFormed\<close>: the rendered objects against the rules of the API server.
    \<open>Cooperation\<close>: both controllers on one node (interpretations of \<open>two_cordons\<close>) and the evictions.
  \<^item> \<open>TestBed\<close>: a concrete platform and objects on which the properties with hypotheses are evaluated.

  Termination and bounds. Every loop of the source runs over a finite list and is structural recursion
  here, so no fuel is needed and every reconcile is a total function. 32-bit counters wrap as in Go, and
  \<open>time.Since\<close> saturates at 64 bits; instants are unbounded integers of nanoseconds, and RFC 3339 time
  stamps are exact for the years 0 to 9999.

  Not modelled: log lines and the logger, controller-runtime itself (its work
  queue and informers; only what is asked of it, and in \<open>CacheReads\<close> that its caches lag), the concurrency between the two reconcilers below the
  granularity of one reconcile (the server may answer every call in any way, which covers writes of
  others in between), the Helm charts and the shell scripts of the images.
\<close>

end
